theory Spec2Isabelle
  imports Complex_Main "HOL-Library.AList"
begin

section \<open>JavaScript values\<close>

text \<open>
  The program is dynamically typed: every record is a bag of named fields holding
  arbitrary values, and the validators exist because of that. Values are modelled by
  one datatype: the values of JSON, and \<open>undefined\<close>, \<open>NaN\<close> and the two infinities.

  \<^item> A number is a double. \<open>JNum q\<close> is the finite double of value \<open>q\<close>, \<open>JInf b\<close> is
    \<open>Infinity\<close> when \<open>b\<close> holds and \<open>-Infinity\<close> otherwise. The two zeros are one
    value: the program never divides, and negation, comparison, \<open>String\<close>,
    \<open>Number.isInteger\<close> and \<open>JSON.stringify\<close> treat them alike.
  \<^item> A string is the list of its code units, and the model has the code units below
    256 (the Latin-1 range): \<open>CHR 0xA0\<close> is the no-break space.
  \<^item> An object is the list of its own properties. There are no functions among the
    values, so an own property that has the name of a method holds data.
\<close>

datatype jsval =
    JUndefined
  | JNull
  | JBool bool
  | JNum rat
  | JInf bool
  | JNaN
  | JStr string
  | JArr "jsval list"
  | JObj "(string \<times> jsval) list"

type_synonym props = "(string \<times> jsval) list"

text \<open>\<open>val == null\<close>: true of \<open>null\<close> and \<open>undefined\<close> only.\<close>

fun nullish :: "jsval \<Rightarrow> bool" where
  "nullish JUndefined = True"
| "nullish JNull = True"
| "nullish _ = False"

text \<open>The own properties of a value; a primitive has none of the fields used here.\<close>

fun own_props :: "jsval \<Rightarrow> props" where
  "own_props (JObj kvs) = kvs"
| "own_props _ = []"

text \<open>
  \<open>hasProp_(obj, prop)\<close> (a trailing underscore of the source is written as a prime) is
  \<open>obj.hasOwnProperty(prop)\<close>. The method is looked up on the object itself first: an
  own property named \<open>hasOwnProperty\<close> shadows the inherited method, and as it holds
  data the call throws a \<open>TypeError\<close>. That is \<open>None\<close> here.
\<close>

definition hasProp' :: "props \<Rightarrow> string \<Rightarrow> bool option" where
  "hasProp' obj prop =
     (if map_of obj ''hasOwnProperty'' \<noteq> None then None else Some (map_of obj prop \<noteq> None))"

text \<open>\<open>obj[prop]\<close>: \<open>undefined\<close> when the property is absent.\<close>

definition prop_get :: "props \<Rightarrow> string \<Rightarrow> jsval" where
  "prop_get obj prop = (case map_of obj prop of None \<Rightarrow> JUndefined | Some v \<Rightarrow> v)"

text \<open>
  \<open>obj[prop] = v\<close>: an existing property keeps its place, a new one goes last.
  This is \<^const>\<open>AList.update\<close>.
\<close>

definition prop_set :: "props \<Rightarrow> string \<Rightarrow> jsval \<Rightarrow> props" where
  "prop_set obj prop v = AList.update prop v obj"

subsection \<open>Strings\<close>

text \<open>
  The white space and line terminators of \<open>String.prototype.trim\<close> and of \<open>Number\<close>
  applied to a string: tab, line feed, vertical tab, form feed, carriage return, space
  and no-break space are the ones below 256.
\<close>

definition is_space :: "char \<Rightarrow> bool" where
  "is_space c =
     (c \<in> set [CHR 0x09, CHR 0x0A, CHR 0x0B, CHR 0x0C, CHR 0x0D, CHR 0x20, CHR 0xA0])"

definition trim :: "string \<Rightarrow> string" where
  "trim s = rev (dropWhile is_space (rev (dropWhile is_space s)))"

definition is_digit :: "char \<Rightarrow> bool" where
  "is_digit c = (48 \<le> (of_char c :: nat) \<and> (of_char c :: nat) \<le> 57)"

definition digit_val :: "char \<Rightarrow> nat" where
  "digit_val c = of_char c - 48"

definition digits_val :: "string \<Rightarrow> int" where
  "digits_val s = foldl (\<lambda>n c. 10 * n + int (digit_val c)) 0 s"

text \<open>Decimal digits of a natural number, and of an integer that is not negative.\<close>

fun show_nat :: "nat \<Rightarrow> string" where
  "show_nat n =
     (if n < 10 then [char_of (48 + n)]
      else show_nat (n div 10) @ [char_of (48 + n mod 10)])"

declare show_nat.simps [simp del]

function show_int :: "int \<Rightarrow> string" where
  "show_int n =
     (if n < 10 then [char_of (48 + nat n)]
      else show_int (n div 10) @ [char_of (48 + nat (n mod 10))])"
  by auto

termination show_int
  by (relation "measure nat") auto

declare show_int.simps [simp del]

subsection \<open>Doubles\<close>

text \<open>
  The double nearest to a rational, ties to the even significand: 53 bits of
  significand, the least exponent \<open>-1022\<close> (below it the spacing stays \<open>2^-1074\<close>), and
  an infinity from \<open>2^1024\<close> on.
\<close>

definition pow2 :: "int \<Rightarrow> rat" where
  "pow2 e = (if 0 \<le> e then 2 ^ nat e else 1 / 2 ^ nat (- e))"

definition pow10 :: "int \<Rightarrow> rat" where
  "pow10 e = (if 0 \<le> e then 10 ^ nat e else 1 / 10 ^ nat (- e))"

function log2_floor :: "int \<Rightarrow> int" where
  "log2_floor n = (if n < 2 then 0 else 1 + log2_floor (n div 2))"
  by auto

termination log2_floor
  by (relation "measure nat") auto

declare log2_floor.simps [simp del]

text \<open>The integers \<open>e\<close> with \<open>2^e \<le> q < 2^(e+1)\<close> and with \<open>10^e \<le> q < 10^(e+1)\<close>, for \<open>q > 0\<close>.\<close>

definition binade :: "rat \<Rightarrow> int" where
  "binade q =
     (let (a, b) = quotient_of q;
          e = log2_floor a - log2_floor b
      in if q < pow2 e then e - 1 else e)"

definition decade :: "rat \<Rightarrow> int" where
  "decade q =
     (let (a, b) = quotient_of q;
          e = int (length (show_int a)) - int (length (show_int b))
      in if q < pow10 e then e - 1 else e)"

definition round_even :: "rat \<Rightarrow> int" where
  "round_even q =
     (let f = \<lfloor>q\<rfloor>; d = q - of_int f
      in if d < 1 / 2 then f else if 1 / 2 < d then f + 1 else if even f then f else f + 1)"

definition round_double :: "rat \<Rightarrow> jsval" where
  "round_double q =
     (if q = 0 then JNum 0
      else
        (let a = \<bar>q\<bar>;
             spacing = pow2 (max (binade a) (- 1022) - 52);
             r = of_int (round_even (a / spacing)) * spacing
         in if pow2 1024 \<le> r then JInf (0 < q) else JNum (if 0 < q then r else - r)))"

text \<open>Negation of a number.\<close>

fun negate :: "jsval \<Rightarrow> jsval" where
  "negate (JNum q) = JNum (- q)"
| "negate (JInf b) = JInf (\<not> b)"
| "negate v = JNaN"

subsection \<open>A number as a string\<close>

text \<open>
  \<open>String(x)\<close> for a finite \<open>x > 0\<close> takes the least number \<open>k\<close> of digits for which some
  \<open>s\<close> of \<open>k\<close> digits and some \<open>n\<close> give a decimal \<open>s * 10^(n - k)\<close> that reads back as
  \<open>x\<close>, and among those \<open>s\<close> the one nearest to \<open>x\<close>. Only the two decimals of \<open>k\<close>
  digits around \<open>x\<close> can read back as \<open>x\<close>; the upper one may be a power of ten, which
  is the digit \<open>1\<close> one place higher. Seventeen digits always suffice for a double.
\<close>

definition digits_at :: "rat \<Rightarrow> int \<Rightarrow> nat \<Rightarrow> (int \<times> int) option" where
  "digits_at q n k =
     (let unit = pow10 (n - int k);
          lo = \<lfloor>q / unit\<rfloor>;
          hi = lo + 1;
          ok_lo = (round_double (of_int lo * unit) = JNum q);
          ok_hi = (round_double (of_int hi * unit) = JNum q);
          below = q - of_int lo * unit;
          above = of_int hi * unit - q;
          s = (if ok_lo \<and> ok_hi
               then (if below < above then lo else if above < below then hi
                     else if even lo then lo else hi)
               else if ok_lo then lo else hi)
      in if \<not> ok_lo \<and> \<not> ok_hi then None
         else if s = 10 ^ k then Some (1, n + 1)
         else Some (s, n))"

definition shortest_digits :: "rat \<Rightarrow> int \<times> int" where
  "shortest_digits q =
     (let n = decade q + 1
      in case List.map_filter (digits_at q n) [1 ..< 18] of
           sn # others \<Rightarrow> sn
         | [] \<Rightarrow> (\<lfloor>q / pow10 (n - 17)\<rfloor>, n))"

text \<open>
  The digits are laid out plainly when \<open>n\<close> is between \<open>-5\<close> and \<open>21\<close>, and with an
  exponent otherwise.
\<close>

definition layout :: "string \<Rightarrow> int \<Rightarrow> string" where
  "layout ds n =
     (let k = int (length ds) in
      if k \<le> n \<and> n \<le> 21 then ds @ replicate (nat (n - k)) CHR ''0''
      else if 0 < n \<and> n \<le> 21 then take (nat n) ds @ ''.'' @ drop (nat n) ds
      else if - 6 < n \<and> n \<le> 0 then ''0.'' @ replicate (nat (- n)) CHR ''0'' @ ds
      else (if k = 1 then ds else hd ds # ''.'' @ tl ds)
           @ ''e'' @ (if n - 1 < 0 then ''-'' else ''+'') @ show_int \<bar>n - 1\<bar>)"

text \<open>
  An integer below \<open>2^53\<close> in size prints all its digits, which is what the rule above
  gives for it: every integer of that size is a double, so no decimal with fewer
  digits reads back as it. A rational that is not the value of a double is not a
  JavaScript number; it is printed as the double nearest to it.
\<close>

definition show_positive :: "rat \<Rightarrow> string" where
  "show_positive q =
     (if of_int \<lfloor>q\<rfloor> = q \<and> q < 2 ^ 53 then show_int \<lfloor>q\<rfloor>
      else case round_double q of
             JNum x \<Rightarrow>
               if x = 0 then ''0''
               else (let (s, n) = shortest_digits x in layout (show_int s) n)
           | _ \<Rightarrow> ''Infinity'')"

definition number_to_string :: "rat \<Rightarrow> string" where
  "number_to_string q =
     (if q < 0 then (if show_positive (- q) = ''0'' then ''0'' else ''-'' @ show_positive (- q))
      else show_positive q)"

fun join_commas :: "string list \<Rightarrow> string" where
  "join_commas [] = []"
| "join_commas [s] = s"
| "join_commas (s # t # ts) = s @ CHR '','' # join_commas (t # ts)"

text \<open>
  Converting an object to a string or to a number calls its \<open>toString\<close>. An own
  property of that name shadows the inherited method and holds data, so the conversion
  throws a \<open>TypeError\<close>; an array converts its elements, \<open>null\<close> and \<open>undefined\<close>
  apart. The values on which \<open>String\<close> and \<open>Number\<close> return:
\<close>

fun convertible :: "jsval \<Rightarrow> bool" where
  "convertible (JObj kvs) = (map_of kvs ''toString'' = None)"
| "convertible (JArr vs) = list_all (\<lambda>v. nullish v \<or> convertible v) vs"
| "convertible v = True"

text \<open>
  \<open>String(val)\<close> for a convertible value, which is also the property name the value is
  used under. An array joins its elements with commas, \<open>null\<close> and \<open>undefined\<close> among
  them being empty; an object prints as \<open>[object Object]\<close>. Where the value may be
  an object or an array, the callers test \<^const>\<open>convertible\<close> before they convert.
\<close>

fun to_string :: "jsval \<Rightarrow> string" where
  "to_string JUndefined = ''undefined''"
| "to_string JNull = ''null''"
| "to_string (JBool b) = (if b then ''true'' else ''false'')"
| "to_string (JNum q) = number_to_string q"
| "to_string (JInf b) = (if b then ''Infinity'' else ''-Infinity'')"
| "to_string JNaN = ''NaN''"
| "to_string (JStr s) = s"
| "to_string (JArr vs) =
     join_commas (map (\<lambda>v. if nullish v then [] else to_string v) vs)"
| "to_string (JObj kvs) = ''[object Object]''"

subsection \<open>A string as a number\<close>

text \<open>
  The double of the decimal \<open>m * 10^ex\<close>, \<open>m \<ge> 0\<close>. A decimal of more than 310 digits
  before the point is beyond every double, and one that starts more than 330 places
  after the point is nearer to zero than to any other double.
\<close>

definition decimal_to_number :: "int \<Rightarrow> int \<Rightarrow> jsval" where
  "decimal_to_number m ex =
     (if m = 0 then JNum 0
      else
        (let places = int (length (show_int m)) + ex in
         if 310 < places then JInf True
         else if places < - 330 then JNum 0
         else round_double (of_int m * pow10 ex)))"

text \<open>The exponent part: nothing, or \<open>e\<close> or \<open>E\<close>, an optional sign and at least one digit.\<close>

definition exponent_part :: "string \<Rightarrow> int option" where
  "exponent_part s =
     (if s = [] then Some 0
      else if hd s = CHR ''e'' \<or> hd s = CHR ''E'' then
        (let t = tl s;
             negative = (t \<noteq> [] \<and> hd t = CHR ''-'');
             ds = (if t \<noteq> [] \<and> (hd t = CHR ''-'' \<or> hd t = CHR ''+'') then tl t else t)
         in if ds \<noteq> [] \<and> list_all is_digit ds
            then Some (if negative then - digits_val ds else digits_val ds)
            else None)
      else None)"

text \<open>
  An unsigned decimal literal: \<open>Infinity\<close>, or digits with an optional fraction and an
  optional exponent, with a digit before or after the point.
\<close>

definition unsigned_decimal :: "string \<Rightarrow> jsval" where
  "unsigned_decimal s =
     (if s = ''Infinity'' then JInf True
      else
        (let ip = takeWhile is_digit s;
             r1 = dropWhile is_digit s;
             point = (r1 \<noteq> [] \<and> hd r1 = CHR ''.'');
             fp = (if point then takeWhile is_digit (tl r1) else []);
             r2 = (if point then dropWhile is_digit (tl r1) else r1)
         in if ip = [] \<and> fp = [] then JNaN
            else case exponent_part r2 of
                   None \<Rightarrow> JNaN
                 | Some e \<Rightarrow> decimal_to_number (digits_val (ip @ fp)) (e - int (length fp))))"

text \<open>
  The literals \<open>0x\<close>, \<open>0o\<close> and \<open>0b\<close> (either case of the letter), which take no sign:
  the value of the digits in base 16, 8 or 2, when there is at least one digit and all
  are digits of the base.
\<close>

definition digit_in_base :: "nat \<Rightarrow> char \<Rightarrow> nat option" where
  "digit_in_base base c =
     (let n = (of_char c :: nat);
          v = (if 48 \<le> n \<and> n \<le> 57 then n - 48
               else if 97 \<le> n \<and> n \<le> 102 then n - 87
               else if 65 \<le> n \<and> n \<le> 70 then n - 55
               else 16)
      in if v < base then Some v else None)"

definition digits_in_base :: "nat \<Rightarrow> string \<Rightarrow> int option" where
  "digits_in_base base s =
     (if s = [] \<or> \<not> list_all (\<lambda>c. digit_in_base base c \<noteq> None) s then None
      else Some (foldl (\<lambda>n c. int base * n
                          + int (case digit_in_base base c of Some v \<Rightarrow> v | None \<Rightarrow> 0)) 0 s))"

definition prefixed_literal :: "string \<Rightarrow> int option" where
  "prefixed_literal s =
     (case s of
        z # x # ds \<Rightarrow>
          if z \<noteq> CHR ''0'' then None
          else if x = CHR ''x'' \<or> x = CHR ''X'' then digits_in_base 16 ds
          else if x = CHR ''o'' \<or> x = CHR ''O'' then digits_in_base 8 ds
          else if x = CHR ''b'' \<or> x = CHR ''B'' then digits_in_base 2 ds
          else None
      | _ \<Rightarrow> None)"

text \<open>\<open>Number(s)\<close> on a string: white space around is dropped and blank is \<open>0\<close>.\<close>

definition string_to_number :: "string \<Rightarrow> jsval" where
  "string_to_number s =
     (let t = trim s in
      if t = [] then JNum 0
      else case prefixed_literal t of
             Some n \<Rightarrow> round_double (of_int n)
           | None \<Rightarrow>
               if hd t = CHR ''-'' then negate (unsigned_decimal (tl t))
               else if hd t = CHR ''+'' then unsigned_decimal (tl t)
               else unsigned_decimal t)"

text \<open>
  \<open>Number(val)\<close> for a convertible value. An array and an object convert through
  their string forms, so the empty array is \<open>0\<close>, a one-element array is its element
  read as a string, and an object is \<open>NaN\<close>.
\<close>

fun to_number :: "jsval \<Rightarrow> jsval" where
  "to_number JUndefined = JNaN"
| "to_number JNull = JNum 0"
| "to_number (JBool b) = JNum (if b then 1 else 0)"
| "to_number (JNum q) = JNum q"
| "to_number (JInf b) = JInf b"
| "to_number JNaN = JNaN"
| "to_number (JStr s) = string_to_number s"
| "to_number (JArr vs) = string_to_number (to_string (JArr vs))"
| "to_number (JObj kvs) = string_to_number (to_string (JObj kvs))"

text \<open>Unary minus, \<open>-val\<close>, for a convertible value: the number is negated.\<close>

definition js_neg :: "jsval \<Rightarrow> jsval" where
  "js_neg v = negate (to_number v)"

text \<open>
  \<open>isNumber_(val)\<close>: false on \<open>null\<close>, \<open>undefined\<close> and blank strings, otherwise
  whether \<open>Number(val)\<close> is not \<open>NaN\<close>. The test \<open>val.trim?.() === ""\<close> calls \<open>trim\<close>
  whenever the value has one: on a string it is the method, on an object with an own
  property \<open>trim\<close> that is not \<open>null\<close> or \<open>undefined\<close> it is data and the call throws a
  \<open>TypeError\<close>. So does \<open>Number\<close> on a value that is not convertible. A \<open>TypeError\<close>
  is \<open>None\<close> here.
\<close>

definition isNumber' :: "jsval \<Rightarrow> bool option" where
  "isNumber' val =
     (if nullish val then Some False
      else case val of
             JStr s \<Rightarrow> if trim s = [] then Some False else Some (to_number val \<noteq> JNaN)
           | JObj kvs \<Rightarrow>
               if \<not> nullish (prop_get kvs ''trim'') \<or> \<not> convertible val then None
               else Some (to_number val \<noteq> JNaN)
           | _ \<Rightarrow> if convertible val then Some (to_number val \<noteq> JNaN) else None)"

section \<open>Field validator\<close>

text \<open>What a validator throws.\<close>

datatype reason =
    Missing
  | NotANumber
  | NotAnInteger
  | NotNonNegative
  | Invalid
  | NotABoolean
  | TypeError

text \<open>The static methods of class \<open>Validator\<close>; \<open>None\<close> is a normal return.\<close>

datatype validator =
    AlwaysValid
  | ValidateNum
  | ValidateInt
  | ValidateNonNegInt
  | ValidateNonEmpty
  | ValidateBool

definition validateNum :: "jsval \<Rightarrow> reason option" where
  "validateNum val = (if val = JNaN then Some NotANumber else None)"

text \<open>\<open>Number.isInteger\<close> is false of everything that is not a number.\<close>

definition isInteger :: "jsval \<Rightarrow> bool" where
  "isInteger val = (case val of JNum q \<Rightarrow> of_int \<lfloor>q\<rfloor> = q | _ \<Rightarrow> False)"

definition validateInt :: "jsval \<Rightarrow> reason option" where
  "validateInt val =
     (case validateNum val of Some r \<Rightarrow> Some r
      | None \<Rightarrow> if \<not> isInteger val then Some NotAnInteger else None)"

definition validateNonNegInt :: "jsval \<Rightarrow> reason option" where
  "validateNonNegInt val =
     (case validateInt val of Some r \<Rightarrow> Some r
      | None \<Rightarrow> (case val of JNum q \<Rightarrow> if q < 0 then Some NotNonNegative else None
                 | _ \<Rightarrow> None))"

text \<open>
  \<open>val.trim() === ""\<close>: on anything but a string the call itself throws a
  \<open>TypeError\<close>, which the caller's \<open>catch\<close> reports like any other reason.
\<close>

definition validateNonEmpty :: "jsval \<Rightarrow> reason option" where
  "validateNonEmpty val =
     (case val of JStr s \<Rightarrow> if trim s = [] then Some Invalid else None
      | _ \<Rightarrow> Some TypeError)"

definition validateBool :: "jsval \<Rightarrow> reason option" where
  "validateBool val = (case val of JBool b \<Rightarrow> None | _ \<Rightarrow> Some NotABoolean)"

fun validate :: "validator \<Rightarrow> jsval \<Rightarrow> reason option" where
  "validate AlwaysValid val = None"
| "validate ValidateNum val = validateNum val"
| "validate ValidateInt val = validateInt val"
| "validate ValidateNonNegInt val = validateNonNegInt val"
| "validate ValidateNonEmpty val = validateNonEmpty val"
| "validate ValidateBool val = validateBool val"

text \<open>
  What \<open>checkArgs_\<close> throws: the error object
  \<open>error_(`${resource}.checkArgs()`, message)\<close>, which is the resource kind and either
  "missing args" or a field name with its reason; or the \<open>TypeError\<close> of a call that is
  outside every \<open>try\<close>, which is no error object of the program.
\<close>

datatype arg_error =
    MissingArgs string
  | FieldError string string reason
  | ThrownTypeError

type_synonym schema = "(string \<times> validator) list"

text \<open>The loop over \<open>Object.entries(required)\<close>: the first bad field throws.\<close>

fun check_required :: "string \<Rightarrow> schema \<Rightarrow> props \<Rightarrow> props \<Rightarrow> arg_error + props" where
  "check_required resource [] args fixed = Inr fixed"
| "check_required resource ((field, v) # rest) args fixed =
     (case hasProp' args field of
        None \<Rightarrow> Inl ThrownTypeError
      | Some False \<Rightarrow> Inl (FieldError resource field Missing)
      | Some True \<Rightarrow>
          (case validate v (prop_get args field) of
             Some r \<Rightarrow> Inl (FieldError resource field r)
           | None \<Rightarrow> check_required resource rest args (prop_set fixed field (prop_get args field))))"

text \<open>The loop over \<open>Object.entries(optional)\<close>: an absent field is skipped.\<close>

fun check_optional :: "string \<Rightarrow> schema \<Rightarrow> props \<Rightarrow> props \<Rightarrow> arg_error + props" where
  "check_optional resource [] args fixed = Inr fixed"
| "check_optional resource ((field, v) # rest) args fixed =
     (case hasProp' args field of
        None \<Rightarrow> Inl ThrownTypeError
      | Some False \<Rightarrow> check_optional resource rest args fixed
      | Some True \<Rightarrow>
          (case validate v (prop_get args field) of
             Some r \<Rightarrow> Inl (FieldError resource field r)
           | None \<Rightarrow> check_optional resource rest args (prop_set fixed field (prop_get args field))))"

definition checkArgs' :: "string \<Rightarrow> schema \<Rightarrow> schema \<Rightarrow> jsval \<Rightarrow> arg_error + props" where
  "checkArgs' resource required optional args =
     (if nullish args then Inl (MissingArgs resource)
      else case check_required resource required (own_props args) [] of
             Inl e \<Rightarrow> Inl e
           | Inr fixed \<Rightarrow> check_optional resource optional (own_props args) fixed)"

section \<open>Resource accessors: argument checks\<close>

text \<open>
  The assignment \<open>obj[field] = -obj[field]\<close> on the own properties of a record. The
  minus converts its operand, and that conversion throws on a value that is not
  \<^const>\<open>convertible\<close>.
\<close>

definition flip_sign :: "props \<Rightarrow> string \<Rightarrow> props option" where
  "flip_sign obj field =
     (if convertible (prop_get obj field) then Some (prop_set obj field (js_neg (prop_get obj field)))
      else None)"

text \<open>
  \<open>RubricCategory.checkArgs(args, {updating, creating})\<close>. When updating, the required
  fields are moved behind the optional ones; otherwise, unless creating, \<open>assignment\<close>
  is not required. After the check the sign of \<open>pointLimit\<close> is flipped for the wire,
  when updating or creating, and \<open>null\<close> stays \<open>null\<close>.
\<close>

definition category_REQUIRED :: schema where
  "category_REQUIRED = [(''assignment'', ValidateNonNegInt), (''name'', ValidateNonEmpty)]"

definition category_OPTIONAL :: schema where
  "category_OPTIONAL =
     [(''pointLimit'', ValidateNum), (''helpText'', AlwaysValid),
      (''atMostOnce'', ValidateBool), (''sortKey'', ValidateNonNegInt)]"

definition RubricCategory_checkArgs :: "jsval \<Rightarrow> bool \<Rightarrow> bool \<Rightarrow> arg_error + props" where
  "RubricCategory_checkArgs args updating creating =
     (let required = (if updating then []
                      else if \<not> creating then AList.delete ''assignment'' category_REQUIRED
                      else category_REQUIRED);
          optional = (if updating then category_OPTIONAL @ category_REQUIRED
                      else category_OPTIONAL)
      in case checkArgs' ''RubricCategory'' required optional args of
           Inl e \<Rightarrow> Inl e
         | Inr checked \<Rightarrow>
             if updating \<or> creating then
               (case hasProp' checked ''pointLimit'' of
                  None \<Rightarrow> Inl ThrownTypeError
                | Some present \<Rightarrow>
                    if present \<and> \<not> nullish (prop_get checked ''pointLimit'')
                    then (case flip_sign checked ''pointLimit'' of
                            None \<Rightarrow> Inl ThrownTypeError
                          | Some flipped \<Rightarrow> Inr flipped)
                    else Inr checked)
             else Inr checked)"

text \<open>
  \<open>RubricComment.checkArgs(args, {updating, creating})\<close>, of the same shape; the sign of
  \<open>pointDelta\<close> is flipped whenever the field is there.
\<close>

definition comment_REQUIRED :: schema where
  "comment_REQUIRED =
     [(''category'', ValidateNonNegInt), (''name'', ValidateNonEmpty),
      (''pointDelta'', ValidateNum), (''text'', ValidateNonEmpty)]"

definition comment_OPTIONAL :: schema where
  "comment_OPTIONAL =
     [(''explanation'', AlwaysValid), (''instructionText'', AlwaysValid),
      (''templateTextOn'', ValidateBool), (''sortKey'', ValidateNonNegInt)]"

definition RubricComment_checkArgs :: "jsval \<Rightarrow> bool \<Rightarrow> bool \<Rightarrow> arg_error + props" where
  "RubricComment_checkArgs args updating creating =
     (let required = (if updating then []
                      else if \<not> creating then AList.delete ''category'' comment_REQUIRED
                      else comment_REQUIRED);
          optional = (if updating then comment_OPTIONAL @ comment_REQUIRED
                      else comment_OPTIONAL)
      in case checkArgs' ''RubricComment'' required optional args of
           Inl e \<Rightarrow> Inl e
         | Inr checked \<Rightarrow>
             if updating \<or> creating then
               (case hasProp' checked ''pointDelta'' of
                  None \<Rightarrow> Inl ThrownTypeError
                | Some present \<Rightarrow>
                    if present
                    then (case flip_sign checked ''pointDelta'' of
                            None \<Rightarrow> Inl ThrownTypeError
                          | Some flipped \<Rightarrow> Inr flipped)
                    else Inr checked)
             else Inr checked)"

section \<open>Property names and objects used as dictionaries\<close>

text \<open>
  An object used as a dictionary is the list of its own properties in insertion
  order. \<open>obj[key] = v\<close> is \<^const>\<open>AList.update\<close>, except under the name
  \<open>__proto__\<close>: on an object that has no own property of that name the assignment goes
  to the inherited setter and creates no property.
\<close>

type_synonym 'v dict = "(string \<times> 'v) list"

definition dict_assign :: "'v dict \<Rightarrow> string \<Rightarrow> 'v \<Rightarrow> 'v dict" where
  "dict_assign obj key v =
     (if key = ''__proto__'' \<and> map_of obj key = None then obj else AList.update key v obj)"

text \<open>\<open>Object.fromEntries\<close> defines the properties one by one; the last of two wins.\<close>

definition fromEntries :: "(string \<times> 'v) list \<Rightarrow> 'v dict" where
  "fromEntries entries = foldl (\<lambda>obj (k, v). AList.update k v obj) [] entries"

text \<open>
  The order in which \<open>Object.keys\<close>, \<open>Object.values\<close> and \<open>Object.entries\<close> visit
  the properties: first the names that are array indices (canonical decimal numerals
  below \<open>2^32 - 1\<close>) in ascending numeric order, then the other names in insertion order.
\<close>

definition is_array_index :: "string \<Rightarrow> bool" where
  "is_array_index s =
     (s \<noteq> [] \<and> list_all is_digit s \<and> (hd s \<noteq> CHR ''0'' \<or> length s = 1)
      \<and> digits_val s < 4294967295)"

definition own_entries :: "'v dict \<Rightarrow> (string \<times> 'v) list" where
  "own_entries obj =
     sort_key (\<lambda>(k, v). digits_val k) (filter (\<lambda>(k, v). is_array_index k) obj)
     @ filter (\<lambda>(k, v). \<not> is_array_index k) obj"

definition own_keys :: "'v dict \<Rightarrow> string list" where
  "own_keys obj = map fst (own_entries obj)"

definition own_values :: "'v dict \<Rightarrow> 'v list" where
  "own_values obj = map snd (own_entries obj)"

text \<open>\<open>obj[key]\<close> on a dictionary; \<open>None\<close> is \<open>undefined\<close>.\<close>

definition dict_get :: "'v dict \<Rightarrow> string \<Rightarrow> 'v option" where
  "dict_get obj key = map_of obj key"

section \<open>The remote store\<close>

text \<open>
  Modelled from the spec: the remote resource API (section 6, "Resource API
  boundary"), which is a service outside this repository. Each collection holds rows
  addressed by a numeric id; \<open>GET\<close> returns a row, \<open>POST\<close> stores the payload under a
  fresh id and returns it, \<open>PATCH\<close> overwrites the fields of the payload, \<open>DELETE\<close>
  removes the row, and deleting a category removes its comments. A request for a row
  that does not exist is answered 404. A row keeps its fields as they were sent. The
  address of a row has its id in decimal digits; in a response the id is a JSON number,
  which the client reads as the double nearest to it: the id itself below \<open>2^53\<close>.
\<close>

record row =
  row_id :: nat
  row_fields :: props

record assignment_row =
  asg_id :: nat
  asg_name :: string
  asg_submissions :: "jsval list"

record store =
  st_assignments :: "assignment_row list"
  st_categories :: "row list"
  st_comments :: "row list"

record request =
  req_method :: string
  req_url :: string
  req_auth :: string
  req_payload :: "jsval option"

record response =
  res_code :: nat
  res_body :: jsval

definition BASE_ENDPOINT :: string where
  "BASE_ENDPOINT = ''https://api.codepost.io/''"

definition ASSIGNMENTS :: string where
  "ASSIGNMENTS = ''assignments/''"

definition RUBRIC_CATEGORIES :: string where
  "RUBRIC_CATEGORIES = ''rubricCategories/''"

definition RUBRIC_COMMENTS :: string where
  "RUBRIC_COMMENTS = ''rubricComments/''"

definition item_url :: "string \<Rightarrow> nat \<Rightarrow> string" where
  "item_url collection i = BASE_ENDPOINT @ collection @ show_nat i @ ''/''"

definition id_val :: "nat \<Rightarrow> jsval" where
  "id_val i = (if int i < 2 ^ 53 then JNum (of_nat i) else round_double (of_nat i))"

definition ids_where :: "string \<Rightarrow> nat \<Rightarrow> row list \<Rightarrow> jsval list" where
  "ids_where field i rows =
     map (\<lambda>r. id_val (row_id r)) (filter (\<lambda>r. prop_get (row_fields r) field = id_val i) rows)"

definition render_category :: "store \<Rightarrow> row \<Rightarrow> jsval" where
  "render_category st r =
     JObj (prop_set (prop_set (row_fields r) ''id'' (id_val (row_id r)))
             ''rubricComments'' (JArr (ids_where ''category'' (row_id r) (st_comments st))))"

definition render_comment :: "row \<Rightarrow> jsval" where
  "render_comment r = JObj (prop_set (row_fields r) ''id'' (id_val (row_id r)))"

definition render_assignment :: "store \<Rightarrow> assignment_row \<Rightarrow> jsval" where
  "render_assignment st a =
     JObj [(''id'', id_val (asg_id a)), (''name'', JStr (asg_name a)),
           (''rubricCategories'', JArr (ids_where ''assignment'' (asg_id a) (st_categories st)))]"

definition fresh_id :: "row list \<Rightarrow> nat" where
  "fresh_id rows = Suc (foldr max (map row_id rows) 0)"

definition not_found :: response where
  "not_found = \<lparr>res_code = 404, res_body = JObj [(''detail'', JStr ''Not found.'')]\<rparr>"

definition find_row :: "string \<Rightarrow> string \<Rightarrow> row list \<Rightarrow> row option" where
  "find_row collection url rows = find (\<lambda>r. item_url collection (row_id r) = url) rows"

definition patch_row :: "props \<Rightarrow> row \<Rightarrow> row" where
  "patch_row payload r =
     r\<lparr>row_fields := foldl (\<lambda>fs (k, v). prop_set fs k v) (row_fields r) payload\<rparr>"

definition replace_row :: "row \<Rightarrow> row list \<Rightarrow> row list" where
  "replace_row r rows = map (\<lambda>x. if row_id x = row_id r then r else x) rows"

definition serve_get :: "string \<Rightarrow> store \<Rightarrow> response \<times> store" where
  "serve_get url st =
     (case find_row RUBRIC_CATEGORIES url (st_categories st) of
        Some r \<Rightarrow> (\<lparr>res_code = 200, res_body = render_category st r\<rparr>, st)
      | None \<Rightarrow>
     (case find_row RUBRIC_COMMENTS url (st_comments st) of
        Some r \<Rightarrow> (\<lparr>res_code = 200, res_body = render_comment r\<rparr>, st)
      | None \<Rightarrow>
     (case find (\<lambda>a. item_url ASSIGNMENTS (asg_id a) = url) (st_assignments st) of
        Some a \<Rightarrow> (\<lparr>res_code = 200, res_body = render_assignment st a\<rparr>, st)
      | None \<Rightarrow>
     (case find (\<lambda>a. item_url ASSIGNMENTS (asg_id a) @ ''submissions/'' = url) (st_assignments st) of
        Some a \<Rightarrow> (\<lparr>res_code = 200, res_body = JArr (asg_submissions a)\<rparr>, st)
      | None \<Rightarrow> (not_found, st)))))"

definition serve_post :: "string \<Rightarrow> jsval \<Rightarrow> store \<Rightarrow> response \<times> store" where
  "serve_post url payload st =
     (if url = BASE_ENDPOINT @ RUBRIC_CATEGORIES then
        (let r = \<lparr>row_id = fresh_id (st_categories st), row_fields = own_props payload\<rparr>;
             st' = st\<lparr>st_categories := st_categories st @ [r]\<rparr>
         in (\<lparr>res_code = 201, res_body = render_category st' r\<rparr>, st'))
      else if url = BASE_ENDPOINT @ RUBRIC_COMMENTS then
        (let r = \<lparr>row_id = fresh_id (st_comments st), row_fields = own_props payload\<rparr>;
             st' = st\<lparr>st_comments := st_comments st @ [r]\<rparr>
         in (\<lparr>res_code = 201, res_body = render_comment r\<rparr>, st'))
      else (not_found, st))"

definition serve_patch :: "string \<Rightarrow> jsval \<Rightarrow> store \<Rightarrow> response \<times> store" where
  "serve_patch url payload st =
     (case find_row RUBRIC_CATEGORIES url (st_categories st) of
        Some r \<Rightarrow>
          (let r' = patch_row (own_props payload) r;
               st' = st\<lparr>st_categories := replace_row r' (st_categories st)\<rparr>
           in (\<lparr>res_code = 200, res_body = render_category st' r'\<rparr>, st'))
      | None \<Rightarrow>
     (case find_row RUBRIC_COMMENTS url (st_comments st) of
        Some r \<Rightarrow>
          (let r' = patch_row (own_props payload) r;
               st' = st\<lparr>st_comments := replace_row r' (st_comments st)\<rparr>
           in (\<lparr>res_code = 200, res_body = render_comment r'\<rparr>, st'))
      | None \<Rightarrow> (not_found, st)))"

definition serve_delete :: "string \<Rightarrow> store \<Rightarrow> response \<times> store" where
  "serve_delete url st =
     (case find_row RUBRIC_CATEGORIES url (st_categories st) of
        Some r \<Rightarrow>
          (\<lparr>res_code = 204, res_body = JObj []\<rparr>,
           st\<lparr>st_categories := filter (\<lambda>x. row_id x \<noteq> row_id r) (st_categories st),
              st_comments := filter (\<lambda>x. prop_get (row_fields x) ''category'' \<noteq> id_val (row_id r))
                            (st_comments st)\<rparr>)
      | None \<Rightarrow>
     (case find_row RUBRIC_COMMENTS url (st_comments st) of
        Some r \<Rightarrow>
          (\<lparr>res_code = 204, res_body = JObj []\<rparr>,
           st\<lparr>st_comments := filter (\<lambda>x. row_id x \<noteq> row_id r) (st_comments st)\<rparr>)
      | None \<Rightarrow> (not_found, st)))"

definition serve :: "request \<Rightarrow> store \<Rightarrow> response \<times> store" where
  "serve req st =
     (if req_method req = ''GET'' then serve_get (req_url req) st
      else if req_method req = ''POST'' then
        (case req_payload req of Some p \<Rightarrow> serve_post (req_url req) p st
         | None \<Rightarrow> (\<lparr>res_code = 400, res_body = JObj []\<rparr>, st))
      else if req_method req = ''PATCH'' then
        (case req_payload req of Some p \<Rightarrow> serve_patch (req_url req) p st
         | None \<Rightarrow> (\<lparr>res_code = 400, res_body = JObj []\<rparr>, st))
      else if req_method req = ''DELETE'' then serve_delete (req_url req) st
      else (\<lparr>res_code = 405, res_body = JObj []\<rparr>, st))"

text \<open>\<open>UrlFetchApp.fetchAll\<close>: the requests are answered one after the other.\<close>

fun serve_all :: "request list \<Rightarrow> store \<Rightarrow> response list \<times> store" where
  "serve_all [] st = ([], st)"
| "serve_all (req # reqs) st =
     (let (res, st') = serve req st; (ress, st'') = serve_all reqs st'
      in (res # ress, st''))"

section \<open>Batched request layer\<close>

text \<open>
  Everything the program can throw. \<open>UnknownMethod\<close> carries the method as it was
  given, and \<open>JsTypeError\<close> is a \<open>TypeError\<close> of the language that nothing catches.
\<close>

datatype js_error =
    ArgError arg_error
  | UnknownMethod string
  | ApiKeyNotFound
  | PostMissingData nat
  | PatchMissing nat
  | PatchMissingData nat
  | PatchMissingId nat
  | NoId string nat
  | RequestFailed string string jsval
  | RequestMissingData string
  | JsTypeError
  | AssignmentIdMissing
  | AssignmentIdInvalid
  | RubricMissing
  | RubricNotArray
  | CategoryError nat arg_error
  | CategoryNotUnique nat string
  | CommentsMissing nat
  | CommentsNotArray nat
  | CommentError nat nat arg_error
  | CommentNotUnique nat nat string

text \<open>
  What the program runs against: the configured API key (\<open>None\<close> when
  \<open>configGet("API_KEY")\<close> is \<open>null\<close>) and the button pressed in the confirmation dialog
  (\<open>YES_ = 0\<close>, \<open>NO_ = 1\<close>, \<open>CANCEL_ = 2\<close>).
\<close>

record env =
  api_key :: "string option"
  answer :: nat

definition YES :: nat where
  "YES = 0"

text \<open>The remote store and the requests sent so far, oldest first.\<close>

record world =
  w_store :: store
  w_trace :: "request list"

type_synonym 'a io = "world \<Rightarrow> (js_error + 'a) \<times> world"

definition io_return :: "'a \<Rightarrow> 'a io" where
  "io_return x w = (Inr x, w)"

definition io_throw :: "js_error \<Rightarrow> 'a io" where
  "io_throw e w = (Inl e, w)"

definition io_bind :: "'a io \<Rightarrow> ('a \<Rightarrow> 'b io) \<Rightarrow> 'b io" where
  "io_bind m f w = (case m w of (Inl e, w') \<Rightarrow> (Inl e, w') | (Inr x, w') \<Rightarrow> f x w')"

definition io_lift :: "js_error + 'a \<Rightarrow> 'a io" where
  "io_lift r w = (r, w)"

definition METHODS :: "(string \<times> nat) list" where
  "METHODS = [(''GET'', 200), (''POST'', 201), (''PATCH'', 200), (''DELETE'', 204)]"

text \<open>
  \<open>method.trim().toUpperCase()\<close> matters through the test against \<open>METHODS_\<close> only,
  whose names are capital letters of ASCII. No other character of a string becomes
  one of these letters in upper case, so the small letters of ASCII are the ones
  mapped here.
\<close>

definition to_upper :: "char \<Rightarrow> char" where
  "to_upper c =
     (if 97 \<le> (of_char c :: nat) \<and> (of_char c :: nat) \<le> 122 then char_of ((of_char c :: nat) - 32)
      else c)"

definition checkMethod' :: "string \<Rightarrow> js_error + string" where
  "checkMethod' method =
     (let m = map to_upper (trim method)
      in if map_of METHODS m = None then Inl (UnknownMethod method) else Inr m)"

definition fixEndpoint' :: "string \<Rightarrow> string" where
  "fixEndpoint' endpoint =
     (let e1 = (if endpoint \<noteq> [] \<and> hd endpoint = CHR ''/'' then tl endpoint else endpoint)
      in if e1 \<noteq> [] \<and> last e1 = CHR ''/'' then e1 else e1 @ ''/'')"

text \<open>\<open>makeOptions_(method)\<close>: the request without its address and payload.\<close>

definition makeOptions' :: "env \<Rightarrow> string \<Rightarrow> js_error + request" where
  "makeOptions' ev method =
     (case api_key ev of
        None \<Rightarrow> Inl ApiKeyNotFound
      | Some key \<Rightarrow>
          Inr \<lparr>req_method = method, req_url = [], req_auth = ''Token '' @ key,
               req_payload = None\<rparr>)"

text \<open>
  \<open>JSON.stringify\<close> followed by the parse on the other side: a property holding
  \<open>undefined\<close> is dropped, \<open>NaN\<close> and the infinities become \<open>null\<close>, and so does
  \<open>undefined\<close> inside an array.
\<close>

fun wire :: "jsval \<Rightarrow> jsval" where
  "wire JUndefined = JNull"
| "wire JNaN = JNull"
| "wire (JInf b) = JNull"
| "wire (JArr vs) = JArr (map wire vs)"
| "wire (JObj kvs) = JObj (map (\<lambda>kv. (fst kv, wire (snd kv))) (filter (\<lambda>kv. snd kv \<noteq> JUndefined) kvs))"
| "wire v = v"

text \<open>
  One turn of the \<open>data.forEach\<close> loop of \<open>fetch_\<close>: the options are made first, then
  the item is checked, then the address is completed. The result is the endpoint
  kept for the log and the request. The id is put into the address by a template
  string, which is \<open>String\<close> of it.
\<close>

definition with_id :: "request \<Rightarrow> string \<Rightarrow> jsval \<Rightarrow> string \<times> request" where
  "with_id options endpoint i =
     (let thisEndpoint = endpoint @ to_string i @ ''/''
      in (''/'' @ thisEndpoint, options\<lparr>req_url := BASE_ENDPOINT @ thisEndpoint\<rparr>))"

definition make_request :: "env \<Rightarrow> string \<Rightarrow> string \<Rightarrow> jsval \<Rightarrow> nat \<Rightarrow> js_error + (string \<times> request)" where
  "make_request ev method endpoint request index =
     (case makeOptions' ev method of
        Inl e \<Rightarrow> Inl e
      | Inr options \<Rightarrow>
          if method = ''POST'' then
            (if nullish request then Inl (PostMissingData index)
             else Inr (''/'' @ endpoint,
                       options\<lparr>req_url := BASE_ENDPOINT @ endpoint,
                               req_payload := Some (wire request)\<rparr>))
          else if method = ''PATCH'' then
            (if nullish request then Inl (PatchMissing index)
             else if nullish (prop_get (own_props request) ''data'') then Inl (PatchMissingData index)
             else if nullish (prop_get (own_props request) ''id'') then Inl (PatchMissingId index)
             else if \<not> convertible (prop_get (own_props request) ''id'') then Inl JsTypeError
             else
               (let (e, r) = with_id options endpoint (prop_get (own_props request) ''id'')
                in Inr (e, r\<lparr>req_payload := Some (wire (prop_get (own_props request) ''data''))\<rparr>)))
          else
            (case isNumber' request of
               None \<Rightarrow> Inl JsTypeError
             | Some True \<Rightarrow> Inr (with_id options endpoint request)
             | Some False \<Rightarrow>
                 if nullish request then Inl JsTypeError
                 else
                   (case isNumber' (prop_get (own_props request) ''id'') of
                      None \<Rightarrow> Inl JsTypeError
                    | Some False \<Rightarrow> Inl (NoId method index)
                    | Some True \<Rightarrow>
                        Inr (with_id options endpoint (prop_get (own_props request) ''id'')))))"

fun make_requests :: "env \<Rightarrow> string \<Rightarrow> string \<Rightarrow> jsval list \<Rightarrow> nat \<Rightarrow> js_error + (string \<times> request) list" where
  "make_requests ev method endpoint [] index = Inr []"
| "make_requests ev method endpoint (request # rest) index =
     (case make_request ev method endpoint request index of
        Inl e \<Rightarrow> Inl e
      | Inr r \<Rightarrow>
          (case make_requests ev method endpoint rest (Suc index) of
             Inl e \<Rightarrow> Inl e
           | Inr rs \<Rightarrow> Inr (r # rs)))"

definition processResult' :: "string \<Rightarrow> string \<Rightarrow> response \<Rightarrow> js_error + jsval" where
  "processResult' method endpoint res =
     (if Some (res_code res) \<noteq> map_of METHODS method
      then Inl (RequestFailed method endpoint (res_body res))
      else Inr (res_body res))"

fun process_all :: "string \<Rightarrow> string list \<Rightarrow> response list \<Rightarrow> js_error + jsval list" where
  "process_all method (endpoint # endpoints) (res # ress) =
     (case processResult' method endpoint res of
        Inl e \<Rightarrow> Inl e
      | Inr v \<Rightarrow>
          (case process_all method endpoints ress of Inl e \<Rightarrow> Inl e | Inr vs \<Rightarrow> Inr (v # vs)))"
| "process_all method endpoints ress = Inr []"

text \<open>
  \<open>fetch_(method, endpoint, data)\<close>. All requests are built before any is sent; the
  requests sent are appended to the trace.
\<close>

definition fetch' :: "env \<Rightarrow> string \<Rightarrow> string \<Rightarrow> jsval \<Rightarrow> jsval list io" where
  "fetch' ev method endpoint data w =
     (case checkMethod' method of
        Inl e \<Rightarrow> (Inl e, w)
      | Inr m \<Rightarrow>
          (case data of
             JArr items \<Rightarrow>
               (case make_requests ev m (fixEndpoint' endpoint) items 0 of
                  Inl e \<Rightarrow> (Inl e, w)
                | Inr rs \<Rightarrow>
                    if rs = [] then (Inr [], w)
                    else
                      (let (ress, st') = serve_all (map snd rs) (w_store w)
                       in (process_all m (map fst rs) ress,
                           \<lparr>w_store = st', w_trace = w_trace w @ map snd rs\<rparr>)))
           | _ \<Rightarrow> (Inl JsTypeError, w)))"

definition fetchOne' :: "env \<Rightarrow> string \<Rightarrow> string \<Rightarrow> jsval \<Rightarrow> jsval io" where
  "fetchOne' ev method endpoint data w =
     (case checkMethod' method of
        Inl e \<Rightarrow> (Inl e, w)
      | Inr m \<Rightarrow>
          (case makeOptions' ev m of
             Inl e \<Rightarrow> (Inl e, w)
           | Inr options \<Rightarrow>
               if (m = ''POST'' \<or> m = ''PATCH'') \<and> nullish data then (Inl (RequestMissingData m), w)
               else
                 (let req = options\<lparr>req_url := BASE_ENDPOINT @ fixEndpoint' endpoint,
                                   req_payload := (if m = ''POST'' \<or> m = ''PATCH''
                                                   then Some (wire data) else None)\<rparr>;
                      (res, st') = serve req (w_store w)
                  in (processResult' m (fixEndpoint' endpoint) res,
                      \<lparr>w_store = st', w_trace = w_trace w @ [req]\<rparr>))))"

section \<open>Resource accessors\<close>

text \<open>\<open>obj.prop\<close> on a value.\<close>

definition js_get :: "jsval \<Rightarrow> string \<Rightarrow> jsval" where
  "js_get v prop = prop_get (own_props v) prop"

text \<open>\<open>obj.prop = x\<close> on a parsed response.\<close>

definition js_set :: "jsval \<Rightarrow> string \<Rightarrow> jsval \<Rightarrow> jsval" where
  "js_set v prop x = (case v of JObj kvs \<Rightarrow> JObj (prop_set kvs prop x) | _ \<Rightarrow> v)"

definition Assignment_getById :: "env \<Rightarrow> jsval \<Rightarrow> jsval io" where
  "Assignment_getById ev assignmentId =
     fetchOne' ev ''GET'' (ASSIGNMENTS @ to_string assignmentId @ ''/'') JNull"

definition Assignment_getSubmissions :: "env \<Rightarrow> jsval \<Rightarrow> jsval io" where
  "Assignment_getSubmissions ev assignmentId =
     fetchOne' ev ''GET'' (ASSIGNMENTS @ to_string assignmentId @ ''/submissions/'') JNull"

text \<open>\<open>getSubmissions(assignmentId).length\<close>.\<close>

definition Assignment_getNumSubmissions :: "env \<Rightarrow> jsval \<Rightarrow> nat io" where
  "Assignment_getNumSubmissions ev assignmentId =
     io_bind (Assignment_getSubmissions ev assignmentId)
       (\<lambda>submissions. io_return (case submissions of JArr xs \<Rightarrow> length xs | _ \<Rightarrow> 0))"

text \<open>Collecting the results of a \<open>map\<close> whose callback may throw.\<close>

fun sequence :: "(js_error + 'a) list \<Rightarrow> js_error + 'a list" where
  "sequence [] = Inr []"
| "sequence (Inl e # rs) = Inl e"
| "sequence (Inr x # rs) = (case sequence rs of Inl e \<Rightarrow> Inl e | Inr xs \<Rightarrow> Inr (x # xs))"

text \<open>The outcome of \<open>checkArgs\<close> where nothing catches it.\<close>

definition lift_args :: "arg_error + props \<Rightarrow> js_error + jsval" where
  "lift_args r =
     (case r of
        Inl ThrownTypeError \<Rightarrow> Inl JsTypeError
      | Inl e \<Rightarrow> Inl (ArgError e)
      | Inr checked \<Rightarrow> Inr (JObj checked))"

text \<open>
  The loops of the two \<open>getByIds\<close>: \<open>obj.field = -obj.field\<close> on a parsed response.
\<close>

definition flip_field :: "string \<Rightarrow> jsval \<Rightarrow> js_error + jsval" where
  "flip_field field obj =
     (if convertible (js_get obj field) then Inr (js_set obj field (js_neg (js_get obj field)))
      else Inl JsTypeError)"

definition flip_pointLimit :: "jsval \<Rightarrow> js_error + jsval" where
  "flip_pointLimit category =
     (if \<not> nullish (js_get category ''pointLimit'') then flip_field ''pointLimit'' category
      else Inr category)"

definition RubricCategory_getByIds :: "env \<Rightarrow> jsval \<Rightarrow> jsval list io" where
  "RubricCategory_getByIds ev ids =
     io_bind (fetch' ev ''GET'' RUBRIC_CATEGORIES ids)
       (\<lambda>categories. io_lift (sequence (map flip_pointLimit categories)))"

definition RubricCategory_createAll :: "env \<Rightarrow> jsval list \<Rightarrow> jsval list io" where
  "RubricCategory_createAll ev data =
     io_bind (io_lift (sequence (map (\<lambda>category. lift_args (RubricCategory_checkArgs category False True)) data)))
       (\<lambda>creating. fetch' ev ''POST'' RUBRIC_CATEGORIES (JArr creating))"

definition RubricCategory_updateAll :: "env \<Rightarrow> jsval list \<Rightarrow> jsval list io" where
  "RubricCategory_updateAll ev data =
     io_bind (io_lift (sequence (map (\<lambda>obj.
         case lift_args (RubricCategory_checkArgs (js_get obj ''data'') True False) of
           Inl e \<Rightarrow> Inl e
         | Inr checked \<Rightarrow> Inr (JObj [(''id'', js_get obj ''id''), (''data'', checked)])) data)))
       (\<lambda>updating. fetch' ev ''PATCH'' RUBRIC_CATEGORIES (JArr updating))"

definition RubricCategory_deleteAll :: "env \<Rightarrow> jsval \<Rightarrow> unit io" where
  "RubricCategory_deleteAll ev ids =
     io_bind (fetch' ev ''DELETE'' RUBRIC_CATEGORIES ids) (\<lambda>_. io_return ())"

definition flip_pointDelta :: "jsval \<Rightarrow> js_error + jsval" where
  "flip_pointDelta comment = flip_field ''pointDelta'' comment"

definition RubricComment_getByIds :: "env \<Rightarrow> jsval \<Rightarrow> jsval list io" where
  "RubricComment_getByIds ev ids =
     io_bind (fetch' ev ''GET'' RUBRIC_COMMENTS ids)
       (\<lambda>comments. io_lift (sequence (map flip_pointDelta comments)))"

definition RubricComment_createAll :: "env \<Rightarrow> jsval list \<Rightarrow> jsval list io" where
  "RubricComment_createAll ev data =
     io_bind (io_lift (sequence (map (\<lambda>category. lift_args (RubricComment_checkArgs category False True)) data)))
       (\<lambda>creating. fetch' ev ''POST'' RUBRIC_COMMENTS (JArr creating))"

definition RubricComment_updateAll :: "env \<Rightarrow> jsval list \<Rightarrow> jsval list io" where
  "RubricComment_updateAll ev data =
     io_bind (io_lift (sequence (map (\<lambda>obj.
         case lift_args (RubricComment_checkArgs (js_get obj ''data'') True False) of
           Inl e \<Rightarrow> Inl e
         | Inr checked \<Rightarrow> Inr (JObj [(''id'', js_get obj ''id''), (''data'', checked)])) data)))
       (\<lambda>updating. fetch' ev ''PATCH'' RUBRIC_COMMENTS (JArr updating))"

definition RubricComment_deleteAll :: "env \<Rightarrow> jsval \<Rightarrow> unit io" where
  "RubricComment_deleteAll ev ids =
     io_bind (fetch' ev ''DELETE'' RUBRIC_COMMENTS ids) (\<lambda>_. io_return ())"

section \<open>Reconciliation engine\<close>

subsection \<open>The structural check of the rubric\<close>

text \<open>
  The inner \<open>comments.map\<close> of \<open>checkValidRubric_\<close>: each comment is checked in the
  default mode and its name must be new among all comments seen so far.
\<close>

fun check_comments :: "nat \<Rightarrow> jsval list \<Rightarrow> nat \<Rightarrow> jsval list \<Rightarrow> js_error + (props list \<times> jsval list)" where
  "check_comments index1 [] index2 seenComments = Inr ([], seenComments)"
| "check_comments index1 (commentArgs # rest) index2 seenComments =
     (case RubricComment_checkArgs commentArgs False False of
        Inl e \<Rightarrow> Inl (CommentError index1 index2 e)
      | Inr comment \<Rightarrow>
          (let commentName = prop_get comment ''name'' in
           if commentName \<in> set seenComments
           then Inl (CommentNotUnique index1 index2 (to_string commentName))
           else
             (case check_comments index1 rest (Suc index2) (seenComments @ [commentName]) of
                Inl e \<Rightarrow> Inl e
              | Inr (comments, seen) \<Rightarrow> Inr (comment # comments, seen))))"

text \<open>
  The state of the outer loop: \<open>givenCategories\<close>, \<open>givenComments\<close>, \<open>seenCategories\<close>,
  \<open>seenComments\<close>.
\<close>

type_synonym check_state = "props list \<times> (props list) dict \<times> jsval list \<times> jsval list"

fun check_categories :: "jsval list \<Rightarrow> nat \<Rightarrow> check_state \<Rightarrow> js_error + check_state" where
  "check_categories [] index1 state = Inr state"
| "check_categories (element # rest) index1 (givenCategories, givenComments, seenCategories, seenComments) =
     (if nullish element then Inl JsTypeError
      else
        (let comments = js_get element ''comments'';
             categoryArgs = JObj (AList.delete ''comments'' (own_props element))
         in case RubricCategory_checkArgs categoryArgs False False of
              Inl e \<Rightarrow> Inl (CategoryError index1 e)
            | Inr category \<Rightarrow>
                (let categoryName = prop_get category ''name'' in
                 if categoryName \<in> set seenCategories
                 then Inl (CategoryNotUnique index1 (to_string categoryName))
                 else if nullish comments then Inl (CommentsMissing index1)
                 else
                   (case comments of
                      JArr cs \<Rightarrow>
                        (case check_comments index1 cs 0 seenComments of
                           Inl e \<Rightarrow> Inl e
                         | Inr (checked, seen) \<Rightarrow>
                             check_categories rest (Suc index1)
                               (givenCategories @ [category],
                                dict_assign givenComments (to_string categoryName) checked,
                                seenCategories @ [categoryName], seen))
                    | _ \<Rightarrow> Inl (CommentsNotArray index1)))))"

definition checkValidRubric' :: "jsval \<Rightarrow> js_error + (props list \<times> (props list) dict)" where
  "checkValidRubric' rubric =
     (if nullish rubric then Inl RubricMissing
      else case rubric of
             JArr elements \<Rightarrow>
               (case check_categories elements 0 ([], [], [], []) of
                  Inl e \<Rightarrow> Inl e
                | Inr (givenCategories, givenComments, seenCategories, seenComments) \<Rightarrow>
                    Inr (givenCategories, givenComments))
           | _ \<Rightarrow> Inl RubricNotArray)"

subsection \<open>Helpers of the loops\<close>

text \<open>
  \<open>a !== b\<close>. Two objects or arrays that come from different places are never the
  same reference, and \<open>NaN\<close> differs from everything.
\<close>

definition strict_neq :: "jsval \<Rightarrow> jsval \<Rightarrow> bool" where
  "strict_neq a b =
     (case a of JArr _ \<Rightarrow> True | JObj _ \<Rightarrow> True | JNaN \<Rightarrow> True | _ \<Rightarrow> a \<noteq> b)"

text \<open>\<open>dict[key]\<close> read as a value.\<close>

definition dict_lookup :: "jsval dict \<Rightarrow> string \<Rightarrow> jsval" where
  "dict_lookup obj key = (case dict_get obj key of None \<Rightarrow> JUndefined | Some v \<Rightarrow> v)"

text \<open>The object literal \<open>{...obj, [parent]: parentId, sortKey: sortKey}\<close>.\<close>

definition with_parent :: "props \<Rightarrow> string \<Rightarrow> jsval \<Rightarrow> nat \<Rightarrow> jsval" where
  "with_parent obj parent parentId sortKey =
     JObj (prop_set (prop_set obj parent parentId) ''sortKey'' (JNum (of_nat sortKey)))"

text \<open>
  The loop \<open>for (const field of [...])\<close> that compares a given record with the
  existing one; the state is \<open>updating\<close> and \<open>update\<close>. \<open>None\<close> is the \<open>TypeError\<close> of
  \<open>hasProp_\<close>.
\<close>

fun diff_fields :: "string list \<Rightarrow> jsval \<Rightarrow> props \<Rightarrow> bool \<times> props \<Rightarrow> (bool \<times> props) option" where
  "diff_fields [] existing given acc = Some acc"
| "diff_fields (field # others) existing given (updating, update) =
     (case hasProp' given field of
        None \<Rightarrow> None
      | Some False \<Rightarrow> diff_fields others existing given (updating, update)
      | Some True \<Rightarrow>
          if strict_neq (js_get existing field) (prop_get given field)
          then diff_fields others existing given (True, prop_set update field (prop_get given field))
          else diff_fields others existing given (updating, update))"

text \<open>The checks \<open>if (existing.x !== x) { updating = true; update.x = x; }\<close>.\<close>

definition diff_value :: "string \<Rightarrow> jsval \<Rightarrow> jsval \<Rightarrow> bool \<times> props \<Rightarrow> bool \<times> props" where
  "diff_value field existing v acc =
     (if strict_neq (js_get existing field) v then (True, prop_set (snd acc) field v) else acc)"

definition patch_item :: "jsval \<Rightarrow> props \<Rightarrow> jsval" where
  "patch_item existing update = JObj [(''id'', js_get existing ''id''), (''data'', JObj update)]"

subsection \<open>Categories\<close>

text \<open>
  \<open>givenCategories.forEach((category, sortKey) => ...)\<close>. The state is the set
  \<open>existingCategories\<close> (in insertion order) and the two queues.
\<close>

type_synonym plan = "string list \<times> jsval list \<times> jsval list"

fun plan_categories :: "jsval \<Rightarrow> jsval dict \<Rightarrow> props list \<Rightarrow> nat \<Rightarrow> plan \<Rightarrow> js_error + plan" where
  "plan_categories assignmentId cpCategories [] sortKey acc = Inr acc"
| "plan_categories assignmentId cpCategories (category # rest) sortKey
       (existingCategories, createCategories, updateCategories) =
     (let name = prop_get category ''name'' in
      if name \<notin> JStr ` set existingCategories then
        plan_categories assignmentId cpCategories rest (Suc sortKey)
          (existingCategories,
           createCategories @ [with_parent category ''assignment'' assignmentId sortKey],
           updateCategories)
      else
        (let existing = dict_lookup cpCategories (to_string name)
         in case diff_fields [''pointLimit'', ''helpText'', ''atMostOnce''] existing category
                   (False, []) of
              None \<Rightarrow> Inl JsTypeError
            | Some changed \<Rightarrow>
                (let (updating, update) = diff_value ''sortKey'' existing (JNum (of_nat sortKey)) changed
                 in plan_categories assignmentId cpCategories rest (Suc sortKey)
                      (removeAll (to_string name) existingCategories,
                       createCategories,
                       if updating then updateCategories @ [patch_item existing update]
                       else updateCategories))))"

text \<open>The extra categories are sorted at the bottom: \<open>categories.forEach((name, i) => ...)\<close>.\<close>

fun sort_extra_categories :: "jsval dict \<Rightarrow> nat \<Rightarrow> string list \<Rightarrow> nat \<Rightarrow> jsval list" where
  "sort_extra_categories cpCategories offset [] i = []"
| "sort_extra_categories cpCategories offset (name # names) i =
     (let category = dict_lookup cpCategories name;
          sortKey = JNum (of_nat (offset + i))
      in (if strict_neq (js_get category ''sortKey'') sortKey
          then [JObj [(''id'', js_get category ''id''), (''data'', JObj [(''sortKey'', sortKey)])]]
          else [])
         @ sort_extra_categories cpCategories offset names (Suc i))"

text \<open>
  A value used as a property name, \<open>obj[v]\<close>, is converted to a string; the first
  of the values that is not convertible throws.
\<close>

definition keys_ok :: "jsval list \<Rightarrow> unit io" where
  "keys_ok vs = (if list_all convertible vs then io_return () else io_throw JsTypeError)"

definition names_of :: "jsval list \<Rightarrow> jsval list" where
  "names_of objs = map (\<lambda>obj. js_get obj ''name'') objs"

text \<open>\<open>results.forEach((category) => { finalCategories[category.name] = category.id; })\<close>.\<close>

definition merge_ids :: "jsval dict \<Rightarrow> jsval list \<Rightarrow> jsval dict" where
  "merge_ids finalCategories results =
     foldl (\<lambda>obj category. dict_assign obj (to_string (js_get category ''name'')) (js_get category ''id''))
       finalCategories results"

subsection \<open>Comments\<close>

text \<open>The inner loop \<open>comments.forEach((comment, sortKey) => ...)\<close> of one category.\<close>

fun plan_comments :: "jsval \<Rightarrow> jsval dict \<Rightarrow> props list \<Rightarrow> nat \<Rightarrow> plan \<Rightarrow> js_error + plan" where
  "plan_comments categoryId cpComments [] sortKey acc = Inr acc"
| "plan_comments categoryId cpComments (comment # rest) sortKey
       (existingComments, createComments, updateComments) =
     (let name = prop_get comment ''name'' in
      if name \<notin> JStr ` set existingComments then
        plan_comments categoryId cpComments rest (Suc sortKey)
          (existingComments,
           createComments @ [with_parent comment ''category'' categoryId sortKey],
           updateComments)
      else
        (let existing = dict_lookup cpComments (to_string name)
         in case diff_fields [''text'', ''pointDelta'', ''explanation'', ''instructionText'',
                              ''templateTextOn''] existing comment (False, []) of
              None \<Rightarrow> Inl JsTypeError
            | Some changed \<Rightarrow>
                (let (updating, update) =
                       diff_value ''sortKey'' existing (JNum (of_nat sortKey))
                         (diff_value ''category'' existing categoryId changed)
                 in plan_comments categoryId cpComments rest (Suc sortKey)
                      (removeAll (to_string name) existingComments,
                       createComments,
                       if updating then updateComments @ [patch_item existing update]
                       else updateComments))))"

text \<open>The outer loop \<open>Object.entries(givenComments).forEach(([categoryName, comments]) => ...)\<close>.\<close>

fun plan_all_comments ::
  "jsval dict \<Rightarrow> jsval dict \<Rightarrow> (string \<times> props list) list \<Rightarrow> plan \<Rightarrow> js_error + plan" where
  "plan_all_comments finalCategories cpComments [] acc = Inr acc"
| "plan_all_comments finalCategories cpComments ((categoryName, comments) # rest) acc =
     (case plan_comments (dict_lookup finalCategories categoryName) cpComments comments 0 acc of
        Inl e \<Rightarrow> Inl e
      | Inr acc' \<Rightarrow> plan_all_comments finalCategories cpComments rest acc')"

text \<open>
  \<open>sortKeys[comment.category]++\<close>: the value before the increment, as a number, and
  the table after it. The table holds numbers; a category that is not in it counts
  from \<open>NaN\<close>.
\<close>

definition post_increment :: "jsval dict \<Rightarrow> string \<Rightarrow> jsval \<times> jsval dict" where
  "post_increment sortKeys key =
     (case to_number (dict_lookup sortKeys key) of
        JNum q \<Rightarrow> (JNum q, dict_assign sortKeys key (round_double (q + 1)))
      | JInf b \<Rightarrow> (JInf b, dict_assign sortKeys key (JInf b))
      | _ \<Rightarrow> (JNaN, dict_assign sortKeys key JNaN))"

text \<open>The extra comments are sorted at the bottom of their categories.\<close>

fun sort_extra_comments :: "jsval dict \<Rightarrow> jsval dict \<Rightarrow> string list \<Rightarrow> jsval list" where
  "sort_extra_comments cpComments sortKeys [] = []"
| "sort_extra_comments cpComments sortKeys (name # names) =
     (let comment = dict_lookup cpComments name;
          (sortKey, sortKeys') = post_increment sortKeys (to_string (js_get comment ''category''))
      in (if strict_neq (js_get comment ''sortKey'') sortKey
          then [JObj [(''id'', js_get comment ''id''), (''data'', JObj [(''sortKey'', sortKey)])]]
          else [])
         @ sort_extra_comments cpComments sortKeys' names)"

text \<open>The elements of an array, for \<open>rubric.length\<close>.\<close>

definition array_elements :: "jsval \<Rightarrow> jsval list" where
  "array_elements v = (case v of JArr xs \<Rightarrow> xs | _ \<Rightarrow> [])"

text \<open>\<open>array.flatMap(f)\<close> flattens one level: a result that is not an array is kept whole.\<close>

definition flat1 :: "jsval \<Rightarrow> jsval list" where
  "flat1 v = (case v of JArr xs \<Rightarrow> xs | _ \<Rightarrow> [v])"

definition by_name :: "jsval list \<Rightarrow> jsval dict" where
  "by_name objs = fromEntries (map (\<lambda>obj. (to_string (js_get obj ''name''), obj)) objs)"

subsection \<open>The two modes\<close>

text \<open>\<open>array.map((x, i) => f x i)\<close>.\<close>

fun map_index :: "('a \<Rightarrow> nat \<Rightarrow> 'b) \<Rightarrow> 'a list \<Rightarrow> nat \<Rightarrow> 'b list" where
  "map_index f [] i = []"
| "map_index f (x # xs) i = f x i # map_index f xs (Suc i)"

text \<open>The branch \<open>if (wipe) { ... return; }\<close>.\<close>

definition wipe_rubric :: "env \<Rightarrow> jsval \<Rightarrow> jsval \<Rightarrow> props list \<Rightarrow> (props list) dict \<Rightarrow> unit io" where
  "wipe_rubric ev assignmentId assignment givenCategories givenComments =
     io_bind (RubricCategory_deleteAll ev (js_get assignment ''rubricCategories'')) (\<lambda>_.
     io_bind (RubricCategory_createAll ev
                (map_index (\<lambda>category sortKey. with_parent category ''assignment'' assignmentId sortKey)
                   givenCategories 0)) (\<lambda>createdCategories.
     io_bind (keys_ok (names_of createdCategories)) (\<lambda>_.
     let categories = fromEntries (map (\<lambda>category. (to_string (js_get category ''name''),
                                                       js_get category ''id'')) createdCategories)
     in io_bind (RubricComment_createAll ev
                   (concat (map (\<lambda>(categoryName, comments).
                       map_index (\<lambda>comment sortKey.
                           with_parent comment ''category'' (dict_lookup categories categoryName) sortKey)
                         comments 0)
                     (own_entries givenComments)))) (\<lambda>_.
     io_return ()))))"

text \<open>The categories of the incremental mode, up to \<open>RubricCategory.updateAll\<close>.\<close>

definition sync_categories ::
  "env \<Rightarrow> jsval \<Rightarrow> nat \<Rightarrow> bool \<Rightarrow> jsval dict \<Rightarrow> props list \<Rightarrow> jsval dict io" where
  "sync_categories ev assignmentId offset deleteExtra cpCategories givenCategories =
     (let finalCategories = fromEntries (map (\<lambda>category. (to_string (js_get category ''name''),
                                                           js_get category ''id''))
                                          (own_values cpCategories))
      in io_bind (io_lift (plan_categories assignmentId cpCategories givenCategories 0
                             (own_keys cpCategories, [], [])))
           (\<lambda>(existingCategories, createCategories, updateCategories).
         io_bind (RubricCategory_createAll ev createCategories) (\<lambda>created.
         io_bind (keys_ok (names_of created)) (\<lambda>_.
         let finalCategories1 = merge_ids finalCategories created in
         io_bind (if existingCategories \<noteq> [] \<and> deleteExtra
                  then RubricCategory_deleteAll ev
                         (JArr (map (\<lambda>name. js_get (dict_lookup cpCategories name) ''id'')
                                  existingCategories))
                  else io_return ()) (\<lambda>_.
         let updateCategories1 =
               (if existingCategories \<noteq> [] \<and> \<not> deleteExtra
                then updateCategories @ sort_extra_categories cpCategories offset existingCategories 0
                else updateCategories)
         in io_bind (RubricCategory_updateAll ev updateCategories1) (\<lambda>updated.
            io_bind (keys_ok (names_of updated)) (\<lambda>_.
            io_return (merge_ids finalCategories1 updated))))))))"

text \<open>
  The extra comments of the incremental mode that are kept: the table \<open>sortKeys\<close> is
  made under the ids of the final categories, and each extra comment is looked up
  under its own category.
\<close>

definition extra_comment_updates ::
  "jsval dict \<Rightarrow> jsval dict \<Rightarrow> (props list) dict \<Rightarrow> string list \<Rightarrow> jsval list io" where
  "extra_comment_updates finalCategories cpComments givenComments existingComments =
     (let ids = map (\<lambda>(categoryName, comments). dict_lookup finalCategories categoryName)
                  (own_entries givenComments)
      in io_bind (keys_ok ids) (\<lambda>_.
         let sortKeys = fromEntries (map (\<lambda>(categoryName, comments).
                            (to_string (dict_lookup finalCategories categoryName),
                             JNum (of_nat (length comments))))
                          (own_entries givenComments))
         in io_bind (keys_ok (map (\<lambda>name. js_get (dict_lookup cpComments name) ''category'')
                                existingComments)) (\<lambda>_.
            io_return (sort_extra_comments cpComments sortKeys existingComments))))"

text \<open>The comments of the incremental mode.\<close>

definition sync_comments ::
  "env \<Rightarrow> bool \<Rightarrow> jsval dict \<Rightarrow> jsval dict \<Rightarrow> (props list) dict \<Rightarrow> unit io" where
  "sync_comments ev deleteExtra finalCategories cpComments givenComments =
     io_bind (io_lift (plan_all_comments finalCategories cpComments (own_entries givenComments)
                         (own_keys cpComments, [], [])))
       (\<lambda>(existingComments, createComments, updateComments).
     io_bind (RubricComment_createAll ev createComments) (\<lambda>_.
     io_bind (if existingComments \<noteq> [] \<and> deleteExtra
              then RubricComment_deleteAll ev
                     (JArr (map (\<lambda>name. js_get (dict_lookup cpComments name) ''id'')
                              existingComments))
              else io_return ()) (\<lambda>_.
     io_bind (if existingComments \<noteq> [] \<and> \<not> deleteExtra
              then extra_comment_updates finalCategories cpComments givenComments existingComments
              else io_return []) (\<lambda>extra.
     io_bind (RubricComment_updateAll ev (updateComments @ extra)) (\<lambda>_. io_return ())))))"

text \<open>The incremental mode: fetch the existing rubric, then categories, then comments.\<close>

definition sync_rubric ::
  "env \<Rightarrow> jsval \<Rightarrow> jsval \<Rightarrow> nat \<Rightarrow> bool \<Rightarrow> props list \<Rightarrow> (props list) dict \<Rightarrow> unit io" where
  "sync_rubric ev assignmentId assignment offset deleteExtra givenCategories givenComments =
     io_bind (RubricCategory_getByIds ev (js_get assignment ''rubricCategories'')) (\<lambda>fetched.
     io_bind (keys_ok (names_of fetched)) (\<lambda>_.
     let cpCategories = by_name fetched in
     io_bind (RubricComment_getByIds ev
                (JArr (concat (map (\<lambda>category. flat1 (js_get category ''rubricComments''))
                                 (own_values cpCategories))))) (\<lambda>fetchedComments.
     io_bind (keys_ok (names_of fetchedComments)) (\<lambda>_.
     let cpComments = by_name fetchedComments in
     io_bind (sync_categories ev assignmentId offset deleteExtra cpCategories givenCategories)
       (\<lambda>finalCategories.
     sync_comments ev deleteExtra finalCategories cpComments givenComments)))))"

text \<open>
  \<open>importRubric_(assignmentId, rubric, wipe, deleteExtra)\<close>. The rubric is checked
  before anything is fetched; the confirmation is asked for only when the assignment
  has submissions.
\<close>

definition importRubric' :: "env \<Rightarrow> jsval \<Rightarrow> jsval \<Rightarrow> bool \<Rightarrow> bool \<Rightarrow> unit io" where
  "importRubric' ev assignmentId rubric wipe deleteExtra =
     (if nullish assignmentId then io_throw AssignmentIdMissing
      else case isNumber' assignmentId of
             None \<Rightarrow> io_throw JsTypeError
           | Some False \<Rightarrow> io_throw AssignmentIdInvalid
           | Some True \<Rightarrow>
        io_bind (io_lift (checkValidRubric' rubric)) (\<lambda>(givenCategories, givenComments).
        io_bind (Assignment_getById ev assignmentId) (\<lambda>assignment.
        io_bind (Assignment_getNumSubmissions ev assignmentId) (\<lambda>numSubmissions.
        if numSubmissions > 0 \<and> answer ev \<noteq> YES then io_return ()
        else if wipe then wipe_rubric ev assignmentId assignment givenCategories givenComments
        else sync_rubric ev assignmentId assignment (length (array_elements rubric)) deleteExtra
               givenCategories givenComments))))"

section \<open>Notions used to state the properties\<close>

text \<open>
  What is wrong with one field of a record taken on its own: a required field that is
  absent, or a present field that its validator rejects.
\<close>

definition field_failure :: "bool \<Rightarrow> props \<Rightarrow> string \<times> validator \<Rightarrow> reason option" where
  "field_failure required args fv =
     (case map_of args (fst fv) of
        None \<Rightarrow> (if required then Some Missing else None)
      | Some v \<Rightarrow> validate (snd fv) v)"

fun failing :: "bool \<Rightarrow> props \<Rightarrow> schema \<Rightarrow> (string \<times> reason) list" where
  "failing required args [] = []"
| "failing required args (fv # rest) =
     (case field_failure required args fv of
        None \<Rightarrow> failing required args rest
      | Some r \<Rightarrow> (fst fv, r) # failing required args rest)"

text \<open>All failing fields of a record, required fields first, in declared order.\<close>

definition failures :: "schema \<Rightarrow> schema \<Rightarrow> props \<Rightarrow> (string \<times> reason) list" where
  "failures required optional args = failing True args required @ failing False args optional"

text \<open>The fields an error names.\<close>

fun reported :: "arg_error \<Rightarrow> string list" where
  "reported (FieldError resource field r) = [field]"
| "reported e = []"

text \<open>A record that shadows the method \<open>hasOwnProperty\<close> with a field of its own.\<close>

definition shadows_hasOwnProperty :: "jsval \<Rightarrow> bool" where
  "shadows_hasOwnProperty args = (map_of (own_props args) ''hasOwnProperty'' \<noteq> None)"

text \<open>The fields the two kinds of record are restricted to.\<close>

definition category_fields :: "string set" where
  "category_fields = {''assignment'', ''name'', ''pointLimit'', ''helpText'', ''atMostOnce'', ''sortKey''}"

definition comment_fields :: "string set" where
  "comment_fields = {''category'', ''name'', ''pointDelta'', ''text'', ''explanation'',
                     ''instructionText'', ''templateTextOn'', ''sortKey''}"

text \<open>
  What is wrong with one item of a \<open>PATCH\<close> batch, as a function of its index: the item,
  its data or its id is missing, or its id cannot be put into the address.
\<close>

definition patch_defect :: "jsval \<Rightarrow> (nat \<Rightarrow> js_error) option" where
  "patch_defect item =
     (if nullish item then Some PatchMissing
      else if nullish (js_get item ''data'') then Some PatchMissingData
      else if nullish (js_get item ''id'') then Some PatchMissingId
      else if \<not> convertible (js_get item ''id'') then Some (\<lambda>index. JsTypeError)
      else None)"

text \<open>A world with an empty store in which nothing has been sent.\<close>

definition w_empty :: world where
  "w_empty = \<lparr>w_store = \<lparr>st_assignments = [], st_categories = [], st_comments = []\<rparr>, w_trace = []\<rparr>"

text \<open>
  The parts of one element of the rubric, and what makes an element valid on its own:
  its category fields and each of its comments pass the default-mode check, and its
  \<open>comments\<close> are an array.
\<close>

definition isOK :: "'e + 'a \<Rightarrow> bool" where
  "isOK r = (case r of Inl e \<Rightarrow> False | Inr x \<Rightarrow> True)"

definition category_args :: "jsval \<Rightarrow> jsval" where
  "category_args element = JObj (AList.delete ''comments'' (own_props element))"

definition comment_args :: "jsval \<Rightarrow> jsval list" where
  "comment_args element = array_elements (js_get element ''comments'')"

definition valid_category :: "jsval \<Rightarrow> bool" where
  "valid_category element =
     (\<not> nullish element \<and> isOK (RubricCategory_checkArgs (category_args element) False False))"

definition valid_comment :: "jsval \<Rightarrow> bool" where
  "valid_comment c = isOK (RubricComment_checkArgs c False False)"

definition valid_element :: "jsval \<Rightarrow> bool" where
  "valid_element element =
     (valid_category element
      \<and> (case js_get element ''comments'' of
            JArr cs \<Rightarrow> list_all valid_comment cs
          | _ \<Rightarrow> False))"

definition given_category :: "jsval \<Rightarrow> props" where
  "given_category element =
     (case RubricCategory_checkArgs (category_args element) False False of
        Inr category \<Rightarrow> category | Inl e \<Rightarrow> [])"

definition given_comment :: "jsval \<Rightarrow> props" where
  "given_comment c =
     (case RubricComment_checkArgs c False False of Inr comment \<Rightarrow> comment | Inl e \<Rightarrow> [])"

definition category_name :: "jsval \<Rightarrow> jsval" where
  "category_name element = js_get element ''name''"

definition comment_names :: "jsval \<Rightarrow> jsval list" where
  "comment_names element = map (\<lambda>c. js_get c ''name'') (comment_args element)"

text \<open>
  The names read before a position of the rubric: the names of the categories before
  category \<open>j\<close>, and the names of the comments before comment \<open>k\<close> of category \<open>j\<close>,
  which are all comments of the categories before \<open>j\<close> and the first \<open>k\<close> of its own.
\<close>

definition categories_before :: "jsval list \<Rightarrow> nat \<Rightarrow> jsval list" where
  "categories_before elements j = map category_name (take j elements)"

definition comments_before :: "jsval list \<Rightarrow> nat \<Rightarrow> nat \<Rightarrow> jsval list" where
  "comments_before elements j k =
     concat (map comment_names (take j elements)) @ take k (comment_names (elements ! j))"

text \<open>
  Category \<open>j\<close> is the first repeat of a name: everything read before it is valid and
  without a repeat, its own fields are valid, and its name is among the categories
  before it.
\<close>

definition first_repeat_category :: "jsval list \<Rightarrow> nat \<Rightarrow> bool" where
  "first_repeat_category elements j =
     (j < length elements
      \<and> list_all valid_element (take j elements)
      \<and> distinct (categories_before elements j)
      \<and> distinct (comments_before elements j 0)
      \<and> valid_category (elements ! j)
      \<and> category_name (elements ! j) \<in> set (categories_before elements j))"

text \<open>
  Comment \<open>k\<close> of category \<open>j\<close> is the first repeat of a name: everything read before it
  is valid and without a repeat, the comment itself is valid, and its name is among
  the comments before it.
\<close>

definition first_repeat_comment :: "jsval list \<Rightarrow> nat \<Rightarrow> nat \<Rightarrow> bool" where
  "first_repeat_comment elements j k =
     (j < length elements
      \<and> list_all valid_element (take j elements)
      \<and> distinct (categories_before elements (Suc j))
      \<and> valid_category (elements ! j)
      \<and> (case js_get (elements ! j) ''comments'' of
            JArr cs \<Rightarrow> k < length cs \<and> list_all valid_comment (take (Suc k) cs)
          | _ \<Rightarrow> False)
      \<and> distinct (comments_before elements j k)
      \<and> comment_names (elements ! j) ! k \<in> set (comments_before elements j k))"

text \<open>The example of the specification: two categories named \<open>Style\<close>.\<close>

definition style_twice :: "jsval list" where
  "style_twice = [JObj [(''name'', JStr ''Style''), (''comments'', JArr [])],
                  JObj [(''name'', JStr ''Style''), (''comments'', JArr [])]]"

text \<open>
  A rubric whose third category would repeat a name too, and whose last category is
  not valid; and one in which a comment of the second category repeats a comment of
  the first.
\<close>

definition style_thrice :: "jsval list" where
  "style_thrice = [JObj [(''name'', JStr ''Style''), (''comments'', JArr [])],
                   JObj [(''name'', JStr ''Style''), (''comments'', JArr [])],
                   JObj [(''name'', JStr ''Style''), (''comments'', JArr [])],
                   JObj [(''name'', JNum 3)]]"

definition comment_twice :: "jsval list" where
  "comment_twice =
     [JObj [(''name'', JStr ''Style''),
            (''comments'', JArr [JObj [(''name'', JStr ''tabs''), (''pointDelta'', JNum 1),
                                       (''text'', JStr ''t'')]])],
      JObj [(''name'', JStr ''Design''),
            (''comments'', JArr [JObj [(''name'', JStr ''long''), (''pointDelta'', JNum 1),
                                       (''text'', JStr ''t'')],
                                 JObj [(''name'', JStr ''tabs''), (''pointDelta'', JNum 2),
                                       (''text'', JStr ''u'')],
                                 JNull])]]"

text \<open>
  The example of the specification: one category \<open>A\<close> is stored, with one comment.
\<close>

definition w_one_category :: world where
  "w_one_category =
     \<lparr>w_store = \<lparr>st_assignments = [\<lparr>asg_id = 1, asg_name = ''hw1'', asg_submissions = []\<rparr>],
                 st_categories = [\<lparr>row_id = 5, row_fields = [(''assignment'', id_val 1),
                                     (''name'', JStr ''A''), (''sortKey'', JNum 0)]\<rparr>],
                 st_comments = [\<lparr>row_id = 9, row_fields = [(''category'', id_val 5),
                                     (''name'', JStr ''old''), (''pointDelta'', JNum 2),
                                     (''text'', JStr ''t''), (''sortKey'', JNum 0)]\<rparr>]\<rparr>,
      w_trace = []\<rparr>"

section \<open>Notions about the requests of a run\<close>

text \<open>
  The fields an update of an existing category may carry.
\<close>

definition category_update_fields :: "string set" where
  "category_update_fields = {''pointLimit'', ''helpText'', ''atMostOnce'', ''sortKey''}"

text \<open>
  The fields an update of an existing comment may carry.
\<close>

definition comment_update_fields :: "string set" where
  "comment_update_fields = {''text'', ''pointDelta'', ''explanation'', ''instructionText'',
                            ''templateTextOn'', ''category'', ''sortKey''}"

text \<open>
  \<open>t.startsWith(s)\<close>.
\<close>

definition starts_with :: "string \<Rightarrow> string \<Rightarrow> bool" where
  "starts_with s t = (take (length s) t = s)"

text \<open>
  The names of the own properties of a value.
\<close>

definition fields_of :: "jsval \<Rightarrow> string set" where
  "fields_of v = fst ` set (own_props v)"

text \<open>
  A request respects the frame when, if it is a \<open>PATCH\<close>, it has a body, and either it
  addresses a category and its body has category update fields only, or it addresses a
  comment and its body has comment update fields only.
\<close>

definition update_frame :: "request \<Rightarrow> bool" where
  "update_frame r =
     (req_method r = ''PATCH'' \<longrightarrow>
        (case req_payload r of
           None \<Rightarrow> False
         | Some p \<Rightarrow>
             (starts_with (BASE_ENDPOINT @ RUBRIC_CATEGORIES) (req_url r)
              \<and> fields_of p \<subseteq> category_update_fields)
           \<or> (starts_with (BASE_ENDPOINT @ RUBRIC_COMMENTS) (req_url r)
              \<and> fields_of p \<subseteq> comment_update_fields)))"

text \<open>
  The trace of \<open>w'\<close> is the trace of \<open>w\<close> followed by requests that satisfy \<open>P\<close>.
\<close>

definition extends_by :: "(request \<Rightarrow> bool) \<Rightarrow> world \<Rightarrow> world \<Rightarrow> bool" where
  "extends_by P w w' =
     (take (length (w_trace w)) (w_trace w') = w_trace w
      \<and> list_all P (drop (length (w_trace w)) (w_trace w')))"

text \<open>
  The fields that occur in the \<open>data\<close> of the queued updates.
\<close>

definition queued_fields :: "jsval list \<Rightarrow> string set" where
  "queued_fields updates = (\<Union>u\<in>set updates. fields_of (js_get u ''data''))"

text \<open>
  A desired rubric for the example store: category \<open>A\<close> with a point limit, and its
  comment with another point delta.
\<close>

definition rubric_A :: "jsval list" where
  "rubric_A = [JObj [(''name'', JStr ''A''), (''pointLimit'', JNum 3),
                     (''comments'', JArr [JObj [(''name'', JStr ''old''), (''pointDelta'', JNum 1),
                                                (''text'', JStr ''t'')]])]]"

text \<open>
  What the decoding of a fetched record is to do: the sign of \<open>pointLimit\<close> is flipped
  unless the limit is \<open>null\<close> (or absent), and the sign of \<open>pointDelta\<close> is flipped.
\<close>

definition decode_limit :: "jsval \<Rightarrow> jsval" where
  "decode_limit c =
     (if nullish (js_get c ''pointLimit'') then c
      else js_set c ''pointLimit'' (js_neg (js_get c ''pointLimit'')))"

definition decode_delta :: "jsval \<Rightarrow> jsval" where
  "decode_delta c = js_set c ''pointDelta'' (js_neg (js_get c ''pointDelta''))"

text \<open>A field of the record a step returns, when it returns one.\<close>

definition field_of :: "string \<Rightarrow> js_error + jsval \<Rightarrow> jsval option" where
  "field_of f r = (case r of Inr c \<Rightarrow> Some (js_get c f) | Inl e \<Rightarrow> None)"

text \<open>
  The example store after category \<open>A\<close> got the point limit \<open>3\<close> and its comment the
  point delta \<open>1\<close>: the store holds them with the other sign.
\<close>

definition w_scored :: world where
  "w_scored =
     \<lparr>w_store = \<lparr>st_assignments = [\<lparr>asg_id = 1, asg_name = ''hw1'', asg_submissions = []\<rparr>],
                 st_categories = [\<lparr>row_id = 5, row_fields = [(''assignment'', id_val 1),
                                     (''name'', JStr ''A''), (''sortKey'', JNum 0),
                                     (''pointLimit'', JNum (- 3))]\<rparr>],
                 st_comments = [\<lparr>row_id = 9, row_fields = [(''category'', id_val 5),
                                     (''name'', JStr ''old''), (''pointDelta'', JNum (- 1)),
                                     (''text'', JStr ''t''), (''sortKey'', JNum 0)]\<rparr>]\<rparr>,
      w_trace = []\<rparr>"

text \<open>The request for one row, for a configured key.\<close>

definition get_req :: "string \<Rightarrow> string \<Rightarrow> nat \<Rightarrow> request" where
  "get_req key collection i =
     \<lparr>req_method = ''GET'', req_url = item_url collection i, req_auth = ''Token '' @ key,
      req_payload = None\<rparr>"

text \<open>The updates a plan queues; a plan that throws queues none.\<close>

definition planned_updates :: "js_error + plan \<Rightarrow> jsval list" where
  "planned_updates r = (case r of Inr (existing, create, update) \<Rightarrow> update | Inl e \<Rightarrow> [])"

definition patch_req :: "string \<Rightarrow> string \<Rightarrow> nat \<Rightarrow> jsval \<Rightarrow> request" where
  "patch_req key collection i payload =
     \<lparr>req_method = ''PATCH'', req_url = item_url collection i, req_auth = ''Token '' @ key,
      req_payload = Some payload\<rparr>"

definition get_one :: "string \<Rightarrow> string \<Rightarrow> request" where
  "get_one key endpoint =
     \<lparr>req_method = ''GET'', req_url = BASE_ENDPOINT @ endpoint, req_auth = ''Token '' @ key,
      req_payload = None\<rparr>"

definition delete_req :: "string \<Rightarrow> string \<Rightarrow> nat \<Rightarrow> request" where
  "delete_req key collection i =
     \<lparr>req_method = ''DELETE'', req_url = item_url collection i, req_auth = ''Token '' @ key,
      req_payload = None\<rparr>"

definition post_req :: "string \<Rightarrow> string \<Rightarrow> jsval \<Rightarrow> request" where
  "post_req key collection payload =
     \<lparr>req_method = ''POST'', req_url = BASE_ENDPOINT @ collection, req_auth = ''Token '' @ key,
      req_payload = Some payload\<rparr>"

text \<open>
  A desired rubric for the example store with one category \<open>B\<close> and two comments, and
  one whose only category is named \<open>__proto__\<close> and has one comment.
\<close>

definition rubric_B :: "jsval list" where
  "rubric_B = [JObj [(''name'', JStr ''B''),
                     (''comments'', JArr [JObj [(''name'', JStr ''c0''), (''pointDelta'', JNum 1),
                                                (''text'', JStr ''first'')],
                                          JObj [(''name'', JStr ''c1''), (''pointDelta'', JNum 0),
                                                (''text'', JStr ''second'')]])]]"

definition rubric_proto :: "jsval list" where
  "rubric_proto = [JObj [(''name'', JStr ''__proto__''),
                         (''comments'', JArr [JObj [(''name'', JStr ''c0''), (''pointDelta'', JNum 1),
                                                    (''text'', JStr ''first'')]])]]"

text \<open>The example store after its only category was deleted, with its comment.\<close>

definition st_wiped :: store where
  "st_wiped = \<lparr>st_assignments = [\<lparr>asg_id = 1, asg_name = ''hw1'', asg_submissions = []\<rparr>],
               st_categories = [], st_comments = []\<rparr>"

section \<open>Basic facts about records and the argument checks\<close>

lemmas validator_defs =
  hasProp'_def prop_get_def prop_set_def validateNonEmpty_def validateBool_def validateNum_def
  validateInt_def validateNonNegInt_def isInteger_def trim_def is_space_def

lemmas category_check_defs =
  RubricCategory_checkArgs_def checkArgs'_def category_REQUIRED_def category_OPTIONAL_def

lemmas comment_check_defs =
  RubricComment_checkArgs_def checkArgs'_def comment_REQUIRED_def comment_OPTIONAL_def

lemma map_of_prop_set [simp]: "map_of (prop_set obj k v) = (map_of obj)(k \<mapsto> v)"
  by (simp add: prop_set_def update_conv')

lemma distinct_prop_set [simp]:
  "distinct (map fst obj) \<Longrightarrow> distinct (map fst (prop_set obj k v))"
  by (simp add: prop_set_def distinct_update)

lemma keys_prop_set [simp]: "fst ` set (prop_set obj k v) = insert k (fst ` set obj)"
  by (simp add: prop_set_def dom_update)

lemma hasProp_Some_True: "hasProp' args f = Some True \<Longrightarrow> \<exists>x. map_of args f = Some x"
  by (auto simp: hasProp'_def split: if_splits)

lemma hasProp_Some_False: "hasProp' args f = Some False \<Longrightarrow> map_of args f = None"
  by (auto simp: hasProp'_def split: if_splits)

lemma hasProp_plain:
  "map_of args ''hasOwnProperty'' = None \<Longrightarrow> hasProp' args f = Some (map_of args f \<noteq> None)"
  by (simp add: hasProp'_def)

lemma hasProp_shadowed:
  "map_of args ''hasOwnProperty'' \<noteq> None \<Longrightarrow> hasProp' args f = None"
  by (simp add: hasProp'_def)

lemma check_required_map:
  "check_required resource required args fixed = Inr fixed'
   \<Longrightarrow> map_of fixed' k = (if k \<in> fst ` set required then map_of args k else map_of fixed k)"
proof (induction required arbitrary: fixed)
  case Nil
  then show ?case by simp
next
  case (Cons fv rest)
  obtain f v where fv: "fv = (f, v)" by (cases fv)
  from Cons.prems fv have present: "hasProp' args f = Some True"
    and rec: "check_required resource rest args (prop_set fixed f (prop_get args f)) = Inr fixed'"
    by (auto split: option.splits bool.splits)
  from hasProp_Some_True [OF present] obtain x where x: "map_of args f = Some x" by blast
  then have "prop_get args f = x" by (simp add: prop_get_def)
  with Cons.IH [OF rec] fv x show ?case by auto
qed

lemma check_optional_map:
  "check_optional resource optional args fixed = Inr fixed'
   \<Longrightarrow> map_of fixed' k =
        (if k \<in> fst ` set optional \<and> map_of args k \<noteq> None then map_of args k else map_of fixed k)"
proof (induction optional arbitrary: fixed)
  case Nil
  then show ?case by simp
next
  case (Cons fv rest)
  obtain f v where fv: "fv = (f, v)" by (cases fv)
  from Cons.prems fv consider "hasProp' args f = Some False" | "hasProp' args f = Some True"
    by (auto split: option.splits bool.splits)
  then show ?case
  proof cases
    case 1
    with Cons.prems fv have rec: "check_optional resource rest args fixed = Inr fixed'" by simp
    from hasProp_Some_False [OF 1] Cons.IH [OF rec] fv show ?thesis by auto
  next
    case 2
    with Cons.prems fv
    have rec: "check_optional resource rest args (prop_set fixed f (prop_get args f)) = Inr fixed'"
      by (auto split: option.splits)
    from hasProp_Some_True [OF 2] obtain x where x: "map_of args f = Some x" by blast
    then have "prop_get args f = x" by (simp add: prop_get_def)
    with Cons.IH [OF rec] fv x show ?thesis by auto
  qed
qed

lemma check_required_distinct:
  "check_required resource required args fixed = Inr fixed' \<Longrightarrow> distinct (map fst fixed)
   \<Longrightarrow> distinct (map fst fixed')"
  by (induction required arbitrary: fixed) (auto split: option.splits bool.splits)

lemma check_optional_distinct:
  "check_optional resource optional args fixed = Inr fixed' \<Longrightarrow> distinct (map fst fixed)
   \<Longrightarrow> distinct (map fst fixed')"
  by (induction optional arbitrary: fixed) (auto split: option.splits bool.splits)

lemma check_required_plain:
  "check_required resource required args fixed = Inr fixed' \<Longrightarrow> required \<noteq> []
   \<Longrightarrow> map_of args ''hasOwnProperty'' = None"
  by (cases required) (auto simp: hasProp'_def split: option.splits bool.splits if_splits)

lemma check_optional_plain:
  "check_optional resource optional args fixed = Inr fixed' \<Longrightarrow> optional \<noteq> []
   \<Longrightarrow> map_of args ''hasOwnProperty'' = None"
  by (cases optional) (auto simp: hasProp'_def split: option.splits bool.splits if_splits)

lemma checkArgs_map:
  assumes "checkArgs' resource required optional args = Inr fixed"
  shows "map_of fixed k =
           (if k \<in> fst ` set (required @ optional) then map_of (own_props args) k else None)"
    and "distinct (map fst fixed)"
proof -
  from assms obtain fixed1
    where r: "check_required resource required (own_props args) [] = Inr fixed1"
      and o: "check_optional resource optional (own_props args) fixed1 = Inr fixed"
    by (auto simp: checkArgs'_def split: if_splits sum.splits)
  from check_required_map [OF r] check_optional_map [OF o]
  show "map_of fixed k =
           (if k \<in> fst ` set (required @ optional) then map_of (own_props args) k else None)"
    by auto
  from check_required_distinct [OF r] check_optional_distinct [OF o]
  show "distinct (map fst fixed)" by simp
qed

lemma checkArgs_plain:
  assumes "checkArgs' resource required optional args = Inr fixed" and "optional \<noteq> []"
  shows "map_of (own_props args) ''hasOwnProperty'' = None"
proof -
  from assms obtain fixed1
    where o: "check_optional resource optional (own_props args) fixed1 = Inr fixed"
    by (auto simp: checkArgs'_def split: if_splits sum.splits)
  from check_optional_plain [OF o assms(2)] show ?thesis .
qed

lemma flip_sign_Some:
  "flip_sign obj field = Some flipped
   \<longleftrightarrow> convertible (prop_get obj field)
       \<and> flipped = prop_set obj field (js_neg (prop_get obj field))"
  by (auto simp: flip_sign_def)

lemma RubricCategory_checkArgs_map:
  assumes "RubricCategory_checkArgs args updating creating = Inr checked"
  shows "map_of checked k =
     (if k \<in> category_fields \<and> (k = ''assignment'' \<longrightarrow> updating \<or> creating)
      then (if k = ''pointLimit'' \<and> (updating \<or> creating) \<and> \<not> nullish (js_get args ''pointLimit'')
            then Some (js_neg (js_get args ''pointLimit''))
            else map_of (own_props args) k)
      else None)"
    and "distinct (map fst checked)"
proof -
  let ?required = "if updating then [] else if \<not> creating then AList.delete ''assignment'' category_REQUIRED else category_REQUIRED"
  let ?optional = "if updating then category_OPTIONAL @ category_REQUIRED else category_OPTIONAL"
  from assms obtain fixed where c: "checkArgs' ''RubricCategory'' ?required ?optional args = Inr fixed"
    by (auto simp: RubricCategory_checkArgs_def Let_def split: sum.splits)
  have keys: "fst ` set (?required @ ?optional) = {k \<in> category_fields. k = ''assignment'' \<longrightarrow> updating \<or> creating}"
    by (auto simp: category_REQUIRED_def category_OPTIONAL_def category_fields_def)
  note m = checkArgs_map(1) [OF c, unfolded keys]
  have plain: "map_of fixed ''hasOwnProperty'' = None"
    using m [of "''hasOwnProperty''"] by (simp add: category_fields_def)
  have hp: "hasProp' fixed ''pointLimit'' = Some (map_of fixed ''pointLimit'' \<noteq> None)"
    using plain by (rule hasProp_plain)
  have pl: "prop_get fixed ''pointLimit'' = js_get args ''pointLimit''"
    using m [of "''pointLimit''"] by (simp add: prop_get_def js_get_def category_fields_def)
  have pres: "map_of fixed ''pointLimit'' \<noteq> None \<or> nullish (js_get args ''pointLimit'')"
    using m [of "''pointLimit''"]
    by (auto simp: prop_get_def js_get_def category_fields_def split: option.splits)
  from assms c hp pl pres
  have checked: "checked = (if (updating \<or> creating) \<and> \<not> nullish (js_get args ''pointLimit'')
             then prop_set fixed ''pointLimit'' (js_neg (js_get args ''pointLimit'')) else fixed)"
    by (auto simp: RubricCategory_checkArgs_def Let_def flip_sign_def split: if_splits option.splits)
  show "map_of checked k =
     (if k \<in> category_fields \<and> (k = ''assignment'' \<longrightarrow> updating \<or> creating)
      then (if k = ''pointLimit'' \<and> (updating \<or> creating) \<and> \<not> nullish (js_get args ''pointLimit'')
            then Some (js_neg (js_get args ''pointLimit''))
            else map_of (own_props args) k)
      else None)"
    using m [of k] by (auto simp: checked category_fields_def)
  show "distinct (map fst checked)"
    using checkArgs_map(2) [OF c] by (simp add: checked)
qed

lemma RubricComment_checkArgs_map:
  assumes "RubricComment_checkArgs args updating creating = Inr checked"
  shows "map_of checked k =
     (if k \<in> comment_fields \<and> (k = ''category'' \<longrightarrow> updating \<or> creating)
      then (if k = ''pointDelta'' \<and> (updating \<or> creating) \<and> map_of (own_props args) ''pointDelta'' \<noteq> None
            then Some (js_neg (js_get args ''pointDelta''))
            else map_of (own_props args) k)
      else None)"
    and "distinct (map fst checked)"
proof -
  let ?required = "if updating then [] else if \<not> creating then AList.delete ''category'' comment_REQUIRED else comment_REQUIRED"
  let ?optional = "if updating then comment_OPTIONAL @ comment_REQUIRED else comment_OPTIONAL"
  from assms obtain fixed where c: "checkArgs' ''RubricComment'' ?required ?optional args = Inr fixed"
    by (auto simp: RubricComment_checkArgs_def Let_def split: sum.splits)
  have keys: "fst ` set (?required @ ?optional) = {k \<in> comment_fields. k = ''category'' \<longrightarrow> updating \<or> creating}"
    by (auto simp: comment_REQUIRED_def comment_OPTIONAL_def comment_fields_def)
  note m = checkArgs_map(1) [OF c, unfolded keys]
  have plain: "map_of fixed ''hasOwnProperty'' = None"
    using m [of "''hasOwnProperty''"] by (simp add: comment_fields_def)
  have hp: "hasProp' fixed ''pointDelta'' = Some (map_of fixed ''pointDelta'' \<noteq> None)"
    using plain by (rule hasProp_plain)
  have pl: "prop_get fixed ''pointDelta'' = js_get args ''pointDelta''"
    using m [of "''pointDelta''"] by (simp add: prop_get_def js_get_def comment_fields_def)
  have pres: "(map_of fixed ''pointDelta'' \<noteq> None) = (map_of (own_props args) ''pointDelta'' \<noteq> None)"
    using m [of "''pointDelta''"] by (simp add: comment_fields_def)
  from assms c hp pl pres
  have checked: "checked = (if (updating \<or> creating) \<and> map_of (own_props args) ''pointDelta'' \<noteq> None
             then prop_set fixed ''pointDelta'' (js_neg (js_get args ''pointDelta'')) else fixed)"
    by (auto simp: RubricComment_checkArgs_def Let_def flip_sign_def split: if_splits option.splits)
  show "map_of checked k =
     (if k \<in> comment_fields \<and> (k = ''category'' \<longrightarrow> updating \<or> creating)
      then (if k = ''pointDelta'' \<and> (updating \<or> creating) \<and> map_of (own_props args) ''pointDelta'' \<noteq> None
            then Some (js_neg (js_get args ''pointDelta''))
            else map_of (own_props args) k)
      else None)"
    using m [of k] by (auto simp: checked comment_fields_def)
  show "distinct (map fst checked)"
    using checkArgs_map(2) [OF c] by (simp add: checked)
qed

lemma map_of_wire_props:
  "distinct (map fst kvs) \<Longrightarrow>
   map_of (own_props (wire (JObj kvs))) k =
     (case map_of kvs k of None \<Rightarrow> None
      | Some v \<Rightarrow> if v = JUndefined then None else Some (wire v))"
proof (induction kvs)
  case Nil
  then show ?case by simp
next
  case (Cons kv kvs)
  then have "map_of kvs (fst kv) = None"
    by (metis distinct.simps(2) list.simps(9) map_of_eq_None_iff set_map)
  with Cons show ?case by (cases kv) (auto split: option.splits)
qed

lemma js_neg_num [simp]: "js_neg (JNum q) = JNum (- q)"
  by (simp add: js_neg_def)

lemma js_neg_inf [simp]: "js_neg (JInf b) = JInf (\<not> b)"
  by (simp add: js_neg_def)

lemma js_get_js_set:
  "js_get (js_set (JObj kvs) k x) k' = (if k' = k then x else prop_get kvs k')"
  by (simp add: js_get_def js_set_def prop_get_def)

subsection \<open>The first failing field\<close>

lemma check_optional_first:
  "map_of args ''hasOwnProperty'' = None \<Longrightarrow> failing False args optional = (f, r) # rest
   \<Longrightarrow> check_optional resource optional args fixed = Inl (FieldError resource f r)"
  by (induction optional arbitrary: fixed)
     (auto simp: field_failure_def hasProp'_def prop_get_def split: option.splits if_splits)

lemma check_optional_none:
  "map_of args ''hasOwnProperty'' = None \<Longrightarrow> failing False args optional = []
   \<Longrightarrow> \<exists>fixed'. check_optional resource optional args fixed = Inr fixed'"
  by (induction optional arbitrary: fixed)
     (auto simp: field_failure_def hasProp'_def prop_get_def split: option.splits if_splits)

lemma check_required_first:
  "map_of args ''hasOwnProperty'' = None \<Longrightarrow> failing True args required = (f, r) # rest
   \<Longrightarrow> check_required resource required args fixed = Inl (FieldError resource f r)"
  by (induction required arbitrary: fixed)
     (auto simp: field_failure_def hasProp'_def prop_get_def split: option.splits if_splits)

lemma check_required_none:
  "map_of args ''hasOwnProperty'' = None \<Longrightarrow> failing True args required = []
   \<Longrightarrow> \<exists>fixed'. check_required resource required args fixed = Inr fixed'"
  by (induction required arbitrary: fixed)
     (auto simp: field_failure_def hasProp'_def prop_get_def split: option.splits if_splits)

lemma check_required_shadowed:
  "map_of args ''hasOwnProperty'' \<noteq> None \<Longrightarrow> required \<noteq> []
   \<Longrightarrow> check_required resource required args fixed = Inl ThrownTypeError"
  by (cases required) (auto simp: hasProp'_def)

lemma check_optional_shadowed:
  "map_of args ''hasOwnProperty'' \<noteq> None \<Longrightarrow> optional \<noteq> []
   \<Longrightarrow> check_optional resource optional args fixed = Inl ThrownTypeError"
  by (cases optional) (auto simp: hasProp'_def)

section \<open>Field validator: which failure is reported\<close>

text \<open>
  C8, as amended. A record with failing fields is rejected with one error, and that
  error names the first failing field only (required fields in declared order, then
  optional fields in declared order) with the resource kind and the reason. The other
  failing fields are not reported. A record that has a field of its own named
  \<open>hasOwnProperty\<close> is rejected with the \<open>TypeError\<close> of the first presence test
  instead, which names no field.
\<close>

theorem checkArgs_reports_first_failure:
  assumes "\<not> nullish args"
    and "failures required optional (own_props args) = (f, r) # rest"
  shows "checkArgs' resource required optional args =
           (if shadows_hasOwnProperty args then Inl ThrownTypeError
            else Inl (FieldError resource f r))"
proof (cases "shadows_hasOwnProperty args")
  case True
  then have s: "map_of (own_props args) ''hasOwnProperty'' \<noteq> None"
    by (simp add: shadows_hasOwnProperty_def)
  show ?thesis
  proof (cases "required = []")
    case False
    from check_required_shadowed [OF s False] assms(1) True show ?thesis
      by (simp add: checkArgs'_def)
  next
    case r: True
    with assms(2) have "optional \<noteq> []" by (auto simp: failures_def)
    from check_optional_shadowed [OF s this] assms(1) True r show ?thesis
      by (simp add: checkArgs'_def)
  qed
next
  case False
  then have p: "map_of (own_props args) ''hasOwnProperty'' = None"
    by (simp add: shadows_hasOwnProperty_def)
  show ?thesis
  proof (cases "failing True (own_props args) required")
    case Nil
    then obtain fixed1 where f1: "check_required resource required (own_props args) [] = Inr fixed1"
      using check_required_none [OF p] by blast
    from Nil assms(2) have "failing False (own_props args) optional = (f, r) # rest"
      by (simp add: failures_def)
    then have "check_optional resource optional (own_props args) fixed1 = Inl (FieldError resource f r)"
      by (rule check_optional_first [OF p])
    with f1 assms(1) False show ?thesis by (simp add: checkArgs'_def)
  next
    case (Cons q qs)
    with assms(2) have "q = (f, r)" by (simp add: failures_def)
    with Cons have "check_required resource required (own_props args) [] = Inl (FieldError resource f r)"
      using check_required_first [OF p] by blast
    with assms(1) False show ?thesis by (simp add: checkArgs'_def)
  qed
qed

theorem checkArgs_reports_first_failure_witness:
  "failures [(''name'', ValidateNonEmpty)] category_OPTIONAL
        (own_props (JObj [(''name'', JStr [CHR 0xA0]), (''atMostOnce'', JNum 3)]))
       = [(''name'', Invalid), (''atMostOnce'', NotABoolean)]
   \<and> checkArgs' ''RubricCategory'' [(''name'', ValidateNonEmpty)] category_OPTIONAL
        (JObj [(''name'', JStr [CHR 0xA0]), (''atMostOnce'', JNum 3)])
       = Inl (FieldError ''RubricCategory'' ''name'' Invalid)
   \<and> failures [(''name'', ValidateNonEmpty)] category_OPTIONAL
        (own_props (JObj [(''hasOwnProperty'', JNum 1), (''name'', JStr '''')]))
       = [(''name'', Invalid)]
   \<and> checkArgs' ''RubricCategory'' [(''name'', ValidateNonEmpty)] category_OPTIONAL
        (JObj [(''hasOwnProperty'', JNum 1), (''name'', JStr '''')])
       = Inl ThrownTypeError"
proof -
  have n: "\<not> nullish (JObj [(''name'', JStr [CHR 0xA0]), (''atMostOnce'', JNum 3)])" by simp
  have f: "failures [(''name'', ValidateNonEmpty)] category_OPTIONAL
        (own_props (JObj [(''name'', JStr [CHR 0xA0]), (''atMostOnce'', JNum 3)]))
       = [(''name'', Invalid), (''atMostOnce'', NotABoolean)]"
    by (simp add: failures_def field_failure_def category_OPTIONAL_def validator_defs)
  have n2: "\<not> nullish (JObj [(''hasOwnProperty'', JNum 1), (''name'', JStr '''')])" by simp
  have f2: "failures [(''name'', ValidateNonEmpty)] category_OPTIONAL
        (own_props (JObj [(''hasOwnProperty'', JNum 1), (''name'', JStr '''')]))
       = [(''name'', Invalid)]"
    by (simp add: failures_def field_failure_def category_OPTIONAL_def validator_defs)
  from checkArgs_reports_first_failure [OF n f, of "''RubricCategory''"]
       checkArgs_reports_first_failure [OF n2 f2, of "''RubricCategory''"] f f2
  show ?thesis by (simp add: shadows_hasOwnProperty_def)
qed

text \<open>
  C8 as stated fails: a category whose \<open>name\<close> is blank and whose \<open>atMostOnce\<close> is
  not a boolean has two failing fields, and the error names \<open>name\<close> alone.
\<close>

theorem checkArgs_aggregation_counterexample:
  "RubricCategory_checkArgs (JObj [(''name'', JStr ''''), (''atMostOnce'', JNum 3)]) False False
     = Inl (FieldError ''RubricCategory'' ''name'' Invalid)
   \<and> map fst (failures [(''name'', ValidateNonEmpty)] category_OPTIONAL
                 [(''name'', JStr ''''), (''atMostOnce'', JNum 3)]) = [''name'', ''atMostOnce'']
   \<and> ''atMostOnce'' \<notin> set (reported (FieldError ''RubricCategory'' ''name'' Invalid))"
  by (simp add: failures_def field_failure_def category_check_defs validator_defs)

lemma sequence_map_Inr: "sequence (map (\<lambda>x. Inr (f x)) xs) = Inr (map f xs)"
  by (induction xs) simp_all

lemma flip_pointLimit_decode:
  "convertible (js_get c ''pointLimit'') \<Longrightarrow> flip_pointLimit c = Inr (decode_limit c)"
  by (simp add: flip_pointLimit_def flip_field_def decode_limit_def)

lemma flip_pointDelta_decode:
  "convertible (js_get c ''pointDelta'') \<Longrightarrow> flip_pointDelta c = Inr (decode_delta c)"
  by (simp add: flip_pointDelta_def flip_field_def decode_delta_def)

lemma sequence_flip_pointLimit:
  "list_all (\<lambda>c. convertible (js_get c ''pointLimit'')) cs
   \<Longrightarrow> sequence (map flip_pointLimit cs) = Inr (map decode_limit cs)"
  by (induction cs) (simp_all add: flip_pointLimit_decode)

lemma sequence_flip_pointDelta:
  "list_all (\<lambda>c. convertible (js_get c ''pointDelta'')) cs
   \<Longrightarrow> sequence (map flip_pointDelta cs) = Inr (map decode_delta cs)"
  by (induction cs) (simp_all add: flip_pointDelta_decode)

lemma js_neg_samples:
  "js_neg (JStr ''1e2'') = JNum (- 100)"
  "js_neg (JStr ''0x10'') = JNum (- 16)"
  "js_neg (JBool True) = JNum (- 1)"
  "js_neg JNull = JNum 0"
  by code_simp+

section \<open>The sign of point values\<close>

text \<open>
  C9, as amended. \<open>checkArgs\<close> negates \<open>pointLimit\<close> (unless it is \<open>null\<close> or absent)
  and \<open>pointDelta\<close> (when present) exactly when it is called for creating or updating,
  and leaves them as they are in the default mode. The negation is that of the
  language: a number changes its sign, also an infinite one, and any other value is
  converted to a number first. \<open>getByIds\<close> negates \<open>pointLimit\<close> (unless \<open>null\<close>) and
  \<open>pointDelta\<close> of every fetched record and leaves the rest of the record alone. A
  finite number (or a \<open>null\<close> limit) that is encoded for the wire and decoded again is
  unchanged.
\<close>

theorem sign_flip_codec:
  assumes "RubricCategory_checkArgs category updating creating = Inr checked"
    and "RubricComment_checkArgs comment updating creating = Inr cchecked"
  shows "prop_get checked ''pointLimit'' =
           (if (updating \<or> creating) \<and> \<not> nullish (js_get category ''pointLimit'')
            then js_neg (js_get category ''pointLimit'') else js_get category ''pointLimit'')
       \<and> prop_get cchecked ''pointDelta'' =
           (if (updating \<or> creating) \<and> map_of (own_props comment) ''pointDelta'' \<noteq> None
            then js_neg (js_get comment ''pointDelta'') else js_get comment ''pointDelta'')
       \<and> js_neg (JNum q) = JNum (- q) \<and> js_neg (JInf b) = JInf (\<not> b)
       \<and> js_neg (JStr ''1e2'') = JNum (- 100) \<and> js_neg (JStr ''0x10'') = JNum (- 16)
       \<and> js_neg (JBool True) = JNum (- 1) \<and> js_neg JNull = JNum 0
       \<and> (fetch' ev ''GET'' RUBRIC_CATEGORIES ids w = (Inr fetched, w')
            \<and> list_all (\<lambda>c. convertible (js_get c ''pointLimit'')) fetched \<longrightarrow>
            RubricCategory_getByIds ev ids w = (Inr (map decode_limit fetched), w'))
       \<and> (fetch' ev ''GET'' RUBRIC_COMMENTS cids cw = (Inr cfetched, cw')
            \<and> list_all (\<lambda>c. convertible (js_get c ''pointDelta'')) cfetched \<longrightarrow>
            RubricComment_getByIds ev cids cw = (Inr (map decode_delta cfetched), cw'))
       \<and> js_get (decode_limit (JObj row)) field =
           (if field = ''pointLimit'' \<and> \<not> nullish (prop_get row ''pointLimit'')
            then js_neg (prop_get row ''pointLimit'') else prop_get row field)
       \<and> js_get (decode_delta (JObj row)) field =
           (if field = ''pointDelta'' then js_neg (prop_get row ''pointDelta'') else prop_get row field)
       \<and> ((updating \<or> creating) \<and> js_get category ''pointLimit'' \<in> insert JNull (range JNum) \<longrightarrow>
            field_of ''pointLimit'' (flip_pointLimit (wire (JObj checked)))
              = Some (js_get category ''pointLimit''))
       \<and> ((updating \<or> creating) \<and> js_get comment ''pointDelta'' \<in> range JNum \<longrightarrow>
            field_of ''pointDelta'' (flip_pointDelta (wire (JObj cchecked)))
              = Some (js_get comment ''pointDelta''))"
proof (intro conjI impI)
  note cm = RubricCategory_checkArgs_map [OF assms(1)]
  note km = RubricComment_checkArgs_map [OF assms(2)]
  show "prop_get checked ''pointLimit'' =
           (if (updating \<or> creating) \<and> \<not> nullish (js_get category ''pointLimit'')
            then js_neg (js_get category ''pointLimit'') else js_get category ''pointLimit'')"
    using cm(1) [of "''pointLimit''"]
    by (simp add: prop_get_def js_get_def category_fields_def)
  show "prop_get cchecked ''pointDelta'' =
           (if (updating \<or> creating) \<and> map_of (own_props comment) ''pointDelta'' \<noteq> None
            then js_neg (js_get comment ''pointDelta'') else js_get comment ''pointDelta'')"
    using km(1) [of "''pointDelta''"]
    by (simp add: prop_get_def js_get_def comment_fields_def)
  show "js_neg (JNum q) = JNum (- q)" by (simp add: js_neg_def)
  show "js_neg (JInf b) = JInf (\<not> b)" by (simp add: js_neg_def)
  show "js_neg (JStr ''1e2'') = JNum (- 100)" by (rule js_neg_samples)
  show "js_neg (JStr ''0x10'') = JNum (- 16)" by (rule js_neg_samples)
  show "js_neg (JBool True) = JNum (- 1)" by (rule js_neg_samples)
  show "js_neg JNull = JNum 0" by (rule js_neg_samples)
  {
    assume a: "fetch' ev ''GET'' RUBRIC_CATEGORIES ids w = (Inr fetched, w')
               \<and> list_all (\<lambda>c. convertible (js_get c ''pointLimit'')) fetched"
    then show "RubricCategory_getByIds ev ids w = (Inr (map decode_limit fetched), w')"
      by (simp add: RubricCategory_getByIds_def io_bind_def io_lift_def sequence_flip_pointLimit)
  }
  {
    assume a: "fetch' ev ''GET'' RUBRIC_COMMENTS cids cw = (Inr cfetched, cw')
               \<and> list_all (\<lambda>c. convertible (js_get c ''pointDelta'')) cfetched"
    then show "RubricComment_getByIds ev cids cw = (Inr (map decode_delta cfetched), cw')"
      by (simp add: RubricComment_getByIds_def io_bind_def io_lift_def sequence_flip_pointDelta)
  }
  show "js_get (decode_limit (JObj row)) field =
           (if field = ''pointLimit'' \<and> \<not> nullish (prop_get row ''pointLimit'')
            then js_neg (prop_get row ''pointLimit'') else prop_get row field)"
    by (simp add: decode_limit_def js_get_js_set) (simp add: js_get_def)
  show "js_get (decode_delta (JObj row)) field =
           (if field = ''pointDelta'' then js_neg (prop_get row ''pointDelta'') else prop_get row field)"
    by (simp add: decode_delta_def js_get_js_set) (simp add: js_get_def)
  {
    assume a: "(updating \<or> creating) \<and> js_get category ''pointLimit'' \<in> insert JNull (range JNum)"
    obtain kvs where kvs: "wire (JObj checked) = JObj kvs" by simp
    have look: "map_of kvs ''pointLimit'' =
        (case map_of checked ''pointLimit'' of None \<Rightarrow> None
         | Some v \<Rightarrow> if v = JUndefined then None else Some (wire v))"
      using map_of_wire_props [OF cm(2), of "''pointLimit''"] kvs by simp
    from a consider "js_get category ''pointLimit'' = JNull"
      | q where "js_get category ''pointLimit'' = JNum q" by auto
    then show "field_of ''pointLimit'' (flip_pointLimit (wire (JObj checked)))
                 = Some (js_get category ''pointLimit'')"
    proof cases
      case 1
      with cm(1) [of "''pointLimit''"] have "map_of checked ''pointLimit'' = Some JNull"
        by (auto simp: js_get_def prop_get_def category_fields_def split: option.splits)
      with look 1 show ?thesis
        unfolding kvs by (simp add: flip_pointLimit_def field_of_def js_get_def prop_get_def)
    next
      case 2
      with cm(1) [of "''pointLimit''"] a have "map_of checked ''pointLimit'' = Some (JNum (- q))"
        by (auto simp: category_fields_def)
      with look 2 show ?thesis
        unfolding kvs
        by (simp add: flip_pointLimit_def flip_field_def field_of_def js_get_def prop_get_def js_set_def)
    qed
  }
  {
    assume a: "(updating \<or> creating) \<and> js_get comment ''pointDelta'' \<in> range JNum"
    then obtain q where q: "js_get comment ''pointDelta'' = JNum q" by auto
    obtain kvs where kvs: "wire (JObj cchecked) = JObj kvs" by simp
    have look: "map_of kvs ''pointDelta'' =
        (case map_of cchecked ''pointDelta'' of None \<Rightarrow> None
         | Some v \<Rightarrow> if v = JUndefined then None else Some (wire v))"
      using map_of_wire_props [OF km(2), of "''pointDelta''"] kvs by simp
    from q have "map_of (own_props comment) ''pointDelta'' \<noteq> None"
      by (auto simp: js_get_def prop_get_def split: option.splits)
    with km(1) [of "''pointDelta''"] a q have "map_of cchecked ''pointDelta'' = Some (JNum (- q))"
      by (auto simp: comment_fields_def)
    with look q show "field_of ''pointDelta'' (flip_pointDelta (wire (JObj cchecked)))
                        = Some (js_get comment ''pointDelta'')"
      unfolding kvs
      by (simp add: flip_pointDelta_def flip_field_def field_of_def js_get_def prop_get_def js_set_def)
  }
qed

theorem sign_flip_codec_witness:
  "RubricCategory_checkArgs
      (JObj [(''assignment'', JNum 7), (''name'', JStr ''A''), (''pointLimit'', JNum 5)]) False True
     = Inr [(''assignment'', JNum 7), (''name'', JStr ''A''), (''pointLimit'', JNum (- 5))]
   \<and> RubricComment_checkArgs
      (JObj [(''category'', JNum 3), (''name'', JStr ''x''), (''pointDelta'', JNum (- 2)),
             (''text'', JStr ''t'')]) False True
     = Inr [(''category'', JNum 3), (''name'', JStr ''x''), (''pointDelta'', JNum 2),
            (''text'', JStr ''t'')]
   \<and> fetch' \<lparr>api_key = Some ''k'', answer = 0\<rparr> ''GET'' RUBRIC_CATEGORIES (JArr [JNum 5]) w_scored
     = (Inr [JObj [(''assignment'', JNum 1), (''name'', JStr ''A''), (''sortKey'', JNum 0),
                   (''pointLimit'', JNum (- 3)), (''id'', JNum 5),
                   (''rubricComments'', JArr [JNum 9])]],
        w_scored\<lparr>w_trace := [get_req ''k'' RUBRIC_CATEGORIES 5]\<rparr>)
   \<and> RubricCategory_getByIds \<lparr>api_key = Some ''k'', answer = 0\<rparr> (JArr [JNum 5]) w_scored
     = (Inr [JObj [(''assignment'', JNum 1), (''name'', JStr ''A''), (''sortKey'', JNum 0),
                   (''pointLimit'', JNum 3), (''id'', JNum 5),
                   (''rubricComments'', JArr [JNum 9])]],
        w_scored\<lparr>w_trace := [get_req ''k'' RUBRIC_CATEGORIES 5]\<rparr>)
   \<and> fetch' \<lparr>api_key = Some ''k'', answer = 0\<rparr> ''GET'' RUBRIC_COMMENTS (JArr [JNum 9]) w_scored
     = (Inr [JObj [(''category'', JNum 5), (''name'', JStr ''old''), (''pointDelta'', JNum (- 1)),
                   (''text'', JStr ''t''), (''sortKey'', JNum 0), (''id'', JNum 9)]],
        w_scored\<lparr>w_trace := [get_req ''k'' RUBRIC_COMMENTS 9]\<rparr>)
   \<and> RubricComment_getByIds \<lparr>api_key = Some ''k'', answer = 0\<rparr> (JArr [JNum 9]) w_scored
     = (Inr [JObj [(''category'', JNum 5), (''name'', JStr ''old''), (''pointDelta'', JNum 1),
                   (''text'', JStr ''t''), (''sortKey'', JNum 0), (''id'', JNum 9)]],
        w_scored\<lparr>w_trace := [get_req ''k'' RUBRIC_COMMENTS 9]\<rparr>)
   \<and> field_of ''pointLimit'' (flip_pointLimit (wire (JObj
         [(''assignment'', JNum 7), (''name'', JStr ''A''), (''pointLimit'', JNum (- 5))])))
       = Some (JNum 5)
   \<and> field_of ''pointDelta'' (flip_pointDelta (wire (JObj
         [(''category'', JNum 3), (''name'', JStr ''x''), (''pointDelta'', JNum 2),
          (''text'', JStr ''t'')]))) = Some (JNum (- 2))"
proof -
  let ?ev = "\<lparr>api_key = Some ''k'', answer = 0\<rparr>"
  let ?crow = "JObj [(''assignment'', JNum 1), (''name'', JStr ''A''), (''sortKey'', JNum 0),
                   (''pointLimit'', JNum (- 3)), (''id'', JNum 5),
                   (''rubricComments'', JArr [JNum 9])]"
  let ?krow = "JObj [(''category'', JNum 5), (''name'', JStr ''old''), (''pointDelta'', JNum (- 1)),
                   (''text'', JStr ''t''), (''sortKey'', JNum 0), (''id'', JNum 9)]"
  have h1: "RubricCategory_checkArgs
      (JObj [(''assignment'', JNum 7), (''name'', JStr ''A''), (''pointLimit'', JNum 5)]) False True
     = Inr [(''assignment'', JNum 7), (''name'', JStr ''A''), (''pointLimit'', JNum (- 5))]"
    by code_simp
  have h2: "RubricComment_checkArgs
      (JObj [(''category'', JNum 3), (''name'', JStr ''x''), (''pointDelta'', JNum (- 2)),
             (''text'', JStr ''t'')]) False True
     = Inr [(''category'', JNum 3), (''name'', JStr ''x''), (''pointDelta'', JNum 2),
            (''text'', JStr ''t'')]"
    by code_simp
  have h3: "js_get (JObj [(''assignment'', JNum 7), (''name'', JStr ''A''), (''pointLimit'', JNum 5)])
         ''pointLimit'' = JNum 5"
    by (simp add: js_get_def prop_get_def)
  have h4: "js_get (JObj [(''category'', JNum 3), (''name'', JStr ''x''), (''pointDelta'', JNum (- 2)),
                   (''text'', JStr ''t'')]) ''pointDelta'' = JNum (- 2)"
    by (simp add: js_get_def prop_get_def)
  have f1: "fetch' ?ev ''GET'' RUBRIC_CATEGORIES (JArr [JNum 5]) w_scored
     = (Inr [?crow], w_scored\<lparr>w_trace := [get_req ''k'' RUBRIC_CATEGORIES 5]\<rparr>)"
    by code_simp
  have f2: "fetch' ?ev ''GET'' RUBRIC_COMMENTS (JArr [JNum 9]) w_scored
     = (Inr [?krow], w_scored\<lparr>w_trace := [get_req ''k'' RUBRIC_COMMENTS 9]\<rparr>)"
    by code_simp
  have c1: "list_all (\<lambda>c. convertible (js_get c ''pointLimit'')) [?crow]"
    by (simp add: js_get_def prop_get_def)
  have c2: "list_all (\<lambda>c. convertible (js_get c ''pointDelta'')) [?krow]"
    by (simp add: js_get_def prop_get_def)
  have d1: "map decode_limit [?crow] =
      [JObj [(''assignment'', JNum 1), (''name'', JStr ''A''), (''sortKey'', JNum 0),
             (''pointLimit'', JNum 3), (''id'', JNum 5), (''rubricComments'', JArr [JNum 9])]]"
    by (simp add: decode_limit_def js_get_def js_set_def prop_get_def prop_set_def)
  have d2: "map decode_delta [?krow] =
      [JObj [(''category'', JNum 5), (''name'', JStr ''old''), (''pointDelta'', JNum 1),
             (''text'', JStr ''t''), (''sortKey'', JNum 0), (''id'', JNum 9)]]"
    by (simp add: decode_delta_def js_get_def js_set_def prop_get_def prop_set_def)
  note t = sign_flip_codec [OF h1 h2, of _ _ ?ev "JArr [JNum 5]" w_scored "[?crow]"
                "w_scored\<lparr>w_trace := [get_req ''k'' RUBRIC_CATEGORIES 5]\<rparr>"
                "JArr [JNum 9]" w_scored "[?krow]"
                "w_scored\<lparr>w_trace := [get_req ''k'' RUBRIC_COMMENTS 9]\<rparr>"]
  from t f1 c1 have g1: "RubricCategory_getByIds ?ev (JArr [JNum 5]) w_scored
      = (Inr (map decode_limit [?crow]), w_scored\<lparr>w_trace := [get_req ''k'' RUBRIC_CATEGORIES 5]\<rparr>)"
    by blast
  from t f2 c2 have g2: "RubricComment_getByIds ?ev (JArr [JNum 9]) w_scored
      = (Inr (map decode_delta [?krow]), w_scored\<lparr>w_trace := [get_req ''k'' RUBRIC_COMMENTS 9]\<rparr>)"
    by blast
  from t have r1: "field_of ''pointLimit'' (flip_pointLimit (wire (JObj
         [(''assignment'', JNum 7), (''name'', JStr ''A''), (''pointLimit'', JNum (- 5))])))
       = Some (JNum 5)"
    unfolding h3 by simp
  from t have r2: "field_of ''pointDelta'' (flip_pointDelta (wire (JObj
         [(''category'', JNum 3), (''name'', JStr ''x''), (''pointDelta'', JNum 2),
          (''text'', JStr ''t'')]))) = Some (JNum (- 2))"
    unfolding h4 by simp
  from h1 h2 f1 f2 g1 [unfolded d1] g2 [unfolded d2] r1 r2 show ?thesis
    by (intro conjI)
qed

text \<open>
  C9 as stated fails on the round trip: \<open>Infinity\<close> is a number the validator
  accepts, its encoding \<open>-Infinity\<close> goes over the wire as \<open>null\<close>, and the decoding
  of \<open>null\<close> is \<open>null\<close> for a point limit and \<open>0\<close> for a point delta.
\<close>

theorem sign_flip_round_trip_counterexample:
  "RubricCategory_checkArgs
      (JObj [(''assignment'', JNum 7), (''name'', JStr ''A''), (''pointLimit'', JInf True)]) False True
     = Inr [(''assignment'', JNum 7), (''name'', JStr ''A''), (''pointLimit'', JInf False)]
   \<and> field_of ''pointLimit'' (flip_pointLimit (wire (JObj
         [(''assignment'', JNum 7), (''name'', JStr ''A''), (''pointLimit'', JInf False)])))
       = Some JNull
   \<and> RubricComment_checkArgs
      (JObj [(''category'', JNum 3), (''name'', JStr ''x''), (''pointDelta'', JInf True),
             (''text'', JStr ''t'')]) False True
     = Inr [(''category'', JNum 3), (''name'', JStr ''x''), (''pointDelta'', JInf False),
            (''text'', JStr ''t'')]
   \<and> field_of ''pointDelta'' (flip_pointDelta (wire (JObj
         [(''category'', JNum 3), (''name'', JStr ''x''), (''pointDelta'', JInf False),
          (''text'', JStr ''t'')]))) = Some (JNum 0)"
  by code_simp

section \<open>Batches are checked before anything is sent\<close>

lemma make_request_patch_defect:
  "api_key ev \<noteq> None \<Longrightarrow> patch_defect item = Some mk
   \<Longrightarrow> make_request ev ''PATCH'' endpoint item n = Inl (mk n)"
  by (auto simp: make_request_def makeOptions'_def patch_defect_def js_get_def
           split: option.splits if_splits)

lemma make_request_patch_ok:
  "api_key ev \<noteq> None \<Longrightarrow> patch_defect item = None
   \<Longrightarrow> \<exists>r. make_request ev ''PATCH'' endpoint item n = Inr r"
  by (auto simp: make_request_def makeOptions'_def patch_defect_def js_get_def Let_def with_id_def
           split: option.splits if_splits)

lemma make_requests_patch_defect:
  "api_key ev \<noteq> None \<Longrightarrow> i < length items \<Longrightarrow> patch_defect (items ! i) = Some mk
   \<Longrightarrow> \<forall>j<i. patch_defect (items ! j) = None
   \<Longrightarrow> make_requests ev ''PATCH'' endpoint items n = Inl (mk (n + i))"
proof (induction items arbitrary: n i)
  case Nil
  then show ?case by simp
next
  case (Cons item items)
  show ?case
  proof (cases i)
    case 0
    with Cons.prems show ?thesis
      by (simp add: make_request_patch_defect)
  next
    case (Suc i')
    with Cons.prems have "patch_defect item = None" by auto
    then obtain r where r: "make_request ev ''PATCH'' endpoint item n = Inr r"
      using make_request_patch_ok Cons.prems(1) by blast
    from Cons.prems Suc have "make_requests ev ''PATCH'' endpoint items (Suc n) = Inl (mk (Suc n + i'))"
      by (intro Cons.IH) auto
    with r Suc show ?thesis by simp
  qed
qed

lemma make_request_post_null:
  "api_key ev \<noteq> None \<Longrightarrow> nullish item
   \<Longrightarrow> make_request ev ''POST'' endpoint item n = Inl (PostMissingData n)"
  by (auto simp: make_request_def makeOptions'_def split: option.splits)

lemma make_request_post_ok:
  "api_key ev \<noteq> None \<Longrightarrow> \<not> nullish item
   \<Longrightarrow> \<exists>r. make_request ev ''POST'' endpoint item n = Inr r"
  by (auto simp: make_request_def makeOptions'_def split: option.splits)

lemma make_requests_post_null:
  "api_key ev \<noteq> None \<Longrightarrow> i < length items \<Longrightarrow> nullish (items ! i)
   \<Longrightarrow> \<forall>j<i. \<not> nullish (items ! j)
   \<Longrightarrow> make_requests ev ''POST'' endpoint items n = Inl (PostMissingData (n + i))"
proof (induction items arbitrary: n i)
  case Nil
  then show ?case by simp
next
  case (Cons item items)
  show ?case
  proof (cases i)
    case 0
    with Cons.prems show ?thesis
      by (simp add: make_request_post_null)
  next
    case (Suc i')
    with Cons.prems have "\<not> nullish item" by auto
    then obtain r where r: "make_request ev ''POST'' endpoint item n = Inr r"
      using make_request_post_ok Cons.prems(1) by blast
    from Cons.prems Suc have "make_requests ev ''POST'' endpoint items (Suc n) = Inl (PostMissingData (Suc n + i'))"
      by (intro Cons.IH) auto
    with r Suc show ?thesis by simp
  qed
qed

text \<open>
  C7. With an API key configured, a \<open>PATCH\<close> batch in which some item is missing,
  lacks \<open>data\<close> or lacks \<open>id\<close> is rejected with the error of the first such item,
  naming its index and the missing part, and a \<open>POST\<close> batch with a missing item is
  rejected with the index of the first one; the world is unchanged, so no request of
  the batch has been sent. An item whose \<open>id\<close> cannot be put into the address counts
  as defective too: the batch is rejected at it with a \<open>TypeError\<close>.
\<close>

theorem batch_validation_fail_fast:
  assumes "api_key ev \<noteq> None" and "i < length items"
  shows "(checkMethod' method = Inr ''PATCH'' \<and> patch_defect (items ! i) = Some mk
            \<and> (\<forall>j<i. patch_defect (items ! j) = None)
          \<longrightarrow> fetch' ev method endpoint (JArr items) w = (Inl (mk i), w))
       \<and> (checkMethod' method = Inr ''POST'' \<and> nullish (items ! i)
            \<and> (\<forall>j<i. \<not> nullish (items ! j))
          \<longrightarrow> fetch' ev method endpoint (JArr items) w = (Inl (PostMissingData i), w))"
  using make_requests_patch_defect [OF assms, of mk "fixEndpoint' endpoint" 0]
        make_requests_post_null [OF assms, of "fixEndpoint' endpoint" 0]
  by (simp add: fetch'_def)

theorem batch_validation_fail_fast_witness:
  "fetch' \<lparr>api_key = Some ''k'', answer = 0\<rparr> ''patch'' ''rubricComments/''
     (JArr [JObj [(''id'', JNum 1), (''data'', JObj [(''sortKey'', JNum 0)])],
            JObj [(''id'', JNum 2), (''data'', JObj [(''sortKey'', JNum 1)])],
            JObj [(''data'', JObj [(''sortKey'', JNum 2)])]]) w_empty
   = (Inl (PatchMissingId 2), w_empty)
   \<and> fetch' \<lparr>api_key = Some ''k'', answer = 0\<rparr> ''POST'' ''rubricComments/''
     (JArr [JObj [(''name'', JStr ''a'')], JObj [(''name'', JStr ''b'')], JNull]) w_empty
   = (Inl (PostMissingData 2), w_empty)"
proof -
  let ?ev = "\<lparr>api_key = Some ''k'', answer = 0\<rparr>"
  let ?items = "[JObj [(''id'', JNum 1), (''data'', JObj [(''sortKey'', JNum 0)])],
            JObj [(''id'', JNum 2), (''data'', JObj [(''sortKey'', JNum 1)])],
            JObj [(''data'', JObj [(''sortKey'', JNum 2)])]]"
  let ?posts = "[JObj [(''name'', JStr ''a'')], JObj [(''name'', JStr ''b'')], JNull]"
  have k: "api_key ?ev \<noteq> None" by simp
  have m: "checkMethod' ''patch'' = Inr ''PATCH''"
    by code_simp
  have m': "checkMethod' ''POST'' = Inr ''POST''"
    by (simp add: checkMethod'_def trim_def is_space_def to_upper_def METHODS_def)
  have d: "patch_defect (?items ! 2) = Some PatchMissingId"
    by (simp add: patch_defect_def js_get_def prop_get_def)
  have ok: "\<forall>j<2. patch_defect (?items ! j) = None"
    by (simp add: patch_defect_def js_get_def prop_get_def less_Suc_eq numeral_2_eq_2)
  have n: "nullish (?posts ! 2)" by simp
  have ok': "\<forall>j<2. \<not> nullish (?posts ! j)"
    by (simp add: less_Suc_eq numeral_2_eq_2)
  have "fetch' ?ev ''patch'' ''rubricComments/'' (JArr ?items) w_empty = (Inl (PatchMissingId 2), w_empty)"
    using batch_validation_fail_fast [of ?ev 2 ?items "''patch''" PatchMissingId "''rubricComments/''" w_empty]
          k m d ok by simp
  moreover
  have "fetch' ?ev ''POST'' ''rubricComments/'' (JArr ?posts) w_empty = (Inl (PostMissingData 2), w_empty)"
    using batch_validation_fail_fast [of ?ev 2 ?posts "''POST''" PatchMissingId "''rubricComments/''" w_empty]
          k m' n ok' by simp
  ultimately show ?thesis by simp
qed

section \<open>The structural check of the rubric\<close>

lemma check_required_valid:
  "check_required resource required args fixed = Inr fixed' \<Longrightarrow> (f, v) \<in> set required
   \<Longrightarrow> map_of args f \<noteq> None \<and> validate v (prop_get args f) = None"
  by (induction required arbitrary: fixed)
     (auto simp: hasProp'_def split: option.splits bool.splits if_splits)

lemma valid_name_is_string: "validateNonEmpty v = None \<Longrightarrow> \<exists>s. v = JStr s"
  by (cases v) (auto simp: validateNonEmpty_def)

lemma checkArgs_required_valid:
  assumes "checkArgs' resource required optional args = Inr fixed" and "(f, v) \<in> set required"
  shows "map_of (own_props args) f \<noteq> None \<and> validate v (js_get args f) = None"
proof -
  from assms(1) obtain fixed1
    where r: "check_required resource required (own_props args) [] = Inr fixed1"
    by (auto simp: checkArgs'_def split: if_splits sum.splits)
  from check_required_valid [OF r assms(2)] show ?thesis by (simp add: js_get_def)
qed

lemma RubricComment_checkArgs_name:
  assumes "RubricComment_checkArgs c False False = Inr comment"
  shows "\<exists>s. js_get c ''name'' = JStr s \<and> prop_get comment ''name'' = JStr s"
proof -
  from assms obtain fixed where
    c: "checkArgs' ''RubricComment'' (AList.delete ''category'' comment_REQUIRED) comment_OPTIONAL c = Inr fixed"
    by (auto simp: RubricComment_checkArgs_def split: sum.splits)
  have "(''name'', ValidateNonEmpty) \<in> set (AList.delete ''category'' comment_REQUIRED)"
    by (simp add: comment_REQUIRED_def)
  from checkArgs_required_valid [OF c this] obtain s where s: "js_get c ''name'' = JStr s"
    using valid_name_is_string by auto
  then have "map_of (own_props c) ''name'' = Some (JStr s)"
    by (auto simp: js_get_def prop_get_def split: option.splits)
  with RubricComment_checkArgs_map(1) [OF assms, of "''name''"]
  have "prop_get comment ''name'' = JStr s"
    by (simp add: comment_fields_def prop_get_def)
  with s show ?thesis by blast
qed

lemma RubricCategory_checkArgs_name:
  assumes "RubricCategory_checkArgs c False False = Inr category"
  shows "\<exists>s. js_get c ''name'' = JStr s \<and> prop_get category ''name'' = JStr s"
proof -
  from assms obtain fixed where
    c: "checkArgs' ''RubricCategory'' (AList.delete ''assignment'' category_REQUIRED) category_OPTIONAL c = Inr fixed"
    by (auto simp: RubricCategory_checkArgs_def split: sum.splits)
  have "(''name'', ValidateNonEmpty) \<in> set (AList.delete ''assignment'' category_REQUIRED)"
    by (simp add: category_REQUIRED_def)
  from checkArgs_required_valid [OF c this] obtain s where s: "js_get c ''name'' = JStr s"
    using valid_name_is_string by auto
  then have "map_of (own_props c) ''name'' = Some (JStr s)"
    by (auto simp: js_get_def prop_get_def split: option.splits)
  with RubricCategory_checkArgs_map(1) [OF assms, of "''name''"]
  have "prop_get category ''name'' = JStr s"
    by (simp add: category_fields_def prop_get_def)
  with s show ?thesis by blast
qed

lemma category_args_name: "js_get (category_args element) ''name'' = category_name element"
  by (simp add: category_args_def category_name_def js_get_def prop_get_def delete_conv')

lemma valid_comment_name:
  assumes "valid_comment c"
  shows "\<exists>s. js_get c ''name'' = JStr s
             \<and> RubricComment_checkArgs c False False = Inr (given_comment c)
             \<and> prop_get (given_comment c) ''name'' = JStr s"
proof -
  from assms obtain comment where ok: "RubricComment_checkArgs c False False = Inr comment"
    by (auto simp: valid_comment_def isOK_def split: sum.splits)
  from RubricComment_checkArgs_name [OF ok] ok show ?thesis
    by (auto simp: given_comment_def)
qed

lemma valid_category_name:
  assumes "valid_category el"
  shows "\<exists>s. category_name el = JStr s \<and> \<not> nullish el
             \<and> RubricCategory_checkArgs (category_args el) False False = Inr (given_category el)
             \<and> prop_get (given_category el) ''name'' = JStr s"
proof -
  from assms obtain category where nn: "\<not> nullish el"
    and ok: "RubricCategory_checkArgs (category_args el) False False = Inr category"
    by (auto simp: valid_category_def isOK_def split: sum.splits)
  from RubricCategory_checkArgs_name [OF ok] ok nn show ?thesis
    by (auto simp: given_category_def category_args_name)
qed

text \<open>Comments without a repeated name pass, and the first repeat is reported.\<close>

lemma check_comments_distinct:
  "list_all valid_comment cs \<Longrightarrow> distinct (seen @ map (\<lambda>c. js_get c ''name'') cs)
   \<Longrightarrow> check_comments i1 cs i2 seen
         = Inr (map given_comment cs, seen @ map (\<lambda>c. js_get c ''name'') cs)"
proof (induction cs arbitrary: i2 seen)
  case Nil
  then show ?case by simp
next
  case (Cons c cs)
  from Cons.prems(1) have vc: "valid_comment c" and rest: "list_all valid_comment cs" by simp_all
  from valid_comment_name [OF vc] obtain s where s: "js_get c ''name'' = JStr s"
    "RubricComment_checkArgs c False False = Inr (given_comment c)"
    "prop_get (given_comment c) ''name'' = JStr s" by blast
  from Cons.prems(2) s have new: "JStr s \<notin> set seen"
    and d: "distinct ((seen @ [JStr s]) @ map (\<lambda>c. js_get c ''name'') cs)" by auto
  from Cons.IH [where ?i2.0 = "Suc i2", OF rest d] s new show ?case by simp
qed

lemma check_comments_repeat:
  "k < length cs \<Longrightarrow> list_all valid_comment (take (Suc k) cs)
   \<Longrightarrow> distinct (seen @ take k (map (\<lambda>c. js_get c ''name'') cs))
   \<Longrightarrow> js_get (cs ! k) ''name'' \<in> set (seen @ take k (map (\<lambda>c. js_get c ''name'') cs))
   \<Longrightarrow> check_comments i1 cs i2 seen
         = Inl (CommentNotUnique i1 (i2 + k) (to_string (js_get (cs ! k) ''name'')))"
proof (induction cs arbitrary: i2 seen k)
  case Nil
  then show ?case by simp
next
  case (Cons c cs)
  from Cons.prems(2) have vc: "valid_comment c" by simp
  from valid_comment_name [OF vc] obtain s where s: "js_get c ''name'' = JStr s"
    "RubricComment_checkArgs c False False = Inr (given_comment c)"
    "prop_get (given_comment c) ''name'' = JStr s" by blast
  show ?case
  proof (cases k)
    case 0
    with Cons.prems(4) s show ?thesis by simp
  next
    case (Suc k')
    with Cons.prems s have new: "JStr s \<notin> set seen"
      and k': "k' < length cs" and v: "list_all valid_comment (take (Suc k') cs)"
      and d: "distinct ((seen @ [JStr s]) @ take k' (map (\<lambda>c. js_get c ''name'') cs))"
      and m: "js_get (cs ! k') ''name'' \<in> set ((seen @ [JStr s]) @ take k' (map (\<lambda>c. js_get c ''name'') cs))"
      by auto
    from Cons.IH [where ?i2.0 = "Suc i2", OF k' v d m] s new Suc show ?thesis by simp
  qed
qed

text \<open>A valid element whose names are new is passed over.\<close>

lemma check_categories_step:
  assumes "valid_element el" and "category_name el \<notin> set sc"
    and "distinct (sk @ comment_names el)"
  shows "check_categories (el # els) i (gc, gd, sc, sk)
       = check_categories els (Suc i)
           (gc @ [given_category el],
            dict_assign gd (to_string (category_name el)) (map given_comment (comment_args el)),
            sc @ [category_name el], sk @ comment_names el)"
proof -
  from assms(1) obtain cs where vc: "valid_category el"
    and cs: "js_get el ''comments'' = JArr cs" and csok: "list_all valid_comment cs"
    by (auto simp: valid_element_def split: jsval.splits)
  from valid_category_name [OF vc] obtain s where s: "category_name el = JStr s" "\<not> nullish el"
    "RubricCategory_checkArgs (category_args el) False False = Inr (given_category el)"
    "prop_get (given_category el) ''name'' = JStr s" by blast
  have ca: "comment_args el = cs" by (simp add: comment_args_def cs array_elements_def)
  have cn: "comment_names el = map (\<lambda>c. js_get c ''name'') cs" by (simp add: comment_names_def ca)
  from assms(3) have "distinct (sk @ map (\<lambda>c. js_get c ''name'') cs)" by (simp add: cn)
  from check_comments_distinct [OF csok this, of i 0]
  have cc: "check_comments i cs 0 sk = Inr (map given_comment cs, sk @ comment_names el)"
    by (simp add: cn)
  from s assms(2) cs cc ca show ?thesis
    by (simp add: category_args_def [symmetric])
qed

lemma check_categories_repeat_category:
  "j < length els \<Longrightarrow> list_all valid_element (take j els)
   \<Longrightarrow> distinct (sc @ map category_name (take j els))
   \<Longrightarrow> distinct (sk @ concat (map comment_names (take j els)))
   \<Longrightarrow> valid_category (els ! j)
   \<Longrightarrow> category_name (els ! j) \<in> set (sc @ map category_name (take j els))
   \<Longrightarrow> check_categories els i (gc, gd, sc, sk)
         = Inl (CategoryNotUnique (i + j) (to_string (category_name (els ! j))))"
proof (induction els arbitrary: j i gc gd sc sk)
  case Nil
  then show ?case by simp
next
  case (Cons el els)
  show ?case
  proof (cases j)
    case 0
    with Cons.prems have vc: "valid_category el" and m: "category_name el \<in> set sc" by simp_all
    from valid_category_name [OF vc] obtain s where s: "category_name el = JStr s" "\<not> nullish el"
      "RubricCategory_checkArgs (category_args el) False False = Inr (given_category el)"
      "prop_get (given_category el) ''name'' = JStr s" by blast
    with m 0 show ?thesis by (simp add: category_args_def [symmetric])
  next
    case (Suc j')
    with Cons.prems have v: "valid_element el" and new: "category_name el \<notin> set sc"
      and d0: "distinct (sk @ comment_names el)"
      and j': "j' < length els" and vs: "list_all valid_element (take j' els)"
      and d1: "distinct ((sc @ [category_name el]) @ map category_name (take j' els))"
      and d2: "distinct ((sk @ comment_names el) @ concat (map comment_names (take j' els)))"
      and vc: "valid_category (els ! j')"
      and m: "category_name (els ! j') \<in> set ((sc @ [category_name el]) @ map category_name (take j' els))"
      by auto
    from Cons.IH [OF j' vs d1 d2 vc m, of "Suc i"] Suc
    show ?thesis
      unfolding check_categories_step [OF v new d0] by simp
  qed
qed

lemma check_categories_repeat_comment:
  "j < length els \<Longrightarrow> list_all valid_element (take j els)
   \<Longrightarrow> distinct (sc @ map category_name (take (Suc j) els))
   \<Longrightarrow> valid_category (els ! j)
   \<Longrightarrow> js_get (els ! j) ''comments'' = JArr cs \<Longrightarrow> k < length cs
   \<Longrightarrow> list_all valid_comment (take (Suc k) cs)
   \<Longrightarrow> distinct (sk @ concat (map comment_names (take j els)) @ take k (comment_names (els ! j)))
   \<Longrightarrow> comment_names (els ! j) ! k
         \<in> set (sk @ concat (map comment_names (take j els)) @ take k (comment_names (els ! j)))
   \<Longrightarrow> check_categories els i (gc, gd, sc, sk)
         = Inl (CommentNotUnique (i + j) k (to_string (comment_names (els ! j) ! k)))"
proof (induction els arbitrary: j i gc gd sc sk)
  case Nil
  then show ?case by simp
next
  case (Cons el els)
  show ?case
  proof (cases j)
    case 0
    with Cons.prems have vc: "valid_category el" and new: "category_name el \<notin> set sc"
      and cs: "js_get el ''comments'' = JArr cs" and k: "k < length cs"
      and v: "list_all valid_comment (take (Suc k) cs)"
      and d: "distinct (sk @ take k (comment_names el))"
      and m: "comment_names el ! k \<in> set (sk @ take k (comment_names el))"
      by auto
    from valid_category_name [OF vc] obtain s where s: "category_name el = JStr s" "\<not> nullish el"
      "RubricCategory_checkArgs (category_args el) False False = Inr (given_category el)"
      "prop_get (given_category el) ''name'' = JStr s" by blast
    have ca: "comment_args el = cs" by (simp add: comment_args_def cs array_elements_def)
    have cn: "comment_names el = map (\<lambda>c. js_get c ''name'') cs" by (simp add: comment_names_def ca)
    from k have nk: "comment_names el ! k = js_get (cs ! k) ''name''" by (simp add: cn)
    from d have d': "distinct (sk @ take k (map (\<lambda>c. js_get c ''name'') cs))" by (simp only: cn)
    from m have m': "js_get (cs ! k) ''name'' \<in> set (sk @ take k (map (\<lambda>c. js_get c ''name'') cs))"
      unfolding nk by (simp only: cn)
    from check_comments_repeat [OF k v d' m', of i 0]
    have "check_comments i cs 0 sk = Inl (CommentNotUnique i k (to_string (comment_names el ! k)))"
      by (simp add: nk)
    with s new cs 0 show ?thesis by (simp add: category_args_def [symmetric])
  next
    case (Suc j')
    with Cons.prems have v: "valid_element el" and new: "category_name el \<notin> set sc"
      and d0: "distinct (sk @ comment_names el)"
      and j': "j' < length els" and vs: "list_all valid_element (take j' els)"
      and d1: "distinct ((sc @ [category_name el]) @ map category_name (take (Suc j') els))"
      and vc: "valid_category (els ! j')"
      and cs: "js_get (els ! j') ''comments'' = JArr cs" and k: "k < length cs"
      and vk: "list_all valid_comment (take (Suc k) cs)"
      and d2: "distinct ((sk @ comment_names el) @ concat (map comment_names (take j' els))
                          @ take k (comment_names (els ! j')))"
      and m: "comment_names (els ! j') ! k
              \<in> set ((sk @ comment_names el) @ concat (map comment_names (take j' els))
                       @ take k (comment_names (els ! j')))"
      by auto
    from Cons.IH [OF j' vs d1 vc cs k vk d2 m, of "Suc i"] Suc
    show ?thesis
      unfolding check_categories_step [OF v new d0] by simp
  qed
qed

section \<open>Names must be unique\<close>

lemma validation_precedes_requests:
  "isNumber' assignmentId = Some True \<Longrightarrow> checkValidRubric' rubric = Inl e
   \<Longrightarrow> importRubric' ev assignmentId rubric wipe deleteExtra w = (Inl e, w)"
  by (cases "nullish assignmentId")
     (simp_all add: importRubric'_def isNumber'_def io_bind_def io_lift_def)

text \<open>
  C4. The assignment id is a number. When category \<open>j\<close> of the rubric is the first
  repeat of a name, the run fails with the "not unique" error of category \<open>j\<close>; when
  comment \<open>k\<close> of category \<open>j\<close> is the first repeat of a name, among the comments of
  all categories, it fails with the "not unique" error of category \<open>j\<close>, comment
  \<open>k\<close>. The error carries the repeated name, and the world is unchanged: nothing was
  fetched or sent. What comes after the repeat in the rubric is not looked at.
\<close>

theorem uniqueness_fails_fast:
  assumes "isNumber' assignmentId = Some True"
  shows "(first_repeat_category elements j \<longrightarrow>
            importRubric' ev assignmentId (JArr elements) wipe deleteExtra w
              = (Inl (CategoryNotUnique j (to_string (category_name (elements ! j)))), w))
       \<and> (first_repeat_comment elements j k \<longrightarrow>
            importRubric' ev assignmentId (JArr elements) wipe deleteExtra w
              = (Inl (CommentNotUnique j k (to_string (comment_names (elements ! j) ! k))), w))"
proof (intro conjI impI)
  assume a: "first_repeat_category elements j"
  then have "check_categories elements 0 ([], [], [], [])
      = Inl (CategoryNotUnique (0 + j) (to_string (category_name (elements ! j))))"
    by (intro check_categories_repeat_category)
       (simp_all add: first_repeat_category_def categories_before_def comments_before_def)
  then have "checkValidRubric' (JArr elements)
      = Inl (CategoryNotUnique j (to_string (category_name (elements ! j))))"
    by (simp add: checkValidRubric'_def)
  from validation_precedes_requests [OF assms this]
  show "importRubric' ev assignmentId (JArr elements) wipe deleteExtra w
              = (Inl (CategoryNotUnique j (to_string (category_name (elements ! j)))), w)" .
next
  assume a: "first_repeat_comment elements j k"
  then obtain cs where cs: "js_get (elements ! j) ''comments'' = JArr cs"
    and k: "k < length cs" and v: "list_all valid_comment (take (Suc k) cs)"
    by (auto simp: first_repeat_comment_def split: jsval.splits)
  from a cs k v have "check_categories elements 0 ([], [], [], [])
      = Inl (CommentNotUnique (0 + j) k (to_string (comment_names (elements ! j) ! k)))"
    by (intro check_categories_repeat_comment [where cs = cs])
       (simp_all add: first_repeat_comment_def categories_before_def comments_before_def)
  then have "checkValidRubric' (JArr elements)
      = Inl (CommentNotUnique j k (to_string (comment_names (elements ! j) ! k)))"
    by (simp add: checkValidRubric'_def)
  from validation_precedes_requests [OF assms this]
  show "importRubric' ev assignmentId (JArr elements) wipe deleteExtra w
              = (Inl (CommentNotUnique j k (to_string (comment_names (elements ! j) ! k))), w)" .
qed

theorem uniqueness_fails_fast_witness:
  "isNumber' (JNum 7) = Some True
   \<and> first_repeat_category style_twice 1
   \<and> importRubric' \<lparr>api_key = Some ''k'', answer = 0\<rparr> (JNum 7) (JArr style_twice) False False w_empty
       = (Inl (CategoryNotUnique 1 ''Style''), w_empty)
   \<and> first_repeat_category style_thrice 1
   \<and> importRubric' \<lparr>api_key = Some ''k'', answer = 0\<rparr> (JNum 7) (JArr style_thrice) True False
        w_one_category
       = (Inl (CategoryNotUnique 1 ''Style''), w_one_category)
   \<and> first_repeat_comment comment_twice 1 1
   \<and> importRubric' \<lparr>api_key = Some ''k'', answer = 0\<rparr> (JNum 7) (JArr comment_twice) False True
        w_one_category
       = (Inl (CommentNotUnique 1 1 ''tabs''), w_one_category)"
proof -
  let ?ev = "\<lparr>api_key = Some ''k'', answer = 0\<rparr>"
  have h: "isNumber' (JNum 7) = Some True" by (simp add: isNumber'_def)
  have r1: "first_repeat_category style_twice 1" by code_simp
  have r2: "first_repeat_category style_thrice 1" by code_simp
  have r3: "first_repeat_comment comment_twice 1 1" by code_simp
  have n1: "to_string (category_name (style_twice ! 1)) = ''Style''" by code_simp
  have n2: "to_string (category_name (style_thrice ! 1)) = ''Style''" by code_simp
  have n3: "to_string (comment_names (comment_twice ! 1) ! 1) = ''tabs''" by code_simp
  from uniqueness_fails_fast [OF h, of style_twice 1 ?ev False False w_empty] r1
  have e1: "importRubric' ?ev (JNum 7) (JArr style_twice) False False w_empty
       = (Inl (CategoryNotUnique 1 ''Style''), w_empty)"
    unfolding n1 by blast
  from uniqueness_fails_fast [OF h, of style_thrice 1 ?ev True False w_one_category] r2
  have e2: "importRubric' ?ev (JNum 7) (JArr style_thrice) True False w_one_category
       = (Inl (CategoryNotUnique 1 ''Style''), w_one_category)"
    unfolding n2 by blast
  from uniqueness_fails_fast [OF h, where elements = comment_twice and j = 1 and k = 1 and ev = ?ev
          and wipe = False and deleteExtra = True and w = w_one_category] r3
  have e3: "importRubric' ?ev (JNum 7) (JArr comment_twice) False True w_one_category
       = (Inl (CommentNotUnique 1 1 ''tabs''), w_one_category)"
    unfolding n3 by blast
  from h r1 e1 r2 e2 r3 e3 show ?thesis by (intro conjI)
qed

section \<open>What a run sends\<close>

lemma checkMethod_known [simp]:
  "checkMethod' ''GET'' = Inr ''GET''" "checkMethod' ''POST'' = Inr ''POST''"
  "checkMethod' ''PATCH'' = Inr ''PATCH''" "checkMethod' ''DELETE'' = Inr ''DELETE''"
  by (simp_all add: checkMethod'_def trim_def is_space_def to_upper_def METHODS_def)

lemma fixEndpoint_collections [simp]:
  "fixEndpoint' RUBRIC_CATEGORIES = RUBRIC_CATEGORIES"
  "fixEndpoint' RUBRIC_COMMENTS = RUBRIC_COMMENTS"
  by (simp_all add: fixEndpoint'_def RUBRIC_CATEGORIES_def RUBRIC_COMMENTS_def)

lemma extends_by_iff:
  "extends_by P w w' \<longleftrightarrow> (\<exists>new. w_trace w' = w_trace w @ new \<and> list_all P new)"
proof
  assume "extends_by P w w'"
  then have "w_trace w' = w_trace w @ drop (length (w_trace w)) (w_trace w')"
    and "list_all P (drop (length (w_trace w)) (w_trace w'))"
    using append_take_drop_id [of "length (w_trace w)" "w_trace w'"] by (simp_all add: extends_by_def)
  then show "\<exists>new. w_trace w' = w_trace w @ new \<and> list_all P new" by blast
next
  assume "\<exists>new. w_trace w' = w_trace w @ new \<and> list_all P new"
  then show "extends_by P w w'" by (auto simp: extends_by_def)
qed

lemma extends_by_refl [simp]: "extends_by P w w"
  by (simp add: extends_by_iff)

lemma extends_by_trans: "extends_by P w w1 \<Longrightarrow> extends_by P w1 w2 \<Longrightarrow> extends_by P w w2"
  by (auto simp: extends_by_iff)

lemma extends_by_mono: "extends_by P w w' \<Longrightarrow> (\<And>r. P r \<Longrightarrow> Q r) \<Longrightarrow> extends_by Q w w'"
  by (auto simp: extends_by_iff list_all_iff)

lemma extends_bind:
  assumes "\<And>w. extends_by P w (snd (m w))" and "\<And>x w. extends_by P w (snd (f x w))"
  shows "extends_by P w (snd (io_bind m f w))"
proof (cases "m w")
  case (Pair r w1)
  with assms(1) [of w] have 1: "extends_by P w w1" by simp
  show ?thesis
  proof (cases r)
    case (Inl e)
    with Pair 1 show ?thesis by (simp add: io_bind_def)
  next
    case (Inr x)
    with Pair have "io_bind m f w = f x w1" by (simp add: io_bind_def)
    with extends_by_trans [OF 1 assms(2) [of w1 x]] show ?thesis by simp
  qed
qed

lemma extends_return [simp]: "extends_by P w (snd (io_return x w))"
  by (simp add: io_return_def)

lemma extends_throw [simp]: "extends_by P w (snd (io_throw e w))"
  by (simp add: io_throw_def)

lemma extends_lift [simp]: "extends_by P w (snd (io_lift r w))"
  by (simp add: io_lift_def)

subsection \<open>What a batch sends\<close>

lemma make_request_shape:
  assumes "make_request ev M ep item n = Inr r"
  shows "req_method (snd r) = M"
    and "M = ''PATCH'' \<Longrightarrow> req_url (snd r) = BASE_ENDPOINT @ ep @ to_string (js_get item ''id'') @ ''/''
           \<and> req_payload (snd r) = Some (wire (js_get item ''data''))"
  using assms
  by (auto simp: make_request_def makeOptions'_def js_get_def Let_def with_id_def
        split: option.splits if_splits bool.splits simp del: wire.simps)

lemma make_requests_shape:
  "make_requests ev M ep items n = Inr rs \<Longrightarrow> r \<in> set rs \<Longrightarrow>
   req_method (snd r) = M
   \<and> (M = ''PATCH'' \<longrightarrow> (\<exists>item\<in>set items.
         req_url (snd r) = BASE_ENDPOINT @ ep @ to_string (js_get item ''id'') @ ''/''
         \<and> req_payload (snd r) = Some (wire (js_get item ''data''))))"
proof (induction items arbitrary: n rs)
  case Nil
  then show ?case by simp
next
  case (Cons item items)
  from Cons.prems(1) obtain r0 rs0 where r0: "make_request ev M ep item n = Inr r0"
    and rs0: "make_requests ev M ep items (Suc n) = Inr rs0" and rs: "rs = r0 # rs0"
    by (auto split: sum.splits)
  show ?case
  proof (cases "r = r0")
    case True
    with make_request_shape [OF r0] show ?thesis by auto
  next
    case False
    with Cons.prems(2) rs have "r \<in> set rs0" by simp
    from Cons.IH [OF rs0 this] show ?thesis by auto
  qed
qed

lemma fetch_trace:
  "\<exists>M rs. w_trace (snd (fetch' ev m ep data w)) = w_trace w @ map snd rs
     \<and> (rs \<noteq> [] \<longrightarrow> checkMethod' m = Inr M
          \<and> (\<exists>items. data = JArr items \<and> make_requests ev M (fixEndpoint' ep) items 0 = Inr rs))"
proof (cases "checkMethod' m")
  case (Inl e)
  then have "w_trace (snd (fetch' ev m ep data w)) = w_trace w @ map snd []"
    by (simp add: fetch'_def)
  then show ?thesis by blast
next
  case (Inr M)
  show ?thesis
  proof (cases data)
    case (JArr items)
    show ?thesis
    proof (cases "make_requests ev M (fixEndpoint' ep) items 0")
      case (Inl e)
      with Inr JArr have "w_trace (snd (fetch' ev m ep data w)) = w_trace w @ map snd []"
        by (simp add: fetch'_def)
      then show ?thesis by blast
    next
      case rs: (Inr rs)
      with Inr JArr have "w_trace (snd (fetch' ev m ep data w)) = w_trace w @ map snd rs"
        by (simp add: fetch'_def split_def Let_def)
      with Inr JArr rs show ?thesis by blast
    qed
  qed (use Inr in \<open>simp_all add: fetch'_def\<close>)
qed

lemma fetch_extends:
  assumes "\<And>M items r. checkMethod' m = Inr M \<Longrightarrow> data = JArr items \<Longrightarrow> req_method r = M
             \<Longrightarrow> (M = ''PATCH'' \<longrightarrow> (\<exists>item\<in>set items.
                     req_url r = BASE_ENDPOINT @ fixEndpoint' ep @ to_string (js_get item ''id'') @ ''/''
                     \<and> req_payload r = Some (wire (js_get item ''data''))))
             \<Longrightarrow> P r"
  shows "extends_by P w (snd (fetch' ev m ep data w))"
proof -
  from fetch_trace [of ev m ep data w] obtain M rs
    where t: "w_trace (snd (fetch' ev m ep data w)) = w_trace w @ map snd rs"
      and s: "rs \<noteq> [] \<longrightarrow> checkMethod' m = Inr M
          \<and> (\<exists>items. data = JArr items \<and> make_requests ev M (fixEndpoint' ep) items 0 = Inr rs)"
    by blast
  have "list_all P (map snd rs)"
  proof (cases "rs = []")
    case True
    then show ?thesis by simp
  next
    case False
    with s obtain items where M: "checkMethod' m = Inr M" and d: "data = JArr items"
      and mr: "make_requests ev M (fixEndpoint' ep) items 0 = Inr rs" by blast
    show ?thesis
      unfolding list_all_iff
    proof
      fix r assume "r \<in> set (map snd rs)"
      then obtain r' where r': "r' \<in> set rs" "r = snd r'" by auto
      from make_requests_shape [OF mr r'(1)] r'(2) assms [OF M d, of r] show "P r" by simp
    qed
  qed
  with t show ?thesis by (auto simp: extends_by_iff)
qed

lemma fetchOne_extends:
  assumes "\<And>M r. checkMethod' m = Inr M \<Longrightarrow> req_method r = M \<Longrightarrow> P r"
  shows "extends_by P w (snd (fetchOne' ev m ep data w))"
proof (cases "checkMethod' m")
  case (Inl e)
  then show ?thesis by (simp add: fetchOne'_def)
next
  case (Inr M)
  show ?thesis
  proof (cases "makeOptions' ev M")
    case (Inl e)
    with Inr show ?thesis by (simp add: fetchOne'_def)
  next
    case opt: (Inr options)
    then have m: "req_method options = M"
      by (auto simp: makeOptions'_def split: option.splits)
    show ?thesis
      using Inr opt assms [OF Inr] m
      by (auto simp: fetchOne'_def Let_def split_def extends_by_iff simp del: wire.simps)
  qed
qed

subsection \<open>The fields of the queued updates\<close>

lemma fields_of_wire: "fields_of (wire v) \<subseteq> fields_of v"
  by (cases v) (force simp: fields_of_def)+

lemma fields_of_JObj [simp]: "fields_of (JObj kvs) = fst ` set kvs"
  by (simp add: fields_of_def)

lemma diff_fields_keys:
  "diff_fields fs existing given acc = Some r
   \<Longrightarrow> fst ` set (snd r) \<subseteq> set fs \<union> fst ` set (snd acc)"
proof (induction fs arbitrary: acc)
  case Nil
  then show ?case by simp
next
  case (Cons f fs)
  obtain u upd where acc: "acc = (u, upd)" by (cases acc)
  from Cons.prems consider "diff_fields fs existing given (u, upd) = Some r"
    | "diff_fields fs existing given (True, prop_set upd f (prop_get given f)) = Some r"
    unfolding acc by (auto split: option.splits bool.splits if_splits)
  then show ?case
  proof cases
    case 1
    from Cons.IH [OF 1] show ?thesis unfolding acc by auto
  next
    case 2
    from Cons.IH [OF 2] show ?thesis unfolding acc by auto
  qed
qed

lemma diff_value_keys:
  "fst ` set (snd (diff_value f existing v acc)) \<subseteq> insert f (fst ` set (snd acc))"
  by (auto simp: diff_value_def)

lemma queued_fields_append [simp]:
  "queued_fields (xs @ ys) = queued_fields xs \<union> queued_fields ys"
  by (auto simp: queued_fields_def)

lemma queued_fields_Nil [simp]: "queued_fields [] = {}"
  by (simp add: queued_fields_def)

lemma queued_fields_patch_item [simp]:
  "queued_fields [patch_item existing update] = fst ` set update"
  by (simp add: queued_fields_def patch_item_def js_get_def prop_get_def)

lemma queued_fields_sortKey [simp]:
  "queued_fields [JObj [(''id'', i), (''data'', JObj [(''sortKey'', k)])]] = {''sortKey''}"
  by (simp add: queued_fields_def js_get_def prop_get_def)

lemma diff_keys:
  assumes "set fs \<subseteq> F" and "f \<in> F"
    and "diff_fields fs existing given (False, []) = Some changed"
  shows "fst ` set (snd (diff_value f existing k changed)) \<subseteq> F"
proof -
  have "fst ` set (snd changed) \<subseteq> F"
    using diff_fields_keys [OF assms(3)] assms(1) by auto
  with diff_value_keys [of f existing k changed] assms(2)
  show ?thesis by blast
qed

lemma diff_keys2:
  assumes "set fs \<subseteq> F" and "f \<in> F" and "g \<in> F"
    and "diff_fields fs existing given (False, []) = Some changed"
  shows "fst ` set (snd (diff_value f existing k (diff_value g existing c changed))) \<subseteq> F"
proof -
  have "fst ` set (snd (diff_value g existing c changed)) \<subseteq> F"
    by (rule diff_keys [OF assms(1,3,4)])
  with diff_value_keys [of f existing k "diff_value g existing c changed"] assms(2)
  show ?thesis by blast
qed

lemma category_diff_keys:
  "diff_fields [''pointLimit'', ''helpText'', ''atMostOnce''] existing category (False, []) = Some changed
   \<Longrightarrow> fst ` set (snd (diff_value ''sortKey'' existing k changed)) \<subseteq> category_update_fields"
  by (rule diff_keys) (simp_all add: category_update_fields_def del: diff_fields.simps)

lemma comment_diff_keys:
  "diff_fields [''text'', ''pointDelta'', ''explanation'', ''instructionText'', ''templateTextOn'']
     existing comment (False, []) = Some changed
   \<Longrightarrow> fst ` set (snd (diff_value ''sortKey'' existing k (diff_value ''category'' existing c changed)))
       \<subseteq> comment_update_fields"
  by (rule diff_keys2) (simp_all add: comment_update_fields_def del: diff_fields.simps)

lemma subset_Un_trans: "X \<subseteq> F \<union> Y \<Longrightarrow> Y \<subseteq> F \<union> Z \<Longrightarrow> X \<subseteq> F \<union> Z"
  by blast

lemma planned_updates_simps [simp]:
  "planned_updates (Inl e) = []"
  "planned_updates (Inr (ex, cr, up)) = up"
  by (simp_all add: planned_updates_def)

lemma plan_categories_fields:
  "queued_fields (planned_updates (plan_categories aid cp given i acc))
     \<subseteq> category_update_fields \<union> queued_fields (snd (snd acc))"
proof (induction given arbitrary: i acc)
  case Nil
  then show ?case by (cases acc) simp
next
  case (Cons category rest)
  obtain ex cr up where acc: "acc = (ex, cr, up)" by (cases acc)
  let ?existing = "dict_lookup cp (to_string (prop_get category ''name''))"
  show ?case
  proof (cases "prop_get category ''name'' \<notin> JStr ` set ex")
    case True
    with Cons.IH [of "Suc i" "(ex, cr @ [with_parent category ''assignment'' aid i], up)"]
    show ?thesis by (simp add: acc Let_def del: diff_fields.simps)
  next
    case False
    show ?thesis
    proof (cases "diff_fields [''pointLimit'', ''helpText'', ''atMostOnce''] ?existing category (False, [])")
      case None
      with False show ?thesis by (simp add: acc Let_def del: diff_fields.simps)
    next
      case (Some changed)
      let ?d = "diff_value ''sortKey'' ?existing (JNum (of_nat i)) changed"
      note k = category_diff_keys [OF Some, of "JNum (of_nat i)"]
      let ?acc = "(removeAll (to_string (prop_get category ''name'')) ex, cr,
                   if fst ?d then up @ [patch_item ?existing (snd ?d)] else up)"
      from False Some
      have step: "plan_categories aid cp (category # rest) i (ex, cr, up)
                    = plan_categories aid cp rest (Suc i) ?acc"
        by (simp add: Let_def split_def del: diff_fields.simps)
      have "queued_fields (snd (snd ?acc)) \<subseteq> category_update_fields \<union> queued_fields up"
        using k by (auto simp del: diff_fields.simps)
      from subset_Un_trans [OF Cons.IH [of "Suc i" ?acc] this] show ?thesis
        unfolding acc step by (simp only: snd_conv)
    qed
  qed
qed

lemma sort_extra_categories_fields:
  "queued_fields (sort_extra_categories cp offset names i) \<subseteq> {''sortKey''}"
  by (induction names arbitrary: i) (auto simp: Let_def)

lemma plan_comments_fields:
  "queued_fields (planned_updates (plan_comments cid cp given i acc))
     \<subseteq> comment_update_fields \<union> queued_fields (snd (snd acc))"
proof (induction given arbitrary: i acc)
  case Nil
  then show ?case by (cases acc) simp
next
  case (Cons comment rest)
  obtain ex cr up where acc: "acc = (ex, cr, up)" by (cases acc)
  let ?existing = "dict_lookup cp (to_string (prop_get comment ''name''))"
  show ?case
  proof (cases "prop_get comment ''name'' \<notin> JStr ` set ex")
    case True
    with Cons.IH [of "Suc i" "(ex, cr @ [with_parent comment ''category'' cid i], up)"]
    show ?thesis by (simp add: acc Let_def del: diff_fields.simps)
  next
    case False
    show ?thesis
    proof (cases "diff_fields [''text'', ''pointDelta'', ''explanation'', ''instructionText'',
                               ''templateTextOn''] ?existing comment (False, [])")
      case None
      with False show ?thesis by (simp add: acc Let_def del: diff_fields.simps)
    next
      case (Some changed)
      let ?d = "diff_value ''sortKey'' ?existing (JNum (of_nat i))
                  (diff_value ''category'' ?existing cid changed)"
      note k = comment_diff_keys [OF Some, of "JNum (of_nat i)" cid]
      let ?acc = "(removeAll (to_string (prop_get comment ''name'')) ex, cr,
                   if fst ?d then up @ [patch_item ?existing (snd ?d)] else up)"
      from False Some
      have step: "plan_comments cid cp (comment # rest) i (ex, cr, up)
                    = plan_comments cid cp rest (Suc i) ?acc"
        by (simp add: Let_def split_def del: diff_fields.simps)
      have "queued_fields (snd (snd ?acc)) \<subseteq> comment_update_fields \<union> queued_fields up"
        using k by (auto simp del: diff_fields.simps)
      from subset_Un_trans [OF Cons.IH [of "Suc i" ?acc] this] show ?thesis
        unfolding acc step by (simp only: snd_conv)
    qed
  qed
qed

lemma plan_all_comments_fields:
  "queued_fields (planned_updates (plan_all_comments final cp entries acc))
     \<subseteq> comment_update_fields \<union> queued_fields (snd (snd acc))"
proof (induction entries arbitrary: acc)
  case Nil
  then show ?case by (cases acc) simp
next
  case (Cons entry rest)
  obtain name comments where e: "entry = (name, comments)" by (cases entry)
  show ?case
  proof (cases "plan_comments (dict_lookup final name) cp comments 0 acc")
    case (Inl err)
    then show ?thesis by (simp add: e)
  next
    case (Inr acc')
    obtain ex cr up where acc': "acc' = (ex, cr, up)" by (cases acc')
    from plan_comments_fields [of "dict_lookup final name" cp comments 0 acc] Inr acc'
    have 1: "queued_fields up \<subseteq> comment_update_fields \<union> queued_fields (snd (snd acc))" by simp
    from Cons.IH [of acc'] acc'
    have "queued_fields (planned_updates (plan_all_comments final cp rest acc'))
            \<subseteq> comment_update_fields \<union> queued_fields up" by simp
    from subset_Un_trans [OF this 1] Inr show ?thesis by (simp add: e)
  qed
qed

lemma sort_extra_comments_fields:
  "queued_fields (sort_extra_comments cp sortKeys names) \<subseteq> {''sortKey''}"
  by (induction names arbitrary: sortKeys) (auto simp: Let_def split_def)

subsection \<open>What the accessors send\<close>

lemma sequence_Inr:
  "sequence rs = Inr ys \<Longrightarrow> y \<in> set ys \<Longrightarrow> Inr y \<in> set rs"
proof (induction rs arbitrary: ys)
  case Nil
  then show ?case by simp
next
  case (Cons r rs)
  then show ?case by (cases r) (auto split: sum.splits)
qed

lemma category_checked_fields:
  assumes "RubricCategory_checkArgs args updating creating = Inr checked"
  shows "fst ` set checked \<subseteq> fields_of args"
proof
  fix k assume "k \<in> fst ` set checked"
  then have "map_of checked k \<noteq> None" by (simp add: map_of_eq_None_iff)
  with RubricCategory_checkArgs_map(1) [OF assms, of k]
  have "map_of (own_props args) k \<noteq> None"
    by (auto simp: js_get_def prop_get_def split: if_splits option.splits)
  then show "k \<in> fields_of args" by (simp add: fields_of_def map_of_eq_None_iff)
qed

lemma comment_checked_fields:
  assumes "RubricComment_checkArgs args updating creating = Inr checked"
  shows "fst ` set checked \<subseteq> fields_of args"
proof
  fix k assume "k \<in> fst ` set checked"
  then have "map_of checked k \<noteq> None" by (simp add: map_of_eq_None_iff)
  with RubricComment_checkArgs_map(1) [OF assms, of k]
  have "map_of (own_props args) k \<noteq> None"
    by (auto simp: hasProp'_def split: if_splits option.splits)
  then show "k \<in> fields_of args" by (simp add: fields_of_def map_of_eq_None_iff)
qed

lemma starts_with_append [simp]: "starts_with s (s @ t)"
  by (simp add: starts_with_def)

lemma checkMethod_Inr: "checkMethod' m = Inr M \<Longrightarrow> M \<in> {''GET'', ''POST'', ''PATCH'', ''DELETE''}"
  by (auto simp: checkMethod'_def Let_def METHODS_def split: if_splits)

lemma fetch_other_extends:
  assumes "m \<in> {''GET'', ''POST'', ''DELETE''}"
  shows "extends_by update_frame w (snd (fetch' ev m ep data w))"
proof (rule fetch_extends)
  fix M items and r :: request
  assume "checkMethod' m = Inr M" and "req_method r = M"
  with assms have "req_method r \<noteq> ''PATCH''" by auto
  then show "update_frame r" by (simp add: update_frame_def)
qed

lemma fetchOne_get_extends: "extends_by update_frame w (snd (fetchOne' ev ''GET'' ep data w))"
proof (rule fetchOne_extends)
  fix M and r :: request
  assume "checkMethod' ''GET'' = Inr M" and "req_method r = M"
  then have "req_method r \<noteq> ''PATCH''" by auto
  then show "update_frame r" by (simp add: update_frame_def)
qed

lemma updateAll_items:
  assumes "sequence (map (\<lambda>obj.
         case lift_args (check (js_get obj ''data'')) of
           Inl e \<Rightarrow> Inl e
         | Inr checked \<Rightarrow> Inr (JObj [(''id'', js_get obj ''id''), (''data'', checked)])) updates) = Inr items"
    and "item \<in> set items"
  shows "\<exists>obj\<in>set updates. \<exists>checked. check (js_get obj ''data'') = Inr checked
           \<and> js_get item ''data'' = JObj checked"
proof -
  from sequence_Inr [OF assms] obtain obj where obj: "obj \<in> set updates"
    and i: "(case lift_args (check (js_get obj ''data'')) of
           Inl e \<Rightarrow> Inl e
         | Inr checked \<Rightarrow> Inr (JObj [(''id'', js_get obj ''id''), (''data'', checked)])) = Inr item"
    by auto
  then obtain checked where "check (js_get obj ''data'') = Inr checked"
    and "item = JObj [(''id'', js_get obj ''id''), (''data'', JObj checked)]"
    by (auto simp: lift_args_def split: sum.splits arg_error.splits)
  with obj show ?thesis by (auto simp: js_get_def prop_get_def)
qed

lemma RubricCategory_updateAll_extends:
  assumes "queued_fields updates \<subseteq> category_update_fields"
  shows "extends_by update_frame w (snd (RubricCategory_updateAll ev updates w))"
proof (cases "sequence (map (\<lambda>obj.
         case lift_args (RubricCategory_checkArgs (js_get obj ''data'') True False) of
           Inl e \<Rightarrow> Inl e
         | Inr checked \<Rightarrow> Inr (JObj [(''id'', js_get obj ''id''), (''data'', checked)])) updates)")
  case (Inl e)
  then show ?thesis by (simp add: RubricCategory_updateAll_def io_bind_def io_lift_def)
next
  case (Inr items)
  have "extends_by update_frame w (snd (fetch' ev ''PATCH'' RUBRIC_CATEGORIES (JArr items) w))"
  proof (rule fetch_extends)
    fix M items' and r :: request
    assume "JArr items = JArr items'" and "req_method r = M"
      and "M = ''PATCH'' \<longrightarrow> (\<exists>item\<in>set items'.
              req_url r = BASE_ENDPOINT @ fixEndpoint' RUBRIC_CATEGORIES @ to_string (js_get item ''id'') @ ''/''
              \<and> req_payload r = Some (wire (js_get item ''data'')))"
    then have *: "req_method r = ''PATCH'' \<longrightarrow> (\<exists>item\<in>set items.
              req_url r = (BASE_ENDPOINT @ RUBRIC_CATEGORIES) @ to_string (js_get item ''id'') @ ''/''
              \<and> req_payload r = Some (wire (js_get item ''data'')))"
      by simp
    show "update_frame r"
      unfolding update_frame_def
    proof
      assume "req_method r = ''PATCH''"
      with * obtain item where item: "item \<in> set items"
        and url: "req_url r = (BASE_ENDPOINT @ RUBRIC_CATEGORIES) @ to_string (js_get item ''id'') @ ''/''"
        and pl: "req_payload r = Some (wire (js_get item ''data''))" by blast
      from updateAll_items [OF Inr item] obtain obj checked where obj: "obj \<in> set updates"
        and c: "RubricCategory_checkArgs (js_get obj ''data'') True False = Inr checked"
        and d: "js_get item ''data'' = JObj checked" by blast
      have "fields_of (wire (js_get item ''data'')) \<subseteq> fields_of (js_get obj ''data'')"
        using fields_of_wire [of "JObj checked"] category_checked_fields [OF c] unfolding d by simp
      also have "\<dots> \<subseteq> queued_fields updates" using obj by (auto simp: queued_fields_def)
      finally have "fields_of (wire (js_get item ''data'')) \<subseteq> category_update_fields"
        using assms by simp
      with url pl show "case req_payload r of None \<Rightarrow> False
         | Some p \<Rightarrow> starts_with (BASE_ENDPOINT @ RUBRIC_CATEGORIES) (req_url r)
               \<and> fields_of p \<subseteq> category_update_fields
             \<or> starts_with (BASE_ENDPOINT @ RUBRIC_COMMENTS) (req_url r)
               \<and> fields_of p \<subseteq> comment_update_fields"
        by (simp del: wire.simps append_assoc)
    qed
  qed
  with Inr show ?thesis by (simp add: RubricCategory_updateAll_def io_bind_def io_lift_def)
qed

lemma RubricComment_updateAll_extends:
  assumes "queued_fields updates \<subseteq> comment_update_fields"
  shows "extends_by update_frame w (snd (RubricComment_updateAll ev updates w))"
proof (cases "sequence (map (\<lambda>obj.
         case lift_args (RubricComment_checkArgs (js_get obj ''data'') True False) of
           Inl e \<Rightarrow> Inl e
         | Inr checked \<Rightarrow> Inr (JObj [(''id'', js_get obj ''id''), (''data'', checked)])) updates)")
  case (Inl e)
  then show ?thesis by (simp add: RubricComment_updateAll_def io_bind_def io_lift_def)
next
  case (Inr items)
  have "extends_by update_frame w (snd (fetch' ev ''PATCH'' RUBRIC_COMMENTS (JArr items) w))"
  proof (rule fetch_extends)
    fix M items' and r :: request
    assume "JArr items = JArr items'" and "req_method r = M"
      and "M = ''PATCH'' \<longrightarrow> (\<exists>item\<in>set items'.
              req_url r = BASE_ENDPOINT @ fixEndpoint' RUBRIC_COMMENTS @ to_string (js_get item ''id'') @ ''/''
              \<and> req_payload r = Some (wire (js_get item ''data'')))"
    then have *: "req_method r = ''PATCH'' \<longrightarrow> (\<exists>item\<in>set items.
              req_url r = (BASE_ENDPOINT @ RUBRIC_COMMENTS) @ to_string (js_get item ''id'') @ ''/''
              \<and> req_payload r = Some (wire (js_get item ''data'')))"
      by simp
    show "update_frame r"
      unfolding update_frame_def
    proof
      assume "req_method r = ''PATCH''"
      with * obtain item where item: "item \<in> set items"
        and url: "req_url r = (BASE_ENDPOINT @ RUBRIC_COMMENTS) @ to_string (js_get item ''id'') @ ''/''"
        and pl: "req_payload r = Some (wire (js_get item ''data''))" by blast
      from updateAll_items [OF Inr item] obtain obj checked where obj: "obj \<in> set updates"
        and c: "RubricComment_checkArgs (js_get obj ''data'') True False = Inr checked"
        and d: "js_get item ''data'' = JObj checked" by blast
      have "fields_of (wire (js_get item ''data'')) \<subseteq> fields_of (js_get obj ''data'')"
        using fields_of_wire [of "JObj checked"] comment_checked_fields [OF c] unfolding d by simp
      also have "\<dots> \<subseteq> queued_fields updates" using obj by (auto simp: queued_fields_def)
      finally have "fields_of (wire (js_get item ''data'')) \<subseteq> comment_update_fields"
        using assms by simp
      with url pl show "case req_payload r of None \<Rightarrow> False
         | Some p \<Rightarrow> starts_with (BASE_ENDPOINT @ RUBRIC_CATEGORIES) (req_url r)
               \<and> fields_of p \<subseteq> category_update_fields
             \<or> starts_with (BASE_ENDPOINT @ RUBRIC_COMMENTS) (req_url r)
               \<and> fields_of p \<subseteq> comment_update_fields"
        by (simp del: wire.simps append_assoc)
    qed
  qed
  with Inr show ?thesis by (simp add: RubricComment_updateAll_def io_bind_def io_lift_def)
qed

lemma getByIds_extends:
  "extends_by update_frame w (snd (RubricCategory_getByIds ev ids w))"
  "extends_by update_frame w (snd (RubricComment_getByIds ev ids w))"
  unfolding RubricCategory_getByIds_def RubricComment_getByIds_def
  by (rule extends_bind, rule fetch_other_extends, simp, rule extends_lift)+

lemma keys_ok_extends [simp]: "extends_by P w (snd (keys_ok vs w))"
  by (simp add: keys_ok_def)

lemma createAll_extends:
  "extends_by update_frame w (snd (RubricCategory_createAll ev data w))"
  "extends_by update_frame w (snd (RubricComment_createAll ev data w))"
  unfolding RubricCategory_createAll_def RubricComment_createAll_def
  by (rule extends_bind, rule extends_lift, rule fetch_other_extends, simp)+

lemma deleteAll_extends:
  "extends_by update_frame w (snd (RubricCategory_deleteAll ev ids w))"
  "extends_by update_frame w (snd (RubricComment_deleteAll ev ids w))"
  unfolding RubricCategory_deleteAll_def RubricComment_deleteAll_def
  by (rule extends_bind, rule fetch_other_extends, simp, rule extends_return)+

lemma assignment_extends:
  "extends_by update_frame w (snd (Assignment_getById ev a w))"
  "extends_by update_frame w (snd (Assignment_getNumSubmissions ev a w))"
  unfolding Assignment_getById_def Assignment_getNumSubmissions_def Assignment_getSubmissions_def
  by (rule fetchOne_get_extends, rule extends_bind, rule fetchOne_get_extends, rule extends_return)

lemma extends_if:
  "(c \<Longrightarrow> extends_by P w (snd (a w))) \<Longrightarrow> (\<not> c \<Longrightarrow> extends_by P w (snd (b w)))
   \<Longrightarrow> extends_by P w (snd ((if c then a else b) w))"
  by simp

lemma extends_case_prod:
  "(\<And>a b c. extends_by P w (snd (f a b c w)))
   \<Longrightarrow> extends_by P w (snd ((case p of (a, b, c) \<Rightarrow> f a b c) w))"
  by (cases p) auto

lemma sync_categories_extends:
  "extends_by update_frame w
     (snd (sync_categories ev assignmentId offset deleteExtra cpCategories givenCategories w))"
proof (cases "plan_categories assignmentId cpCategories givenCategories 0 (own_keys cpCategories, [], [])")
  case (Inl e)
  then show ?thesis by (simp add: sync_categories_def Let_def io_bind_def io_lift_def)
next
  case (Inr plan)
  obtain ex cr up where plan: "plan = (ex, cr, up)" by (cases plan)
  have up: "queued_fields up \<subseteq> category_update_fields"
    using plan_categories_fields [of assignmentId cpCategories givenCategories 0
            "(own_keys cpCategories, [], [])"] by (simp add: Inr plan)
  have sk: "''sortKey'' \<in> category_update_fields" by (simp add: category_update_fields_def)
  with sort_extra_categories_fields [of cpCategories offset ex 0]
  have "queued_fields (sort_extra_categories cpCategories offset ex 0) \<subseteq> category_update_fields"
    by blast
  with up have up1: "queued_fields (up @ sort_extra_categories cpCategories offset ex 0)
                       \<subseteq> category_update_fields"
    by simp
  have bind: "io_bind (io_lift (Inr (ex, cr, up))) f = f (ex, cr, up)" for f :: "plan \<Rightarrow> (jsval dict) io"
    by (rule ext) (simp add: io_bind_def io_lift_def)
  show ?thesis
    unfolding sync_categories_def Let_def Inr plan bind prod.case
    apply (rule extends_bind)
     apply (rule createAll_extends)
    apply (rule extends_bind)
     apply (rule keys_ok_extends)
    apply (rule extends_bind)
     apply (rule extends_if)
      apply (rule deleteAll_extends)
     apply (rule extends_return)
    apply (rule extends_bind)
     apply (rule RubricCategory_updateAll_extends)
     apply (simp add: up up1 del: queued_fields_append)
    apply (rule extends_bind)
     apply (rule keys_ok_extends)
    apply (rule extends_return)
    done
qed

lemma extra_comment_updates_extends:
  "extends_by update_frame w
     (snd (extra_comment_updates finalCategories cpComments givenComments existingComments w))"
  unfolding extra_comment_updates_def Let_def
  by (rule extends_bind, rule keys_ok_extends, rule extends_bind, rule keys_ok_extends,
      rule extends_return)

lemma extra_comment_updates_fields:
  "extra_comment_updates finalCategories cpComments givenComments existingComments w = (Inr extra, w')
   \<Longrightarrow> queued_fields extra \<subseteq> {''sortKey''}"
  by (auto simp: extra_comment_updates_def Let_def io_bind_def io_return_def io_throw_def keys_ok_def
        split: if_splits dest!: subsetD [OF sort_extra_comments_fields])

lemma extends_bind_result:
  assumes "\<And>w. extends_by P w (snd (m w))"
    and "\<And>x w w0. m w0 = (Inr x, w) \<Longrightarrow> extends_by P w (snd (f x w))"
  shows "extends_by P w (snd (io_bind m f w))"
proof (cases "m w")
  case (Pair r w1)
  with assms(1) [of w] have 1: "extends_by P w w1" by simp
  show ?thesis
  proof (cases r)
    case (Inl e)
    with Pair 1 show ?thesis by (simp add: io_bind_def)
  next
    case (Inr x)
    with Pair have "io_bind m f w = f x w1" by (simp add: io_bind_def)
    with extends_by_trans [OF 1 assms(2) [of w x w1]] Pair Inr show ?thesis by simp
  qed
qed

lemma sync_comments_extends:
  "extends_by update_frame w
     (snd (sync_comments ev deleteExtra finalCategories cpComments givenComments w))"
proof (cases "plan_all_comments finalCategories cpComments (own_entries givenComments)
               (own_keys cpComments, [], [])")
  case (Inl e)
  then show ?thesis by (simp add: sync_comments_def Let_def io_bind_def io_lift_def)
next
  case (Inr plan)
  obtain ex cr up where plan: "plan = (ex, cr, up)" by (cases plan)
  have up: "queued_fields up \<subseteq> comment_update_fields"
    using plan_all_comments_fields [of finalCategories cpComments "own_entries givenComments"
            "(own_keys cpComments, [], [])"] by (simp add: Inr plan)
  have sk: "''sortKey'' \<in> comment_update_fields" by (simp add: comment_update_fields_def)
  have bind: "io_bind (io_lift (Inr (ex, cr, up))) f = f (ex, cr, up)" for f :: "plan \<Rightarrow> unit io"
    by (rule ext) (simp add: io_bind_def io_lift_def)
  have extra: "queued_fields (up @ extra) \<subseteq> comment_update_fields"
    if "(if ex \<noteq> [] \<and> \<not> deleteExtra
         then extra_comment_updates finalCategories cpComments givenComments ex
         else io_return []) w0 = (Inr extra, w1)" for extra w0 w1
  proof (cases "ex \<noteq> [] \<and> \<not> deleteExtra")
    case True
    with that extra_comment_updates_fields [of finalCategories cpComments givenComments ex w0 extra w1]
    have "queued_fields extra \<subseteq> {''sortKey''}" by simp
    with sk up show ?thesis by auto
  next
    case False
    with that have "extra = []" by (auto simp: io_return_def)
    with up show ?thesis by simp
  qed
  show ?thesis
    unfolding sync_comments_def Let_def Inr plan bind prod.case
    apply (rule extends_bind)
     apply (rule createAll_extends)
    apply (rule extends_bind)
     apply (rule extends_if)
      apply (rule deleteAll_extends)
     apply (rule extends_return)
    apply (rule extends_bind_result)
     apply (rule extends_if)
      apply (rule extra_comment_updates_extends)
     apply (rule extends_return)
    apply (rule extends_bind)
     apply (rule RubricComment_updateAll_extends)
     apply (erule extra)
    apply (rule extends_return)
    done
qed

lemma sync_rubric_extends:
  "extends_by update_frame w
     (snd (sync_rubric ev assignmentId assignment offset deleteExtra givenCategories givenComments w))"
  unfolding sync_rubric_def Let_def
  apply (rule extends_bind)
   apply (rule getByIds_extends)
  apply (rule extends_bind)
   apply (rule keys_ok_extends)
  apply (rule extends_bind)
   apply (rule getByIds_extends)
  apply (rule extends_bind)
   apply (rule keys_ok_extends)
  apply (rule extends_bind)
   apply (rule sync_categories_extends)
  apply (rule sync_comments_extends)
  done

lemma wipe_rubric_extends:
  "extends_by update_frame w
     (snd (wipe_rubric ev assignmentId assignment givenCategories givenComments w))"
  unfolding wipe_rubric_def Let_def
  apply (rule extends_bind)
   apply (rule deleteAll_extends)
  apply (rule extends_bind)
   apply (rule createAll_extends)
  apply (rule extends_bind)
   apply (rule keys_ok_extends)
  apply (rule extends_bind)
   apply (rule createAll_extends)
  apply (rule extends_return)
  done

lemma importRubric_extends:
  "extends_by update_frame w (snd (importRubric' ev assignmentId rubric wipe deleteExtra w))"
proof (cases "nullish assignmentId")
  case True
  then show ?thesis by (simp add: importRubric'_def)
next
  case False
  show ?thesis
  proof (cases "isNumber' assignmentId")
    case None
    with False show ?thesis by (simp add: importRubric'_def)
  next
    case (Some b)
    show ?thesis
    proof (cases b)
      case False
      with Some \<open>\<not> nullish assignmentId\<close> show ?thesis by (simp add: importRubric'_def)
    next
      case True
      show ?thesis
        unfolding importRubric'_def
        using \<open>\<not> nullish assignmentId\<close> Some True
        apply (simp only: if_False option.case bool.case)
        apply (rule extends_bind)
         apply (rule extends_lift)
        apply (simp only: split_def)
        apply (rule extends_bind)
         apply (rule assignment_extends)
        apply (rule extends_bind)
         apply (rule assignment_extends)
        apply (rule extends_if)
         apply (rule extends_return)
        apply (rule extends_if)
         apply (rule wipe_rubric_extends)
        apply (rule sync_rubric_extends)
        done
    qed
  qed
qed

section \<open>Updates touch only the fields that may change\<close>

text \<open>
  C10. Whatever the arguments and the store, every request \<open>importRubric\<close> sends respects
  the frame: a \<open>PATCH\<close> to a category carries only fields among \<open>pointLimit\<close>,
  \<open>helpText\<close>, \<open>atMostOnce\<close>, \<open>sortKey\<close>, and a \<open>PATCH\<close> to a comment only fields among
  \<open>text\<close>, \<open>pointDelta\<close>, \<open>explanation\<close>, \<open>instructionText\<close>, \<open>templateTextOn\<close>,
  \<open>category\<close>, \<open>sortKey\<close>. The same holds of the updates as they are queued: those for
  the matched categories and comments have these fields only, those for the extra ones
  have \<open>sortKey\<close> only. Neither \<open>name\<close> nor \<open>assignment\<close> is among the fields of a
  category update, and \<open>name\<close> is not among those of a comment update.
\<close>

theorem update_payloads_frame:
  "extends_by update_frame w (snd (importRubric' ev assignmentId rubric wipe deleteExtra w))
   \<and> queued_fields (planned_updates (plan_categories assignmentId cpCategories givenCategories i
                                        (existingCategories, createCategories, [])))
       \<subseteq> category_update_fields
   \<and> queued_fields (sort_extra_categories cpCategories offset extraCategories j) \<subseteq> {''sortKey''}
   \<and> queued_fields (planned_updates (plan_all_comments finalCategories cpComments entries
                                        (existingComments, createComments, [])))
       \<subseteq> comment_update_fields
   \<and> queued_fields (sort_extra_comments cpComments sortKeys extraComments) \<subseteq> {''sortKey''}
   \<and> ''name'' \<notin> category_update_fields \<and> ''assignment'' \<notin> category_update_fields
   \<and> ''name'' \<notin> comment_update_fields"
proof (intro conjI)
  show "extends_by update_frame w (snd (importRubric' ev assignmentId rubric wipe deleteExtra w))"
    by (rule importRubric_extends)
  show "queued_fields (planned_updates (plan_categories assignmentId cpCategories givenCategories i
                                  (existingCategories, createCategories, [])))
       \<subseteq> category_update_fields"
    using plan_categories_fields [of assignmentId cpCategories givenCategories i
            "(existingCategories, createCategories, [])"] by simp
  show "queued_fields (sort_extra_categories cpCategories offset extraCategories j) \<subseteq> {''sortKey''}"
    by (rule sort_extra_categories_fields)
  show "queued_fields (planned_updates (plan_all_comments finalCategories cpComments entries
                                  (existingComments, createComments, [])))
       \<subseteq> comment_update_fields"
    using plan_all_comments_fields [of finalCategories cpComments entries
            "(existingComments, createComments, [])"] by simp
  show "queued_fields (sort_extra_comments cpComments sortKeys extraComments) \<subseteq> {''sortKey''}"
    by (rule sort_extra_comments_fields)
qed (simp_all add: category_update_fields_def comment_update_fields_def)

theorem update_payloads_frame_witness:
  "extends_by update_frame w_one_category
     (snd (importRubric' \<lparr>api_key = Some ''k'', answer = 0\<rparr> (id_val 1) (JArr rubric_A) False False
             w_one_category))
   \<and> w_trace (snd (importRubric' \<lparr>api_key = Some ''k'', answer = 0\<rparr> (id_val 1) (JArr rubric_A) False False
                     w_one_category))
       = [get_one ''k'' ''assignments/1/'',
          get_one ''k'' ''assignments/1/submissions/'',
          get_req ''k'' RUBRIC_CATEGORIES 5,
          get_req ''k'' RUBRIC_COMMENTS 9,
          patch_req ''k'' RUBRIC_CATEGORIES 5 (JObj [(''pointLimit'', JNum (- 3))]),
          patch_req ''k'' RUBRIC_COMMENTS 9 (JObj [(''pointDelta'', JNum (- 1))])]"
proof -
  have t: "w_trace (snd (importRubric' \<lparr>api_key = Some ''k'', answer = 0\<rparr> (id_val 1) (JArr rubric_A) False False
                     w_one_category))
       = [get_one ''k'' ''assignments/1/'',
          get_one ''k'' ''assignments/1/submissions/'',
          get_req ''k'' RUBRIC_CATEGORIES 5,
          get_req ''k'' RUBRIC_COMMENTS 9,
          patch_req ''k'' RUBRIC_CATEGORIES 5 (JObj [(''pointLimit'', JNum (- 3))]),
          patch_req ''k'' RUBRIC_COMMENTS 9 (JObj [(''pointDelta'', JNum (- 1))])]"
    by code_simp
  from update_payloads_frame [where w = w_one_category and ev = "\<lparr>api_key = Some ''k'', answer = 0\<rparr>"
      and assignmentId = "id_val 1" and rubric = "JArr rubric_A" and wipe = False and deleteExtra = False,
      THEN conjunct1] t
  show ?thesis by (rule conjI)
qed

section \<open>The wipe mode\<close>

text \<open>
  C2 fails on the code. The rubric has one category, named \<open>__proto__\<close>, with one
  comment. The check accepts it, but the assignment \<open>givenComments[categoryName] = ...\<close>
  creates no property under that name, so the table of comments stays empty. The wipe
  then deletes the stored category, creates the category \<open>__proto__\<close> and creates no
  comment at all, and the run returns normally.
\<close>

theorem wipe_mode_drops_comments:
  "checkValidRubric' (JArr rubric_proto) = Inr ([[(''name'', JStr ''__proto__'')]], [])
   \<and> importRubric' \<lparr>api_key = Some ''k'', answer = 0\<rparr> (JNum 1) (JArr rubric_proto) True False
        w_one_category
     = (Inr (),
        \<lparr>w_store = st_wiped\<lparr>st_categories :=
                      [\<lparr>row_id = 1, row_fields = [(''assignment'', JNum 1),
                                                   (''name'', JStr ''__proto__''),
                                                   (''sortKey'', JNum 0)]\<rparr>]\<rparr>,
         w_trace = [get_one ''k'' ''assignments/1/'',
                    get_one ''k'' ''assignments/1/submissions/'',
                    delete_req ''k'' RUBRIC_CATEGORIES 5,
                    post_req ''k'' RUBRIC_CATEGORIES
                      (JObj [(''assignment'', JNum 1), (''name'', JStr ''__proto__''),
                             (''sortKey'', JNum 0)])]\<rparr>)"
  by code_simp

text \<open>
  The wipe also destroys the stored rubric without creating the new one when the
  assignment id is given as the string \<open>"1"\<close>: \<open>isNumber_\<close> accepts it, the stored
  categories are deleted, and the creation of the categories then rejects the string as
  their \<open>assignment\<close>.
\<close>

lemma wipe_mode_string_id:
  "importRubric' \<lparr>api_key = Some ''k'', answer = 0\<rparr> (JStr ''1'') (JArr rubric_B) True False
        w_one_category
     = (Inl (ArgError (FieldError ''RubricCategory'' ''assignment'' NotAnInteger)),
        \<lparr>w_store = st_wiped,
         w_trace = [get_one ''k'' ''assignments/1/'',
                    get_one ''k'' ''assignments/1/submissions/'',
                    delete_req ''k'' RUBRIC_CATEGORIES 5]\<rparr>)"
  by code_simp

text \<open>
  On the example of the specification the wipe runs as described: category \<open>A\<close> is
  deleted, \<open>B\<close> is created with \<open>sortKey\<close> 0, and its comments are created with
  \<open>sortKey\<close> 0 and 1 under the id returned for \<open>B\<close>; nothing but the assignment and its
  submissions is fetched.
\<close>

lemma wipe_mode_example:
  "importRubric' \<lparr>api_key = Some ''k'', answer = 0\<rparr> (JNum 1) (JArr rubric_B) True False
        w_one_category
     = (Inr (),
        \<lparr>w_store = st_wiped\<lparr>
            st_categories :=
              [\<lparr>row_id = 1, row_fields = [(''assignment'', JNum 1), (''name'', JStr ''B''),
                                           (''sortKey'', JNum 0)]\<rparr>],
            st_comments :=
              [\<lparr>row_id = 1, row_fields = [(''category'', JNum 1), (''name'', JStr ''c0''),
                                           (''pointDelta'', JNum (- 1)), (''text'', JStr ''first''),
                                           (''sortKey'', JNum 0)]\<rparr>,
               \<lparr>row_id = 2, row_fields = [(''category'', JNum 1), (''name'', JStr ''c1''),
                                           (''pointDelta'', JNum 0), (''text'', JStr ''second''),
                                           (''sortKey'', JNum 1)]\<rparr>]\<rparr>,
         w_trace = [get_one ''k'' ''assignments/1/'',
                    get_one ''k'' ''assignments/1/submissions/'',
                    delete_req ''k'' RUBRIC_CATEGORIES 5,
                    post_req ''k'' RUBRIC_CATEGORIES
                      (JObj [(''assignment'', JNum 1), (''name'', JStr ''B''), (''sortKey'', JNum 0)]),
                    post_req ''k'' RUBRIC_COMMENTS
                      (JObj [(''category'', JNum 1), (''name'', JStr ''c0''),
                             (''pointDelta'', JNum (- 1)), (''text'', JStr ''first''),
                             (''sortKey'', JNum 0)]),
                    post_req ''k'' RUBRIC_COMMENTS
                      (JObj [(''category'', JNum 1), (''name'', JStr ''c1''),
                             (''pointDelta'', JNum 0), (''text'', JStr ''second''),
                             (''sortKey'', JNum 1)])]\<rparr>)"
  by code_simp

section \<open>The sort keys of the comments that are kept\<close>

text \<open>
  C3 fails on the code. The store has category \<open>A\<close> with the comment \<open>old\<close>, and the
  desired rubric has category \<open>B\<close> only. Category \<open>A\<close> is kept and sorted after \<open>B\<close>,
  and \<open>old\<close> is a comment to keep whose category is not in the desired rubric. The
  table \<open>sortKeys\<close> has no entry for that category, so the counter of \<open>old\<close> starts from
  \<open>undefined\<close>: the sort key computed is \<open>NaN\<close>, an update with it is queued, and
  \<open>RubricComment.updateAll\<close> rejects the update. The run fails after it has created
  \<open>B\<close> and its comments, and \<open>old\<close> keeps the sort key it had.
\<close>

theorem orphan_of_extra_category_fails:
  "sort_extra_comments
      [(''old'', JObj [(''category'', JNum 5), (''name'', JStr ''old''), (''pointDelta'', JNum (- 2)),
                       (''text'', JStr ''t''), (''sortKey'', JNum 0), (''id'', JNum 9)])]
      [(''6'', JNum 2)] [''old'']
     = [JObj [(''id'', JNum 9), (''data'', JObj [(''sortKey'', JNaN)])]]
   \<and> fst (importRubric' \<lparr>api_key = Some ''k'', answer = 0\<rparr> (JNum 1) (JArr rubric_B) False False
             w_one_category)
     = Inl (ArgError (FieldError ''RubricComment'' ''sortKey'' NotANumber))
   \<and> w_trace (snd (importRubric' \<lparr>api_key = Some ''k'', answer = 0\<rparr> (JNum 1) (JArr rubric_B) False
                      False w_one_category))
     = [get_one ''k'' ''assignments/1/'',
        get_one ''k'' ''assignments/1/submissions/'',
        get_req ''k'' RUBRIC_CATEGORIES 5,
        get_req ''k'' RUBRIC_COMMENTS 9,
        post_req ''k'' RUBRIC_CATEGORIES
          (JObj [(''assignment'', JNum 1), (''name'', JStr ''B''), (''sortKey'', JNum 0)]),
        patch_req ''k'' RUBRIC_CATEGORIES 5 (JObj [(''sortKey'', JNum 1)]),
        post_req ''k'' RUBRIC_COMMENTS
          (JObj [(''category'', JNum 6), (''name'', JStr ''c0''), (''pointDelta'', JNum (- 1)),
                 (''text'', JStr ''first''), (''sortKey'', JNum 0)]),
        post_req ''k'' RUBRIC_COMMENTS
          (JObj [(''category'', JNum 6), (''name'', JStr ''c1''), (''pointDelta'', JNum 0),
                 (''text'', JStr ''second''), (''sortKey'', JNum 1)])]"
  by code_simp

end
